theory Spec2Isabelle
  imports
    Complex_Main
    "HOL-Library.Char_ord"
    "HOL-Library.List_Lexorder"
    "HOL-Library.AList"
begin

section \<open>Python values used by \<open>prepare_traindatasets.py\<close>\<close>

text \<open>
  The module \<open>orthoseg/prepare_traindatasets.py\<close> is embedded function by function.
  Python exceptions are values of the type \<open>error\<close>; a function that can raise
  returns \<open>error + 'a\<close> (or a pair of an optional error and the state reached when the
  exception left the function, where the state on disk matters afterwards).
  Python \<open>int\<close> is \<open>int\<close>. Python \<open>float\<close> is \<open>real\<close>: coordinates and pixel
  sizes are computed exactly, the rounding of IEEE doubles is not part of the model.
  A \<open>str\<close> is a \<open>string\<close>, compared character by character as Python compares
  code points.
\<close>

datatype error =
    Stop_input_missing
  | ZeroDivisionError
  | ValueError
  | KeyError string
  | IndexError
  | AttributeError
  | OSError
  | Read_error
  | Fetch_error
  | Error_preparing_dataset error

subsection \<open>Strings\<close>

definition endswith :: "string \<Rightarrow> string \<Rightarrow> bool" where
  "endswith s suffix =
     (length suffix \<le> length s \<and> drop (length s - length suffix) s = suffix)"

definition startswith :: "string \<Rightarrow> string \<Rightarrow> bool" where
  "startswith s prefix = (take (length prefix) s = prefix)"

definition is_digit :: "char \<Rightarrow> bool" where
  "is_digit c = (c \<in> set ''0123456789'')"

text \<open>The value of a digit is its place among the ten digits.\<close>

definition digit_value :: "char \<Rightarrow> nat" where
  "digit_value c = length (takeWhile (\<lambda>d. d \<noteq> c) ''0123456789'')"

definition digit_char :: "nat \<Rightarrow> char" where
  "digit_char n = ''0123456789'' ! n"

text \<open>\<open>str.split(sep)\<close> for a one-character separator.\<close>

fun split_on :: "char \<Rightarrow> string \<Rightarrow> string list" where
  "split_on sep [] = [[]]"
| "split_on sep (c # cs) =
     (if c = sep then [] # split_on sep cs
      else (case split_on sep cs of
              [] \<Rightarrow> [[c]]
            | w # ws \<Rightarrow> (c # w) # ws))"

text \<open>
  \<open>int(s)\<close> on a string: white space around the literal is dropped, one sign is allowed,
  the digits may be grouped by single underscores; anything else is a \<open>ValueError\<close>
  (\<open>None\<close>). A \<open>char\<close> is a code point below 256. The white space that \<open>int\<close>
  drops is the ASCII white space (space, tab, line feed, vertical tab, form feed, carriage
  return) and, of the code points from 128 on, the two that \<open>str.isspace\<close> holds of:
  \<open>0x85\<close> and \<open>0xA0\<close>. The separators \<open>0x1C\<close> to \<open>0x1F\<close> are white space for
  \<open>str.isspace\<close> but not for \<open>int\<close>.
\<close>

definition is_space :: "char \<Rightarrow> bool" where
  "is_space c = (c \<in> set [CHR '' '', CHR 0x09, CHR 0x0A, CHR 0x0B, CHR 0x0C, CHR 0x0D,
                            CHR 0x85, CHR 0xA0])"

definition strip :: "string \<Rightarrow> string" where
  "strip s = rev (dropWhile is_space (rev (dropWhile is_space s)))"

fun digits_value :: "nat \<Rightarrow> string \<Rightarrow> nat option" where
  "digits_value acc [] = Some acc"
| "digits_value acc (c # cs) =
     (if is_digit c then digits_value (10 * acc + digit_value c) cs
      else if c = CHR ''_'' then
        (case cs of
           [] \<Rightarrow> None
         | d # ds \<Rightarrow>
             if is_digit d then digits_value (10 * acc + digit_value d) ds else None)
      else None)"

definition unsigned_value :: "string \<Rightarrow> nat option" where
  "unsigned_value s =
     (case s of
        [] \<Rightarrow> None
      | c # cs \<Rightarrow> if is_digit c then digits_value (digit_value c) cs else None)"

definition py_int :: "string \<Rightarrow> int option" where
  "py_int s =
     (case strip s of
        [] \<Rightarrow> None
      | c # cs \<Rightarrow>
          if c = CHR ''-'' then map_option (\<lambda>n. - int n) (unsigned_value cs)
          else if c = CHR ''+'' then map_option int (unsigned_value cs)
          else map_option int (unsigned_value (c # cs)))"

text \<open>The format \<open>f"{v:02d}"\<close>: decimal, padded with zeros to two characters.\<close>

fun nat_digits :: "nat \<Rightarrow> string" where
  "nat_digits n =
     (if n < 10 then [digit_char n] else nat_digits (n div 10) @ [digit_char (n mod 10)])"

declare nat_digits.simps [simp del]

definition format_02d :: "int \<Rightarrow> string" where
  "format_02d v =
     (if v < 0 then CHR ''-'' # nat_digits (nat (- v))
      else if v < 10 then CHR ''0'' # nat_digits (nat v)
      else nat_digits (nat v))"

text \<open>\<open>sorted(xs, reverse=True)[0]\<close>; \<open>None\<close> is the \<open>IndexError\<close> of an empty list.\<close>

definition sorted_desc_first :: "string list \<Rightarrow> string option" where
  "sorted_desc_first xs = (case rev (sort xs) of [] \<Rightarrow> None | x # _ \<Rightarrow> Some x)"

subsection \<open>Paths\<close>

text \<open>\<open>os.path.split\<close> and \<open>os.path.join\<close> with the separator \<open>/\<close>.\<close>

definition rstrip_sep :: "string \<Rightarrow> string" where
  "rstrip_sep s = rev (dropWhile (\<lambda>c. c = CHR ''/'') (rev s))"

definition os_path_split :: "string \<Rightarrow> string \<times> string" where
  "os_path_split p =
     (let tail = rev (takeWhile (\<lambda>c. c \<noteq> CHR ''/'') (rev p));
          head = take (length p - length tail) p
      in ((if rstrip_sep head = [] then head else rstrip_sep head), tail))"

definition os_path_basename :: "string \<Rightarrow> string" where
  "os_path_basename p = snd (os_path_split p)"

definition os_path_join :: "string \<Rightarrow> string \<Rightarrow> string" where
  "os_path_join a b =
     (if startswith b ''/'' then b
      else if a = [] \<or> endswith a ''/'' then a @ b
      else a @ ''/'' @ b)"

subsection \<open>Floats\<close>

text \<open>\<open>x % y\<close> on floats: the result has the sign of \<open>y\<close>; \<open>y = 0\<close> raises.\<close>

definition float_mod :: "real \<Rightarrow> real \<Rightarrow> real" where
  "float_mod x y = x - y * of_int \<lfloor>x / y\<rfloor>"

definition py_mod :: "real \<Rightarrow> real \<Rightarrow> error + real" where
  "py_mod x y = (if y = 0 then Inl ZeroDivisionError else Inr (float_mod x y))"

section \<open>Geometries, tables and rasters\<close>

record bbox =
  xmin :: real
  ymin :: real
  xmax :: real
  ymax :: real

text \<open>
  A geometry is the ring of its vertices. \<open>geom.bounds\<close> of an empty geometry is the
  empty tuple, so that reading its first component raises \<open>IndexError\<close>.
\<close>

datatype geometry = Polygon "(real \<times> real) list"

fun bounds :: "geometry \<Rightarrow> bbox option" where
  "bounds (Polygon []) = None"
| "bounds (Polygon (p # ps)) =
     Some \<lparr>xmin = fold min (map fst ps) (fst p), ymin = fold min (map snd ps) (snd p),
           xmax = fold max (map fst ps) (fst p), ymax = fold max (map snd ps) (snd p)\<rparr>"

text \<open>\<open>shapely.geometry.box(xmin, ymin, xmax, ymax)\<close>.\<close>

definition box :: "real \<Rightarrow> real \<Rightarrow> real \<Rightarrow> real \<Rightarrow> geometry" where
  "box x0 y0 x1 y1 = Polygon [(x1, y0), (x1, y1), (x0, y1), (x0, y0)]"

text \<open>
  Two rectangles, given by their bounds, share a point (the boundary included).
\<close>

definition share_point :: "bbox \<Rightarrow> bbox \<Rightarrow> bool" where
  "share_point a b =
     (xmin a \<le> xmax b \<and> xmin b \<le> xmax a \<and> ymin a \<le> ymax b \<and> ymin b \<le> ymax a)"

definition has_area :: "bbox \<Rightarrow> bool" where
  "has_area b = (xmin b < xmax b \<and> ymin b < ymax b)"

text \<open>
  \<open>a.intersects(b)\<close> for two rectangles made by \<open>box\<close>, given by their bounds. The
  ring of a rectangle of width or height 0 collapses to fewer than four distinct
  vertices; GEOS leaves such a ring out when it relates two geometries, so the polygon
  intersects nothing, not even itself. Two rectangles with an area intersect when they
  share a point.
\<close>

definition intersects :: "bbox \<Rightarrow> bbox \<Rightarrow> bool" where
  "intersects a b = (has_area a \<and> has_area b \<and> share_point a b)"

text \<open>
  A \<open>GeoDataFrame\<close>: its CRS dictionary, its column names and its rows; a row holds a
  geometry (\<open>None\<close> when missing) and its cells by column name.
\<close>

datatype val = VNone | VStr string | VInt int

record row =
  geometry :: "geometry option"
  cells :: "(string \<times> val) list"

record gdf =
  crs :: "(string \<times> string) list"
  columns :: "string list"
  rows :: "row list"

definition cell :: "row \<Rightarrow> string \<Rightarrow> val" where
  "cell r c = (case map_of (cells r) c of None \<Rightarrow> VNone | Some v \<Rightarrow> v)"

text \<open>\<open>df[df[c] == v]\<close>: the rows whose cell equals \<open>v\<close>; a missing column raises.\<close>

definition select_eq :: "gdf \<Rightarrow> string \<Rightarrow> val \<Rightarrow> error + gdf" where
  "select_eq g c v =
     (if c \<in> set (columns g) then Inr (g\<lparr>rows := filter (\<lambda>r. cell r c = v) (rows g)\<rparr>)
      else Inl (KeyError c))"

text \<open>\<open>df[df[c].isin(vs)]\<close>.\<close>

definition select_isin :: "gdf \<Rightarrow> string \<Rightarrow> string list \<Rightarrow> error + gdf" where
  "select_isin g c vs =
     (if c \<in> set (columns g)
      then Inr (g\<lparr>rows := filter (\<lambda>r. cell r c \<in> VStr ` set vs) (rows g)\<rparr>)
      else Inl (KeyError c))"

text \<open>\<open>df[c] = v\<close>: sets the column on every row, adding it when it is new.\<close>

definition set_column :: "gdf \<Rightarrow> string \<Rightarrow> val \<Rightarrow> gdf" where
  "set_column g c v =
     g\<lparr>columns := (if c \<in> set (columns g) then columns g else columns g @ [c]),
       rows := map (\<lambda>r. r\<lparr>cells := AList.update c v (cells r)\<rparr>) (rows g)\<rparr>"

text \<open>\<open>pd.concat([a, b], ignore_index=True, sort=True)\<close> with the CRS of \<open>a\<close>.\<close>

definition concat_sorted :: "gdf \<Rightarrow> gdf \<Rightarrow> gdf" where
  "concat_sorted a b =
     \<lparr>crs = crs a, columns = sort (remdups (columns a @ columns b)), rows = rows a @ rows b\<rparr>"

text \<open>\<open>df.rename(columns={old: new})\<close>; a column that is absent is left alone.\<close>

definition rename_column :: "string \<Rightarrow> string \<Rightarrow> gdf \<Rightarrow> gdf" where
  "rename_column old new g =
     g\<lparr>columns := map (\<lambda>c. if c = old then new else c) (columns g),
       rows := map (\<lambda>r. r\<lparr>cells := map (\<lambda>(k, v). (if k = old then new else k, v)) (cells r)\<rparr>)
                 (rows g)\<rparr>"

text \<open>\<open>df.drop(columns=cs)\<close>: a column that is absent raises \<open>KeyError\<close>.\<close>

definition drop_columns :: "string list \<Rightarrow> gdf \<Rightarrow> error + gdf" where
  "drop_columns cs g =
     (case filter (\<lambda>c. c \<notin> set (columns g)) cs of
        c # _ \<Rightarrow> Inl (KeyError c)
      | [] \<Rightarrow>
          Inr (g\<lparr>columns := filter (\<lambda>c. c \<notin> set cs) (columns g),
                 rows := map (\<lambda>r. r\<lparr>cells := filter (\<lambda>(k, v). k \<notin> set cs) (cells r)\<rparr>)
                           (rows g)\<rparr>))"

text \<open>
  A raster file is its profile (the dictionary \<open>ds.profile\<close>) and the rows of its first
  band. The affine transform is the six coefficients of \<open>ds.transform\<close>.
\<close>

type_synonym affine = "real \<times> real \<times> real \<times> real \<times> real \<times> real"

datatype pval =
    PNone
  | PInt int
  | PStr string
  | PBool bool
  | PAffine affine

type_synonym profile = "(string \<times> pval) list"

datatype content =
    Vector gdf
  | Raster profile "nat list list"

section \<open>The file system\<close>

text \<open>
  The directory \<open>training_dir\<close> is a tree; a path below it is the list of its
  components. Files elsewhere (the label files) are kept by their path.
\<close>

datatype node =
    File content
  | Dir "(string \<times> node) list"

type_synonym path = "string list"

fun fs_lookup :: "node \<Rightarrow> path \<Rightarrow> node option" where
  "fs_lookup n [] = Some n"
| "fs_lookup (File c) (p # ps) = None"
| "fs_lookup (Dir es) (p # ps) =
     (case map_of es p of None \<Rightarrow> None | Some n \<Rightarrow> fs_lookup n ps)"

definition os_path_exists :: "node \<Rightarrow> path \<Rightarrow> bool" where
  "os_path_exists fs p = (fs_lookup fs p \<noteq> None)"

text \<open>
  \<open>fs_set fs p new\<close> puts \<open>new\<close> at \<open>p\<close> (or removes the entry when \<open>new\<close> is
  \<open>None\<close>); the parent of \<open>p\<close> must be a directory, else \<open>None\<close> (an \<open>OSError\<close>).
\<close>

fun fs_set :: "node \<Rightarrow> path \<Rightarrow> node option \<Rightarrow> node option" where
  "fs_set n [] new = None"
| "fs_set (File c) (p # ps) new = None"
| "fs_set (Dir es) [p] new =
     Some (Dir (case new of None \<Rightarrow> AList.delete p es | Some m \<Rightarrow> AList.update p m es))"
| "fs_set (Dir es) (p # q # ps) new =
     (case map_of es p of
        None \<Rightarrow> None
      | Some n \<Rightarrow>
          (case fs_set n (q # ps) new of
             None \<Rightarrow> None
           | Some n' \<Rightarrow> Some (Dir (AList.update p n' es))))"

text \<open>\<open>shutil.rmtree(p)\<close>: \<open>p\<close> must be a directory.\<close>

definition shutil_rmtree :: "node \<Rightarrow> path \<Rightarrow> node option" where
  "shutil_rmtree fs p =
     (case fs_lookup fs p of Some (Dir es) \<Rightarrow> fs_set fs p None | _ \<Rightarrow> None)"

text \<open>
  \<open>os.makedirs(p)\<close>: creates \<open>p\<close> and the missing directories above it; fails when
  \<open>p\<close> exists or when a component above it is a file.
\<close>

fun mkdir_p :: "node \<Rightarrow> path \<Rightarrow> node option" where
  "mkdir_p (File c) ps = None"
| "mkdir_p (Dir es) [] = Some (Dir es)"
| "mkdir_p (Dir es) (p # ps) =
     (case mkdir_p (case map_of es p of None \<Rightarrow> Dir [] | Some n \<Rightarrow> n) ps of
        None \<Rightarrow> None
      | Some n' \<Rightarrow> Some (Dir (AList.update p n' es)))"

definition os_makedirs :: "node \<Rightarrow> path \<Rightarrow> node option" where
  "os_makedirs fs p = (if os_path_exists fs p then None else mkdir_p fs p)"

text \<open>Writing a file: creates or replaces it; a directory in its place is an error.\<close>

definition write_file :: "node \<Rightarrow> path \<Rightarrow> content \<Rightarrow> node option" where
  "write_file fs p c =
     (case fs_lookup fs p of
        Some (Dir es) \<Rightarrow> None
      | _ \<Rightarrow> fs_set fs p (Some (File c)))"

definition read_content :: "node \<Rightarrow> path \<Rightarrow> content option" where
  "read_content fs p = (case fs_lookup fs p of Some (File c) \<Rightarrow> Some c | _ \<Rightarrow> None)"

text \<open>
  \<open>os.rename(src, dst)\<close> of a directory (POSIX): \<open>dst\<close> may be absent or an empty
  directory, which is replaced; a file or a directory with entries at \<open>dst\<close> is an
  \<open>OSError\<close>.
\<close>

definition os_rename :: "node \<Rightarrow> path \<Rightarrow> path \<Rightarrow> node option" where
  "os_rename fs src dst =
     (case fs_lookup fs src of
        Some (Dir es) \<Rightarrow>
          (case fs_lookup fs dst of
             Some (File c) \<Rightarrow> None
           | Some (Dir (e # es')) \<Rightarrow> None
           | _ \<Rightarrow>
               (case fs_set fs src None of
                  None \<Rightarrow> None
                | Some fs' \<Rightarrow> fs_set fs' dst (Some (Dir es))))
      | _ \<Rightarrow> None)"

section \<open>Collaborators\<close>

text \<open>
  The behaviour of the services outside the program is a parameter of the model:
  which pixels a geometry covers under a transform (the rasterizer's geometry), whether
  a WMS server answers, which image it serves for a request, and the file name the
  fetcher gives to the image of a box.
\<close>

record ext =
  covers :: "affine \<Rightarrow> geometry \<Rightarrow> nat \<Rightarrow> nat \<Rightarrow> bool"
  wms_connect :: "string \<Rightarrow> string \<Rightarrow> bool"
  wms_getmap ::
    "string \<times> string \<Rightarrow> string list \<Rightarrow> string list \<Rightarrow> string \<Rightarrow> bbox \<Rightarrow> int \<times> int \<Rightarrow> int
       \<Rightarrow> content option"
  image_filename :: "bbox \<Rightarrow> int \<times> int \<Rightarrow> string"

record world =
  files :: "(string \<times> content) list"
  training :: node

text \<open>
  Modelled from the spec: \<open>geofile_util.read_file\<close>, \<open>geofile_util.to_file\<close>,
  \<open>geofile_util.copy\<close> and \<open>geofile_util.cmp\<close> are not among the sources. The spec
  gives them as \<open>read(path) -> table-with-geometry\<close>, \<open>to_file(table, path)\<close>,
  \<open>copy(src, destdir)\<close> and \<open>cmp(pathA, pathB) -> bool\<close> (exact content equality).
\<close>

definition geofile_util_read_file :: "(string \<times> content) list \<Rightarrow> string \<Rightarrow> error + gdf" where
  "geofile_util_read_file fls p =
     (case map_of fls p of Some (Vector g) \<Rightarrow> Inr g | _ \<Rightarrow> Inl Read_error)"

definition geofile_util_to_file ::
  "gdf \<Rightarrow> string \<Rightarrow> (string \<times> content) list \<Rightarrow> (string \<times> content) list" where
  "geofile_util_to_file g p fls = AList.update p (Vector g) fls"

definition geofile_util_copy ::
  "(string \<times> content) list \<Rightarrow> string \<Rightarrow> path \<Rightarrow> node \<Rightarrow> error + node" where
  "geofile_util_copy fls src destdir fs =
     (case map_of fls src of
        None \<Rightarrow> Inl OSError
      | Some c \<Rightarrow>
          (case write_file fs (destdir @ [os_path_basename src]) c of
             None \<Rightarrow> Inl OSError
           | Some fs' \<Rightarrow> Inr fs'))"

definition geofile_util_cmp :: "(string \<times> content) list \<Rightarrow> string \<Rightarrow> node \<Rightarrow> path \<Rightarrow> bool" where
  "geofile_util_cmp fls p1 fs p2 =
     (case map_of fls p1 of
        None \<Rightarrow> False
      | Some a \<Rightarrow> (case read_content fs p2 of None \<Rightarrow> False | Some b \<Rightarrow> a = b))"

text \<open>
  Modelled from the spec: \<open>ows_util.getmap_to_file\<close> is not among the sources. The spec:
  the fetch call returns either a new file path (image just fetched) or no path (the
  file already existed on disk); a failure surfaces as an exception.
\<close>

definition ows_util_getmap_to_file ::
  "ext \<Rightarrow> string \<times> string \<Rightarrow> string list \<Rightarrow> string list \<Rightarrow> path \<Rightarrow> string \<Rightarrow> bbox
     \<Rightarrow> int \<times> int \<Rightarrow> int \<Rightarrow> node \<Rightarrow> (error + path option) \<times> node" where
  "ows_util_getmap_to_file x wms layers styles output_dir srs bb sz ignore_border fs =
     (let p = output_dir @ [image_filename x bb sz] in
      if os_path_exists fs p then (Inr None, fs)
      else
        (case wms_getmap x wms layers styles srs bb sz ignore_border of
           None \<Rightarrow> (Inl Fetch_error, fs)
         | Some img \<Rightarrow>
             (case write_file fs p img of
                None \<Rightarrow> (Inl OSError, fs)
              | Some fs' \<Rightarrow> (Inr (Some p), fs'))))"

text \<open>
  \<open>rasterio.features.rasterize(shapes, fill, default_value, transform, out_shape)\<close>:
  an array of \<open>out_shape[0]\<close> rows and \<open>out_shape[1]\<close> columns that holds
  \<open>default_value\<close> where a shape covers the pixel and \<open>fill\<close> elsewhere. Missing and
  empty geometries are skipped; no shape left, or an empty array, is a \<open>ValueError\<close>.
\<close>

definition valid_shapes :: "geometry option list \<Rightarrow> geometry list" where
  "valid_shapes shapes = [g. Some g \<leftarrow> shapes, bounds g \<noteq> None]"

definition rasterize ::
  "ext \<Rightarrow> geometry option list \<Rightarrow> nat \<Rightarrow> nat \<Rightarrow> affine \<Rightarrow> int \<times> int \<Rightarrow> error + nat list list" where
  "rasterize x shapes fill default_value transform out_shape =
     (if valid_shapes shapes = [] then Inl ValueError
      else if fst out_shape \<le> 0 \<or> snd out_shape \<le> 0 then Inl ValueError
      else Inr (map (\<lambda>r. map (\<lambda>c. if list_ex (\<lambda>g. covers x transform g r c) (valid_shapes shapes)
                                     then default_value else fill)
                              [0 ..< nat (snd out_shape)])
                    [0 ..< nat (fst out_shape)]))"

text \<open>
  \<open>mask_ds.write(burned, 1)\<close> on a dataset of \<open>height\<close> rows and \<open>width\<close> columns
  of type \<open>uint8\<close>. The array is cast to the type of the dataset: of a pixel value
  remains its value modulo 256. An array that has not the shape of the dataset is spread
  over it by GDAL without interpolation: the pixel in row \<open>r\<close> and column \<open>c\<close> of the
  dataset takes the element of the array in row \<open>r * rows div height\<close> and column
  \<open>c * cols div width\<close>, for an array of \<open>rows\<close> rows and \<open>cols\<close> columns.
\<close>

definition dataset_write :: "nat \<Rightarrow> nat \<Rightarrow> nat list list \<Rightarrow> nat list list" where
  "dataset_write height width arr =
     (let nb_rows = length arr;
          nb_cols = (case arr of [] \<Rightarrow> 0 | r # _ \<Rightarrow> length r)
      in map (\<lambda>r. map (\<lambda>c. (arr ! (r * nb_rows div height) ! (c * nb_cols div width)) mod 256)
                         [0 ..< width])
             [0 ..< height])"

section \<open>The mask rasterizer: \<open>_create_mask\<close>\<close>

definition lower :: "string \<Rightarrow> string" where
  "lower s =
     map (\<lambda>c. case map_of (zip ''ABCDEFGHIJKLMNOPQRSTUVWXYZ'' ''abcdefghijklmnopqrstuvwxyz'') c of
                 None \<Rightarrow> c
               | Some l \<Rightarrow> l) s"

text \<open>The second component of \<open>os.path.splitext\<close>, on the last component of a path.\<close>

definition splitext_ext :: "string \<Rightarrow> string" where
  "splitext_ext name =
     (let e = rev (takeWhile (\<lambda>c. c \<noteq> CHR ''.'') (rev name)) in
      if length e = length name then []
      else if list_all (\<lambda>c. c = CHR ''.'') (take (length name - length e - 1) name) then []
      else CHR ''.'' # e)"

definition path_ext_lower :: "path \<Rightarrow> string" where
  "path_ext_lower p = (case rev p of [] \<Rightarrow> [] | name # _ \<Rightarrow> lower (splitext_ext name))"

definition profile_int :: "profile \<Rightarrow> string \<Rightarrow> error + int" where
  "profile_int prof k =
     (case map_of prof k of
        None \<Rightarrow> Inl (KeyError k)
      | Some (PInt n) \<Rightarrow> Inr n
      | Some _ \<Rightarrow> Inl ValueError)"

definition profile_transform :: "profile \<Rightarrow> affine" where
  "profile_transform prof =
     (case map_of prof ''transform'' of
        Some (PAffine a) \<Rightarrow> a
      | _ \<Rightarrow> (1, 0, 0, 0, 1, 0))"

text \<open>
  Lines 434 to 452: the profile of the mask, from the profile of the image and the
  extension of the mask's path.
\<close>

definition mask_profile :: "profile \<Rightarrow> string \<Rightarrow> profile" where
  "mask_profile image_profile output_ext_lower =
     (let prof = AList.update ''nodata'' (PInt 0)
                   (AList.update ''compress'' (PStr ''lzw'')
                     (AList.update ''count'' (PInt 1)
                       (AList.update ''dtype'' (PStr ''uint8'') image_profile)))
      in if output_ext_lower = ''.tif'' then AList.update ''compress'' (PStr ''lzw'') prof
         else if output_ext_lower \<in> set [''.jpg'', ''.jpeg'']
         then AList.delete ''photometric''
                (AList.delete ''interleave''
                  (AList.delete ''compress''
                    (AList.delete ''tiled'' (AList.update ''sharing'' PNone prof))))
         else prof)"

text \<open>Lines 460 and 461.\<close>

definition nb_pixels :: "nat list list \<Rightarrow> nat" where
  "nb_pixels burned = length burned * (case burned of [] \<Rightarrow> 0 | r # _ \<Rightarrow> length r)"

definition nb_pixels_data :: "nat list list \<Rightarrow> int" where
  "nb_pixels_data burned =
     int (nb_pixels burned) - int (length (filter (\<lambda>v. v = 0) (concat burned)))"

text \<open>
  The result is \<open>None\<close> for the bare \<open>return\<close> of line 425, \<open>Some True\<close> and
  \<open>Some False\<close> for the two others. The quotient of line 464 is exact here. The
  burn value is a pixel value, taken not negative. The array \<open>burned\<close> has
  \<open>width\<close> rows and \<open>height\<close> columns, as line 457 asks for; the dataset it is
  written to has the width and the height of the profile.
\<close>

definition create_mask ::
  "ext \<Rightarrow> geometry option list \<Rightarrow> path \<Rightarrow> path \<Rightarrow> path option \<Rightarrow> nat \<Rightarrow> real \<Rightarrow> bool \<Rightarrow> node
     \<Rightarrow> (error + bool option) \<times> node" where
  "create_mask x input_vector_label_list input_image_filepath output_mask_filepath
       output_imagecopy_filepath burn_value minimum_pct_labeled force fs =
     (if \<not> force \<and> os_path_exists fs output_mask_filepath then (Inr None, fs)
      else
        (case read_content fs input_image_filepath of
           None \<Rightarrow> (Inl Read_error, fs)
         | Some (Vector g) \<Rightarrow> (Inl Read_error, fs)
         | Some (Raster image_profile image_band) \<Rightarrow>
             (let image_transform_affine = profile_transform image_profile;
                  image_output_profile =
                    mask_profile image_profile (path_ext_lower output_mask_filepath)
              in (case profile_int image_output_profile ''width'' of
                   Inl e \<Rightarrow> (Inl e, fs)
                 | Inr w \<Rightarrow>
                     (case profile_int image_output_profile ''height'' of
                        Inl e \<Rightarrow> (Inl e, fs)
                      | Inr h \<Rightarrow>
                          (case rasterize x input_vector_label_list 0 burn_value
                                  image_transform_affine (w, h) of
                             Inl e \<Rightarrow> (Inl e, fs)
                           | Inr burned \<Rightarrow>
                               if real_of_int (nb_pixels_data burned) / real (nb_pixels burned)
                                    \<ge> minimum_pct_labeled
                               then
                                 (case write_file fs output_mask_filepath
                                         (Raster image_output_profile
                                            (dataset_write (nat h) (nat w) burned)) of
                                    None \<Rightarrow> (Inl OSError, fs)
                                  | Some fs1 \<Rightarrow>
                                      (case output_imagecopy_filepath of
                                         None \<Rightarrow> (Inr (Some True), fs1)
                                       | Some cp \<Rightarrow>
                                           (case write_file fs1 cp
                                                   (Raster image_profile image_band) of
                                              None \<Rightarrow> (Inl OSError, fs1)
                                            | Some fs2 \<Rightarrow> (Inr (Some True), fs2))))
                               else (Inr (Some False), fs)))))))"

section \<open>The arguments of \<open>prepare_traindatasets\<close>\<close>

record image_layer =
  wms_server_url :: string
  wms_version :: string
  wms_layernames :: "string list"
  wms_layerstyles :: "string list"
  image_pixels_ignore_border :: int

record args =
  labellocations_path :: string
  labeldata_path :: string
  label_names_to_burn :: "string list"
  image_layers :: "(string \<times> image_layer) list"
  default_image_layer :: string
  image_pixel_x_size :: real
  image_pixel_y_size :: real
  image_pixel_width :: int
  image_pixel_height :: int
  max_samples :: int
  burn_value :: nat
  output_filelist_csv :: string
  output_keep_nested_dirs :: bool
  force :: bool

text \<open>Lines 74 and 75.\<close>

definition image_srs_width :: "args \<Rightarrow> real" where
  "image_srs_width a = \<bar>of_int (image_pixel_width a) * image_pixel_x_size a\<bar>"

definition image_srs_height :: "args \<Rightarrow> real" where
  "image_srs_height a = \<bar>of_int (image_pixel_height a) * image_pixel_y_size a\<bar>"

section \<open>The geometry sampler and the tile loop\<close>

text \<open>
  Lines 187 to 193: the box of the tile of a label geometry. The rectangle
  \<open>sh_geom.box(xmin, ymin, xmax, ymax)\<close> is kept as its four bounds, which are its
  \<open>img_bbox.bounds\<close> too, since \<open>xmin \<le> xmax\<close> and \<open>ymin \<le> ymax\<close>.
\<close>

definition tile_bbox :: "real \<Rightarrow> real \<Rightarrow> real \<Rightarrow> real \<Rightarrow> geometry option \<Rightarrow> error + bbox" where
  "tile_bbox pixel_x_size pixel_y_size srs_width srs_height label_geom =
     (case label_geom of
        None \<Rightarrow> Inl AttributeError
      | Some g \<Rightarrow>
          (case bounds g of
             None \<Rightarrow> Inl IndexError
           | Some geom_bounds \<Rightarrow>
               (case py_mod (xmin geom_bounds) pixel_x_size of
                  Inl e \<Rightarrow> Inl e
                | Inr mx \<Rightarrow>
                    (case py_mod (ymin geom_bounds) pixel_y_size of
                       Inl e \<Rightarrow> Inl e
                     | Inr my \<Rightarrow>
                         (let x0 = xmin geom_bounds - mx;
                              y0 = ymin geom_bounds - my
                          in Inr \<lparr>xmin = x0, ymin = y0,
                                  xmax = x0 + srs_width, ymax = y0 + srs_height\<rparr>)))))"

text \<open>
  The state of the loop of lines 181 to 249: the tree below \<open>training_dir\<close>, the boxes
  of \<open>created_images_gdf\<close>, the dictionary \<open>wms_servers\<close> (a server is the URL and the
  version it was opened with) and, to speak about the calls the loop makes, the boxes
  it has sent to \<open>getmap_to_file\<close> and the boxes whose image went to \<open>_create_mask\<close>.
\<close>

record loop_state =
  tree :: node
  created_images :: "bbox list"
  wms_servers :: "(string \<times> string \<times> string) list"
  fetch_calls :: "bbox list"
  mask_calls :: "bbox list"

text \<open>Lines 204 to 208: the layer of a label.\<close>

definition label_image_layer :: "args \<Rightarrow> string list \<Rightarrow> row \<Rightarrow> error + string" where
  "label_image_layer a field_names label_tuple =
     (if ''image_layer'' \<in> set field_names then
        (case cell label_tuple ''image_layer'' of
           VNone \<Rightarrow> Inr (default_image_layer a)
         | VStr s \<Rightarrow> if s \<noteq> [] then Inr s else Inr (default_image_layer a)
         | VInt n \<Rightarrow> Inl (KeyError ''image_layer''))
      else Inr (default_image_layer a))"

text \<open>
  One pass of the loop body. The progress report of lines 242 to 249 prints only and is
  left out. The result \<open>Some e\<close> is the exception that leaves the loop.
\<close>

definition tile_step ::
  "ext \<Rightarrow> args \<Rightarrow> string \<Rightarrow> geometry option list \<Rightarrow> path \<Rightarrow> path \<Rightarrow> string list \<Rightarrow> row
     \<Rightarrow> loop_state \<Rightarrow> error option \<times> loop_state" where
  "tile_step x a img_srs labels_to_burn output_tmp_image_dir output_tmp_mask_dir field_names
       label_tuple st =
     (case tile_bbox (image_pixel_x_size a) (image_pixel_y_size a)
             (image_srs_width a) (image_srs_height a) (geometry label_tuple) of
        Inl e \<Rightarrow> (Some e, st)
      | Inr img_bbox \<Rightarrow>
          if list_ex (\<lambda>c. intersects c img_bbox) (created_images st) then (None, st)
          else
            (let st1 = st\<lparr>created_images := created_images st @ [img_bbox]\<rparr> in
             case label_image_layer a field_names label_tuple of
               Inl e \<Rightarrow> (Some e, st1)
             | Inr layer \<Rightarrow>
                 (case map_of (image_layers a) layer of
                    None \<Rightarrow> (Some (KeyError layer), st1)
                  | Some cfg \<Rightarrow>
                      if map_of (wms_servers st1) layer = None
                         \<and> \<not> wms_connect x (wms_server_url cfg) (wms_version cfg)
                      then (Some Fetch_error, st1)
                      else
                        (let st2 = (if map_of (wms_servers st1) layer = None
                                    then st1\<lparr>wms_servers := AList.update layer
                                           (wms_server_url cfg, wms_version cfg) (wms_servers st1)\<rparr>
                                    else st1);
                             wms = (case map_of (wms_servers st2) layer of
                                      None \<Rightarrow> (wms_server_url cfg, wms_version cfg)
                                    | Some s \<Rightarrow> s);
                             st3 = st2\<lparr>fetch_calls := fetch_calls st2 @ [img_bbox]\<rparr>
                         in case ows_util_getmap_to_file x wms (wms_layernames cfg)
                                   (wms_layerstyles cfg) output_tmp_image_dir img_srs img_bbox
                                   (image_pixel_width a, image_pixel_height a)
                                   (image_pixels_ignore_border cfg) (tree st3) of
                              (Inl e, fs) \<Rightarrow> (Some e, st3\<lparr>tree := fs\<rparr>)
                            | (Inr None, fs) \<Rightarrow> (None, st3\<lparr>tree := fs\<rparr>)
                            | (Inr (Some image_filepath), fs) \<Rightarrow>
                                (let st4 = st3\<lparr>tree := fs,
                                                mask_calls := mask_calls st3 @ [img_bbox]\<rparr>
                                 in case create_mask x labels_to_burn image_filepath
                                           (output_tmp_mask_dir @ [last image_filepath]) None
                                           (burn_value a) 0 (force a) fs of
                                      (Inl e, fs') \<Rightarrow> (Some e, st4\<lparr>tree := fs'\<rparr>)
                                    | (Inr r, fs') \<Rightarrow> (None, st4\<lparr>tree := fs'\<rparr>))))))"

fun tile_loop ::
  "ext \<Rightarrow> args \<Rightarrow> string \<Rightarrow> geometry option list \<Rightarrow> path \<Rightarrow> path \<Rightarrow> string list \<Rightarrow> row list
     \<Rightarrow> loop_state \<Rightarrow> error option \<times> loop_state" where
  "tile_loop x a img_srs burn imgdir maskdir field_names [] st = (None, st)"
| "tile_loop x a img_srs burn imgdir maskdir field_names (label_tuple # rest) st =
     (case tile_step x a img_srs burn imgdir maskdir field_names label_tuple st of
        (Some e, st') \<Rightarrow> (Some e, st')
      | (None, st') \<Rightarrow> tile_loop x a img_srs burn imgdir maskdir field_names rest st')"

text \<open>
  The body of the \<open>try\<close> of lines 168 to 249 for one \<open>traindata_type\<close>: the labels of
  the type, then the loop, which starts from no created image and no opened server.
\<close>

definition split_tiles ::
  "ext \<Rightarrow> args \<Rightarrow> string \<Rightarrow> gdf \<Rightarrow> geometry option list \<Rightarrow> path \<Rightarrow> string \<Rightarrow> node
     \<Rightarrow> error option \<times> loop_state" where
  "split_tiles x a img_srs labellocations_gdf labels_to_burn output_tmp_basedir traindata_type fs =
     (let st0 = \<lparr>tree = fs, created_images = [], wms_servers = [],
                 fetch_calls = [], mask_calls = []\<rparr>
      in case select_eq labellocations_gdf ''traindata_type'' (VStr traindata_type) of
           Inl e \<Rightarrow> (Some e, st0)
         | Inr labels_to_use_for_bounds_gdf \<Rightarrow>
             tile_loop x a img_srs labels_to_burn
               (output_tmp_basedir @ [traindata_type, ''image''])
               (output_tmp_basedir @ [traindata_type, ''mask''])
               (columns labels_to_use_for_bounds_gdf)
               (rows labels_to_use_for_bounds_gdf) st0)"

text \<open>Lines 164 to 166: \<open>os.makedirs\<close> for each directory that does not exist.\<close>

fun ensure_dirs :: "path list \<Rightarrow> node \<Rightarrow> node option" where
  "ensure_dirs [] fs = Some fs"
| "ensure_dirs (d # ds) fs =
     (if d \<noteq> [] \<and> \<not> os_path_exists fs d
      then (case os_makedirs fs d of None \<Rightarrow> None | Some fs' \<Rightarrow> ensure_dirs ds fs')
      else ensure_dirs ds fs)"

text \<open>
  One pass of the loop of line 156: the directories, then the \<open>try\<close> with its
  \<open>except\<close> of lines 250 to 252, which raises \<open>Exception("Error preparing dataset!")\<close>
  from the exception it caught.
\<close>

definition process_split ::
  "ext \<Rightarrow> args \<Rightarrow> string \<Rightarrow> gdf \<Rightarrow> geometry option list \<Rightarrow> path \<Rightarrow> string \<Rightarrow> node
     \<Rightarrow> error option \<times> node" where
  "process_split x a img_srs labellocations_gdf labels_to_burn output_tmp_basedir traindata_type fs =
     (let output_tmp_dir = output_tmp_basedir @ [traindata_type];
          output_tmp_image_dir = output_tmp_dir @ [''image''];
          output_tmp_mask_dir = output_tmp_dir @ [''mask'']
      in case ensure_dirs [output_tmp_dir, output_tmp_mask_dir, output_tmp_image_dir] fs of
           None \<Rightarrow> (Some OSError, fs)
         | Some fs1 \<Rightarrow>
             (case split_tiles x a img_srs labellocations_gdf labels_to_burn
                     output_tmp_basedir traindata_type fs1 of
                (Some ex, st) \<Rightarrow> (Some (Error_preparing_dataset ex), tree st)
              | (None, st) \<Rightarrow> (None, tree st)))"

fun process_splits ::
  "ext \<Rightarrow> args \<Rightarrow> string \<Rightarrow> gdf \<Rightarrow> geometry option list \<Rightarrow> path \<Rightarrow> string list \<Rightarrow> node
     \<Rightarrow> error option \<times> node" where
  "process_splits x a img_srs locs burn basedir [] fs = (None, fs)"
| "process_splits x a img_srs locs burn basedir (traindata_type # rest) fs =
     (case process_split x a img_srs locs burn basedir traindata_type fs of
        (Some e, fs') \<Rightarrow> (Some e, fs')
      | (None, fs') \<Rightarrow> process_splits x a img_srs locs burn basedir rest fs')"

section \<open>The legacy converter: \<open>convert_traindata_v1tov2\<close>\<close>

text \<open>Lines 309 to 316.\<close>

definition get_bbox_translated :: "real \<Rightarrow> real \<Rightarrow> real \<Rightarrow> real \<Rightarrow> geometry option \<Rightarrow> error + geometry" where
  "get_bbox_translated pixel_x_size pixel_y_size srs_width srs_height geom =
     (case geom of
        None \<Rightarrow> Inl AttributeError
      | Some g \<Rightarrow>
          (case bounds g of
             None \<Rightarrow> Inl IndexError
           | Some geom_bounds \<Rightarrow>
               (case py_mod (xmin geom_bounds) pixel_x_size of
                  Inl e \<Rightarrow> Inl e
                | Inr mx \<Rightarrow>
                    (case py_mod (ymin geom_bounds) pixel_y_size of
                       Inl e \<Rightarrow> Inl e
                     | Inr my \<Rightarrow>
                         (let x0 = xmin geom_bounds - mx - 10;
                              y0 = ymin geom_bounds - my - 10
                          in Inr (box x0 y0 (x0 + srs_width) (y0 + srs_height)))))))"

fun apply_bbox_translated :: "real \<Rightarrow> real \<Rightarrow> real \<Rightarrow> real \<Rightarrow> row list \<Rightarrow> error + row list" where
  "apply_bbox_translated px py w h [] = Inr []"
| "apply_bbox_translated px py w h (r # rs) =
     (case get_bbox_translated px py w h (geometry r) of
        Inl e \<Rightarrow> Inl e
      | Inr g \<Rightarrow>
          (case apply_bbox_translated px py w h rs of
             Inl e \<Rightarrow> Inl e
           | Inr rs' \<Rightarrow> Inr (r\<lparr>geometry := Some g\<rparr> # rs')))"

text \<open>Reading one legacy file: lines 280 to 283, 284 to 287 and 294 to 297.\<close>

definition read_legacy :: "(string \<times> content) list \<Rightarrow> string \<Rightarrow> string \<Rightarrow> error + gdf" where
  "read_legacy fls p traindata_type =
     (case geofile_util_read_file fls p of
        Inl e \<Rightarrow> Inl e
      | Inr g \<Rightarrow>
          (let g1 = set_column g ''traindata_type'' (VStr traindata_type)
           in Inr (if ''image'' \<notin> set (columns g1) then set_column g1 ''image'' VNone else g1)))"

text \<open>Lines 269 to 273.\<close>

definition legacy_subject :: "string \<Rightarrow> string" where
  "legacy_subject locations_path =
     (case split_on CHR ''_'' (snd (os_path_split locations_path)) of [] \<Rightarrow> [] | s # _ \<Rightarrow> s)"

definition legacy_label_path :: "string \<Rightarrow> string \<Rightarrow> string" where
  "legacy_label_path locations_path kind =
     os_path_join (fst (os_path_split locations_path))
       (legacy_subject locations_path @ ''_'' @ kind @ ''labels.shp'')"

definition convert_traindata_v1tov2 ::
  "string \<Rightarrow> string \<Rightarrow> real \<Rightarrow> real \<Rightarrow> real \<Rightarrow> real \<Rightarrow> (string \<times> content) list
     \<Rightarrow> (error + bool) \<times> (string \<times> content) list" where
  "convert_traindata_v1tov2 locations_path data_path pixel_x_size pixel_y_size
       srs_width srs_height fls =
     (let subject = legacy_subject locations_path;
          label_train_path = legacy_label_path locations_path ''train'';
          label_validation_path = legacy_label_path locations_path ''validation'';
          label_test_path = legacy_label_path locations_path ''test''
      in if map_of fls label_train_path = None \<or> map_of fls label_validation_path = None
         then (Inr False, fls)
         else
           (case read_legacy fls label_train_path ''train'' of
              Inl e \<Rightarrow> (Inl e, fls)
            | Inr label_train_gdf \<Rightarrow>
           (case read_legacy fls label_validation_path ''validation'' of
              Inl e \<Rightarrow> (Inl e, fls)
            | Inr label_validation_gdf \<Rightarrow>
           (case (if map_of fls label_test_path \<noteq> None
                  then (case read_legacy fls label_test_path ''test'' of
                          Inl e \<Rightarrow> Inl e
                        | Inr label_test_gdf \<Rightarrow>
                            Inr (concat_sorted
                                   (concat_sorted label_train_gdf label_validation_gdf)
                                   label_test_gdf))
                  else Inr (concat_sorted label_train_gdf label_validation_gdf)) of
              Inl e \<Rightarrow> (Inl e, fls)
            | Inr concatenated \<Rightarrow>
           (let label_gdf =
                  rename_column ''image'' ''image_layer''
                    (rename_column ''desc'' ''description''
                      (set_column concatenated ''label_name'' (VStr subject)))
            in
           (case select_eq label_gdf ''usebounds'' (VInt 1) of
              Inl e \<Rightarrow> (Inl e, fls)
            | Inr selected \<Rightarrow>
           (case drop_columns [''usebounds'', ''burninmask''] selected of
              Inl e \<Rightarrow> (Inl e, fls)
            | Inr labellocations_gdf \<Rightarrow>
           (case apply_bbox_translated pixel_x_size pixel_y_size srs_width srs_height
                   (rows labellocations_gdf) of
              Inl e \<Rightarrow> (Inl e, fls)
            | Inr translated \<Rightarrow>
           (let fls1 = geofile_util_to_file (labellocations_gdf\<lparr>rows := translated\<rparr>)
                         locations_path fls
            in
           (case select_eq label_gdf ''burninmask'' (VInt 1) of
              Inl e \<Rightarrow> (Inl e, fls1)
            | Inr burn \<Rightarrow>
           (case drop_columns [''usebounds'', ''burninmask'', ''traindata_type''] burn of
              Inl e \<Rightarrow> (Inl e, fls1)
            | Inr labeldata_gdf \<Rightarrow>
                (Inr True, geofile_util_to_file labeldata_gdf data_path fls1))))))))))))"

section \<open>The version resolver\<close>

text \<open>
  \<open>glob.glob(f"{training_dir}{os.sep}[0-9]*{os.sep}")\<close> and the same with
  \<open>train_[0-9]*\<close>: the directories in \<open>training_dir\<close> whose name starts as the pattern
  says. All the paths found start with \<open>training_dir\<close>, so a path is kept as the name of
  the directory, which is its \<open>os.path.basename\<close> and sorts as the path does.
\<close>

definition glob_dirs :: "(string \<Rightarrow> bool) \<Rightarrow> node \<Rightarrow> string list" where
  "glob_dirs matches fs =
     (case fs of
        File c \<Rightarrow> []
      | Dir es \<Rightarrow>
          [name. name \<leftarrow> remdups (map fst es), matches name,
                 (case map_of es name of Some (Dir d) \<Rightarrow> True | _ \<Rightarrow> False)])"

definition matches_version :: "string \<Rightarrow> bool" where
  "matches_version name = (case name of [] \<Rightarrow> False | c # _ \<Rightarrow> is_digit c)"

definition matches_legacy :: "string \<Rightarrow> bool" where
  "matches_legacy name =
     (startswith name ''train_'' \<and> matches_version (drop (length ''train_'') name))"

text \<open>Lines 91 to 93 and 95 to 97.\<close>

definition output_dirs :: "node \<Rightarrow> string list" where
  "output_dirs fs = filter (\<lambda>d. \<not> endswith d ''_BUSY'') (glob_dirs matches_version fs)"

definition output_legacy_train_dirs :: "node \<Rightarrow> string list" where
  "output_legacy_train_dirs fs =
     filter (\<lambda>d. \<not> endswith d ''_BUSY'') (glob_dirs matches_legacy fs)"

text \<open>Lines 115 to 124: the test for reusing the most recent directory.\<close>

definition inputs_unchanged :: "args \<Rightarrow> (string \<times> content) list \<Rightarrow> node \<Rightarrow> string \<Rightarrow> bool" where
  "inputs_unchanged a fls fs output_dir_mostrecent =
     (let labellocations_output_mostrecent_path =
            [output_dir_mostrecent, os_path_basename (labellocations_path a)];
          labeldata_output_mostrecent_path =
            [output_dir_mostrecent, os_path_basename (labeldata_path a)]
      in os_path_exists fs labellocations_output_mostrecent_path
         \<and> os_path_exists fs labeldata_output_mostrecent_path
         \<and> geofile_util_cmp fls (labellocations_path a) fs labellocations_output_mostrecent_path
         \<and> geofile_util_cmp fls (labeldata_path a) fs labeldata_output_mostrecent_path)"

datatype resolution = Reuse string int | New_version int

text \<open>Lines 89 to 129; a \<open>ValueError\<close> is the one of \<open>int\<close>.\<close>

definition resolve_version :: "args \<Rightarrow> (string \<times> content) list \<Rightarrow> node \<Rightarrow> error + resolution" where
  "resolve_version a fls fs =
     (case sorted_desc_first (output_dirs fs) of
        None \<Rightarrow>
          (case sorted_desc_first (output_legacy_train_dirs fs) of
             None \<Rightarrow> Inr (New_version 1)
           | Some output_legacy_dir_mostrecent \<Rightarrow>
               (case split_on CHR ''_'' output_legacy_dir_mostrecent of
                  w0 # w1 # ws \<Rightarrow>
                    (case py_int w1 of
                       None \<Rightarrow> Inl ValueError
                     | Some dataversion_mostrecent \<Rightarrow>
                         Inr (New_version (dataversion_mostrecent + 1)))
                | _ \<Rightarrow> Inl IndexError))
      | Some output_dir_mostrecent \<Rightarrow>
          (case py_int output_dir_mostrecent of
             None \<Rightarrow> Inl ValueError
           | Some dataversion_mostrecent \<Rightarrow>
               if inputs_unchanged a fls fs output_dir_mostrecent
               then Inr (Reuse output_dir_mostrecent dataversion_mostrecent)
               else Inr (New_version (dataversion_mostrecent + 1))))"

section \<open>The builder: \<open>prepare_traindatasets\<close>\<close>

text \<open>Lines 76 to 87.\<close>

definition ensure_inputs :: "args \<Rightarrow> (string \<times> content) list \<Rightarrow> error option \<times> (string \<times> content) list" where
  "ensure_inputs a fls =
     (if map_of fls (labellocations_path a) = None \<or> map_of fls (labeldata_path a) = None
      then
        (case convert_traindata_v1tov2 (labellocations_path a) (labeldata_path a)
                (image_pixel_x_size a) (image_pixel_y_size a)
                (image_srs_width a) (image_srs_height a) fls of
           (Inl e, fls') \<Rightarrow> (Some e, fls')
         | (Inr convert_ok, fls') \<Rightarrow>
             if \<not> convert_ok then (Some Stop_input_missing, fls') else (None, fls'))
      else (None, fls))"

text \<open>Lines 132 to 136.\<close>

definition output_tmp_basedir :: "int \<Rightarrow> string" where
  "output_tmp_basedir dataversion_new = format_02d dataversion_new @ ''_BUSY''"

definition prepare_output_basedir :: "string \<Rightarrow> node \<Rightarrow> error + node" where
  "prepare_output_basedir tmp fs =
     (case (if os_path_exists fs [tmp] then shutil_rmtree fs [tmp] else Some fs) of
        None \<Rightarrow> Inl OSError
      | Some fs1 \<Rightarrow>
          if \<not> os_path_exists fs1 [tmp]
          then (case os_makedirs fs1 [tmp] of None \<Rightarrow> Inl OSError | Some fs2 \<Rightarrow> Inr fs2)
          else Inr fs1)"

text \<open>
  Lines 131 to 258: the build of the version \<open>dataversion_new\<close>. The result is the
  exception or the returned pair, with the tree as the build left it.
\<close>

definition build_version ::
  "ext \<Rightarrow> args \<Rightarrow> (string \<times> content) list \<Rightarrow> int \<Rightarrow> node \<Rightarrow> (error + string \<times> int) \<times> node" where
  "build_version x a fls dataversion_new fs =
     (let tmp = output_tmp_basedir dataversion_new in
      case prepare_output_basedir tmp fs of
        Inl e \<Rightarrow> (Inl e, fs)
      | Inr fs1 \<Rightarrow>
      (case geofile_util_copy fls (labellocations_path a) [tmp] fs1 of
        Inl e \<Rightarrow> (Inl e, fs1)
      | Inr fs2 \<Rightarrow>
      (case geofile_util_copy fls (labeldata_path a) [tmp] fs2 of
        Inl e \<Rightarrow> (Inl e, fs2)
      | Inr fs3 \<Rightarrow>
      (case geofile_util_read_file fls (labellocations_path a) of
        Inl e \<Rightarrow> (Inl e, fs3)
      | Inr labellocations_gdf \<Rightarrow>
      (case geofile_util_read_file fls (labeldata_path a) of
        Inl e \<Rightarrow> (Inl e, fs3)
      | Inr labeldata_gdf \<Rightarrow>
      (case map_of (crs labellocations_gdf) ''init'' of
        None \<Rightarrow> (Inl (KeyError ''init''), fs3)
      | Some img_srs \<Rightarrow>
      (case select_isin labeldata_gdf ''label_name'' (label_names_to_burn a) of
        Inl e \<Rightarrow> (Inl e, fs3)
      | Inr labels_to_burn_gdf \<Rightarrow>
      (case process_splits x a img_srs labellocations_gdf
              (map geometry (rows labels_to_burn_gdf)) [tmp]
              [''train'', ''validation'', ''test''] fs3 of
        (Some e, fs4) \<Rightarrow> (Inl e, fs4)
      | (None, fs4) \<Rightarrow>
          (let output_basedir = format_02d dataversion_new in
           case os_rename fs4 [tmp] [output_basedir] of
             None \<Rightarrow> (Inl OSError, fs4)
           | Some fs5 \<Rightarrow> (Inr (output_basedir, dataversion_new), fs5))))))))))"

definition prepare_traindatasets :: "ext \<Rightarrow> args \<Rightarrow> world \<Rightarrow> (error + string \<times> int) \<times> world" where
  "prepare_traindatasets x a w =
     (case ensure_inputs a (files w) of
        (Some e, fls) \<Rightarrow> (Inl e, w\<lparr>files := fls\<rparr>)
      | (None, fls) \<Rightarrow>
          (case resolve_version a fls (training w) of
             Inl e \<Rightarrow> (Inl e, w\<lparr>files := fls\<rparr>)
           | Inr (Reuse output_dir_mostrecent dataversion_mostrecent) \<Rightarrow>
               (Inr (output_dir_mostrecent, dataversion_mostrecent), w\<lparr>files := fls\<rparr>)
           | Inr (New_version dataversion_new) \<Rightarrow>
               (case build_version x a fls dataversion_new (training w) of
                  (r, fs) \<Rightarrow> (r, \<lparr>files = fls, training = fs\<rparr>))))"

section \<open>Notions used to state the properties\<close>

text \<open>The defaults of the signature of \<open>prepare_traindatasets\<close> (lines 45 to 53).\<close>

definition default_args :: args where
  "default_args =
     \<lparr>labellocations_path = [], labeldata_path = [], label_names_to_burn = [],
      image_layers = [], default_image_layer = [],
      image_pixel_x_size = 1 / 4, image_pixel_y_size = 1 / 4,
      image_pixel_width = 512, image_pixel_height = 512,
      max_samples = 5000, burn_value = 255,
      output_filelist_csv = [], output_keep_nested_dirs = False, force = False\<rparr>"

text \<open>
  Collaborators and inputs for concrete runs. \<open>ext_offline\<close> has no server that
  answers and labels that cover no pixel. \<open>ext_online\<close> serves for every box an image
  two pixels wide and one pixel high, names the file after the left edge of the box, and
  has labels that cover every pixel.
\<close>

definition ext_offline :: ext where
  "ext_offline =
     \<lparr>covers = (\<lambda>t g r c. False), wms_connect = (\<lambda>u v. False),
      wms_getmap = (\<lambda>wms layers styles srs bb sz border. None),
      image_filename = (\<lambda>bb sz. ''tile.jpg'')\<rparr>"

definition small_image :: content where
  "small_image = Raster [(''width'', PInt 2), (''height'', PInt 1)] [[7, 7]]"

definition ext_online :: ext where
  "ext_online =
     \<lparr>covers = (\<lambda>t g r c. True), wms_connect = (\<lambda>u v. True),
      wms_getmap = (\<lambda>wms layers styles srs bb sz border. Some small_image),
      image_filename = (\<lambda>bb sz. if xmin bb = 0 then ''tile_0.jpg'' else ''tile_1.jpg'')\<rparr>"

text \<open>
  An image three pixels wide and two pixels high, and collaborators for which the labels
  cover its right column, the pixels of column 2.
\<close>

definition wide_image :: content where
  "wide_image = Raster [(''width'', PInt 3), (''height'', PInt 2)] [[7, 7, 7], [7, 7, 7]]"

definition ext_right_column :: ext where
  "ext_right_column = ext_online\<lparr>covers := (\<lambda>t g r c. c = 2)\<rparr>"

text \<open>
  The mask as the specification describes it: on the grid of the image, of \<open>height\<close>
  rows and \<open>width\<close> columns, the burn value at every pixel that a label to burn covers
  and 0 elsewhere.
\<close>

definition spec_mask ::
  "ext \<Rightarrow> geometry option list \<Rightarrow> nat \<Rightarrow> affine \<Rightarrow> nat \<Rightarrow> nat \<Rightarrow> nat list list" where
  "spec_mask x shapes burn transform height width =
     map (\<lambda>r. map (\<lambda>c. if list_ex (\<lambda>g. covers x transform g r c) (valid_shapes shapes)
                          then burn else 0)
                   [0 ..< width])
         [0 ..< height]"

text \<open>
  Three train locations, the second inside the tile of the first and the third far from
  both, and one label to burn.
\<close>

definition example_locations :: gdf where
  "example_locations =
     \<lparr>crs = [(''init'', ''epsg:31370'')], columns = [''traindata_type''],
      rows = [\<lparr>geometry = Some (box 0 0 100 100), cells = [(''traindata_type'', VStr ''train'')]\<rparr>,
              \<lparr>geometry = Some (box 10 10 20 20), cells = [(''traindata_type'', VStr ''train'')]\<rparr>,
              \<lparr>geometry = Some (box 1000 0 1100 100),
               cells = [(''traindata_type'', VStr ''train'')]\<rparr>]\<rparr>"

text \<open>Two train locations with the same geometry.\<close>

definition twin_locations :: gdf where
  "twin_locations =
     \<lparr>crs = [(''init'', ''epsg:31370'')], columns = [''traindata_type''],
      rows = [\<lparr>geometry = Some (box 0 0 100 100), cells = [(''traindata_type'', VStr ''train'')]\<rparr>,
              \<lparr>geometry = Some (box 0 0 100 100), cells = [(''traindata_type'', VStr ''train'')]\<rparr>]\<rparr>"

definition example_labeldata :: gdf where
  "example_labeldata =
     \<lparr>crs = [(''init'', ''epsg:31370'')], columns = [''label_name''],
      rows = [\<lparr>geometry = Some (box 1 1 2 2), cells = [(''label_name'', VStr ''building'')]\<rparr>]\<rparr>"

definition no_locations :: gdf where
  "no_locations = \<lparr>crs = [(''init'', ''epsg:31370'')], columns = [''traindata_type''], rows = []\<rparr>"

definition example_args :: args where
  "example_args =
     default_args
       \<lparr>labellocations_path := ''labels/b_locations.gpkg'',
        labeldata_path := ''labels/b_data.gpkg'',
        label_names_to_burn := [''building''],
        image_layers := [(''ortho'', \<lparr>wms_server_url = ''https://wms'', wms_version = ''1.3.0'',
                                       wms_layernames = [''ortho''], wms_layerstyles = [''default''],
                                       image_pixels_ignore_border = 0\<rparr>)],
        default_image_layer := ''ortho''\<rparr>"

definition example_files :: "(string \<times> content) list" where
  "example_files =
     [(''labels/b_locations.gpkg'', Vector example_locations),
      (''labels/b_data.gpkg'', Vector example_labeldata)]"

definition quiet_files :: "(string \<times> content) list" where
  "quiet_files =
     [(''labels/b_locations.gpkg'', Vector no_locations),
      (''labels/b_data.gpkg'', Vector example_labeldata)]"

text \<open>
  Label data none of whose labels is to be burnt, and a server that answers but has no
  image.
\<close>

definition other_labeldata :: gdf where
  "other_labeldata =
     \<lparr>crs = [(''init'', ''epsg:31370'')], columns = [''label_name''],
      rows = [\<lparr>geometry = Some (box 1 1 2 2), cells = [(''label_name'', VStr ''road'')]\<rparr>]\<rparr>"

definition unlabeled_files :: "(string \<times> content) list" where
  "unlabeled_files =
     [(''labels/b_locations.gpkg'', Vector example_locations),
      (''labels/b_data.gpkg'', Vector other_labeldata)]"

definition ext_no_image :: ext where
  "ext_no_image = ext_online\<lparr>wms_getmap := (\<lambda>wms layers styles srs bb sz border. None)\<rparr>"

text \<open>
  Lines 131 to 153: what a build does before the loop over the splits. It makes the
  staging directory, copies the two input files into it, reads them and selects the
  labels to burn. The result is the exception, or the SRS, the label locations and the
  geometries to burn, with the tree as these steps left it.
\<close>

definition stage_inputs ::
  "args \<Rightarrow> (string \<times> content) list \<Rightarrow> string \<Rightarrow> node
     \<Rightarrow> (error + string \<times> gdf \<times> geometry option list) \<times> node" where
  "stage_inputs a fls tmp fs =
     (case prepare_output_basedir tmp fs of
        Inl e \<Rightarrow> (Inl e, fs)
      | Inr fs1 \<Rightarrow>
      (case geofile_util_copy fls (labellocations_path a) [tmp] fs1 of
        Inl e \<Rightarrow> (Inl e, fs1)
      | Inr fs2 \<Rightarrow>
      (case geofile_util_copy fls (labeldata_path a) [tmp] fs2 of
        Inl e \<Rightarrow> (Inl e, fs2)
      | Inr fs3 \<Rightarrow>
      (case geofile_util_read_file fls (labellocations_path a) of
        Inl e \<Rightarrow> (Inl e, fs3)
      | Inr labellocations_gdf \<Rightarrow>
      (case geofile_util_read_file fls (labeldata_path a) of
        Inl e \<Rightarrow> (Inl e, fs3)
      | Inr labeldata_gdf \<Rightarrow>
      (case map_of (crs labellocations_gdf) ''init'' of
        None \<Rightarrow> (Inl (KeyError ''init''), fs3)
      | Some img_srs \<Rightarrow>
      (case select_isin labeldata_gdf ''label_name'' (label_names_to_burn a) of
        Inl e \<Rightarrow> (Inl e, fs3)
      | Inr labels_to_burn_gdf \<Rightarrow>
          (Inr (img_srs, labellocations_gdf, map geometry (rows labels_to_burn_gdf)),
           fs3))))))))"

text \<open>A directory that does not carry the BUSY suffix keeps what it holds.\<close>

definition non_busy_unchanged :: "node \<Rightarrow> node \<Rightarrow> bool" where
  "non_busy_unchanged fs fs' =
     (\<forall>name. \<not> endswith name ''_BUSY'' \<longrightarrow> fs_lookup fs' [name] = fs_lookup fs [name])"

definition is_dir :: "node \<Rightarrow> path \<Rightarrow> bool" where
  "is_dir fs p = (case fs_lookup fs p of Some (Dir es) \<Rightarrow> True | _ \<Rightarrow> False)"

text \<open>
  The boxes of a list no box of which intersects a later one, by the test of the loop.
\<close>

fun pairwise_disjoint :: "bbox list \<Rightarrow> bool" where
  "pairwise_disjoint [] = True"
| "pairwise_disjoint (b # bs) = (list_all (\<lambda>c. \<not> intersects b c) bs \<and> pairwise_disjoint bs)"

text \<open>
  The non-overlapping label locations of a split: going through the boxes in order, a
  box is kept when it intersects none of the boxes kept before it.
\<close>

fun non_overlapping :: "bbox list \<Rightarrow> bbox list \<Rightarrow> bbox list" where
  "non_overlapping kept [] = kept"
| "non_overlapping kept (b # bs) =
     (if list_ex (\<lambda>c. intersects c b) kept then non_overlapping kept bs
      else non_overlapping (kept @ [b]) bs)"

definition candidate_boxes :: "args \<Rightarrow> row list \<Rightarrow> bbox list" where
  "candidate_boxes a rs =
     [b. r \<leftarrow> rs,
         Inr b \<leftarrow> [tile_bbox (image_pixel_x_size a) (image_pixel_y_size a)
                     (image_srs_width a) (image_srs_height a) (geometry r)]]"

text \<open>The fraction of the pixels of an array that are not zero.\<close>

definition fraction_labeled :: "nat list list \<Rightarrow> real" where
  "fraction_labeled burned =
     real (length (filter (\<lambda>v. v \<noteq> 0) (concat burned))) / real (length (concat burned))"


text \<open>
  A sequence of calls against one \<open>training_dir\<close>. Each call comes with its
  collaborators, its arguments and the label files as they are at that moment; the tree
  below \<open>training_dir\<close> goes from one call to the next. A call is a successful build
  when it returns and has changed the tree; \<open>built_versions\<close> lists the version numbers
  that the successful builds return, in the order of the calls.
\<close>

record call =
  c_ext :: ext
  c_args :: args
  c_files :: "(string \<times> content) list"

fun built_versions :: "node \<Rightarrow> call list \<Rightarrow> int list" where
  "built_versions fs [] = []"
| "built_versions fs (c # cs) =
     (case prepare_traindatasets (c_ext c) (c_args c)
             \<lparr>files = c_files c, training = fs\<rparr> of
        (Inl e, w') \<Rightarrow> built_versions (training w') cs
      | (Inr (d, v), w') \<Rightarrow>
          (if training w' \<noteq> fs then [v] else []) @ built_versions (training w') cs)"

fun tree_after :: "node \<Rightarrow> call list \<Rightarrow> node" where
  "tree_after fs [] = fs"
| "tree_after fs (c # cs) =
     tree_after
       (training (snd (prepare_traindatasets (c_ext c) (c_args c)
                         \<lparr>files = c_files c, training = fs\<rparr>))) cs"

text \<open>
  What the steps of a build may do to the tree. \<open>same_outside tmp\<close>: the entries of
  \<open>training_dir\<close> other than \<open>tmp\<close> are as they were. \<open>staged tmp\<close>: moreover the
  staging directory \<open>tmp\<close>, if anything changed, is a directory with entries, and the
  files directly in it are as they were.
\<close>

definition same_outside :: "string \<Rightarrow> node \<Rightarrow> node \<Rightarrow> bool" where
  "same_outside tmp fs fs' = (\<forall>name. name \<noteq> tmp \<longrightarrow> fs_lookup fs' [name] = fs_lookup fs [name])"

definition filled_dir :: "node \<Rightarrow> path \<Rightarrow> bool" where
  "filled_dir fs p = (case fs_lookup fs p of Some (Dir (e # es)) \<Rightarrow> True | _ \<Rightarrow> False)"

definition staged :: "string \<Rightarrow> node \<Rightarrow> node \<Rightarrow> bool" where
  "staged tmp fs fs' =
     (same_outside tmp fs fs'
      \<and> (fs' = fs \<or> filled_dir fs' [tmp])
      \<and> (\<forall>n c. fs_lookup fs [tmp, n] = Some (File c) \<longrightarrow> fs_lookup fs' [tmp, n] = Some (File c)))"


text \<open>The exceptions raised before a build starts.\<close>

definition early_error :: "error \<Rightarrow> bool" where
  "early_error e =
     (e = Stop_input_missing \<or> e = ValueError \<or> e = IndexError \<or> e = Read_error
      \<or> e = ZeroDivisionError \<or> e = AttributeError \<or> (\<exists>k. e = KeyError k))"

section \<open>Missing input files\<close>

text \<open>
  Claim C9. If one of the two input files (label locations, label data) does not exist
  and the legacy train file or the legacy validation file is absent, then the converter
  returns \<open>False\<close> without failing and without writing, and \<open>prepare_traindatasets\<close>
  raises before it has made a staging directory or touched any file: the world it
  leaves is the world it found.
\<close>

theorem missing_input_stops_before_staging:
  assumes "map_of (files w) (labellocations_path a) = None
           \<or> map_of (files w) (labeldata_path a) = None"
      and "map_of (files w) (legacy_label_path (labellocations_path a) ''train'') = None
           \<or> map_of (files w) (legacy_label_path (labellocations_path a) ''validation'') = None"
  shows "convert_traindata_v1tov2 (labellocations_path a) (labeldata_path a)
           (image_pixel_x_size a) (image_pixel_y_size a)
           (image_srs_width a) (image_srs_height a) (files w) = (Inr False, files w)
         \<and> prepare_traindatasets x a w = (Inl Stop_input_missing, w)"
proof -
  have conv: "convert_traindata_v1tov2 (labellocations_path a) (labeldata_path a)
           (image_pixel_x_size a) (image_pixel_y_size a)
           (image_srs_width a) (image_srs_height a) (files w) = (Inr False, files w)"
    using assms(2) by (simp add: convert_traindata_v1tov2_def Let_def)
  have "ensure_inputs a (files w) = (Some Stop_input_missing, files w)"
    using assms(1) conv by (simp add: ensure_inputs_def)
  then show ?thesis using conv by (simp add: prepare_traindatasets_def)
qed

theorem missing_input_stops_before_staging_witness:
  "map_of [] (labellocations_path default_args) = (None :: content option)
   \<and> prepare_traindatasets ext_offline default_args
         \<lparr>files = [], training = Dir [(''01'', Dir [])]\<rparr>
       = (Inl Stop_input_missing, \<lparr>files = [], training = Dir [(''01'', Dir [])]\<rparr>)"
  using missing_input_stops_before_staging
    [of "\<lparr>files = [], training = Dir [(''01'', Dir [])]\<rparr>" default_args ext_offline]
  by simp

section \<open>The box of a tile\<close>

lemma float_mod_multiple: "y \<noteq> 0 \<Longrightarrow> x - float_mod x y = of_int \<lfloor>x / y\<rfloor> * y"
  by (simp add: float_mod_def)

text \<open>
  Claim C8, as the spec states it: \<open>xmax = xmin + pixel_width * pixel_x_size\<close>. With the
  pixel size \<open>-0.25\<close> and the width 512 the claimed box of a geometry at the origin ends at
  \<open>-128\<close>; the program takes the absolute value of the product (line 74) and its box
  ends at \<open>128\<close>.
\<close>

theorem tile_bbox_negative_pixel_size_counterexample:
  "tile_bbox (- 1 / 4) (1 / 4)
     (image_srs_width (default_args\<lparr>image_pixel_x_size := - 1 / 4\<rparr>))
     (image_srs_height (default_args\<lparr>image_pixel_x_size := - 1 / 4\<rparr>))
     (Some (box 0 0 100 100))
   = Inr \<lparr>xmin = 0, ymin = 0, xmax = 128, ymax = 128\<rparr>
   \<and> tile_bbox (- 1 / 4) (1 / 4)
     (image_srs_width (default_args\<lparr>image_pixel_x_size := - 1 / 4\<rparr>))
     (image_srs_height (default_args\<lparr>image_pixel_x_size := - 1 / 4\<rparr>))
     (Some (box 0 0 100 100))
   \<noteq> Inr \<lparr>xmin = 0 - float_mod 0 (- 1 / 4), ymin = 0 - float_mod 0 (1 / 4),
           xmax = 0 - float_mod 0 (- 1 / 4) + 512 * (- 1 / 4),
           ymax = 0 - float_mod 0 (1 / 4) + 512 * (1 / 4)\<rparr>"
  by (simp add: tile_bbox_def py_mod_def float_mod_def box_def default_args_def
      image_srs_width_def image_srs_height_def)

text \<open>
  Claim C8, amended. For every label geometry with bounds and for pixel sizes other than
  zero, the box of the tile is \<open>xmin = geom.xmin - (geom.xmin mod pixel_x_size)\<close>,
  \<open>ymin = geom.ymin - (geom.ymin mod pixel_y_size)\<close>,
  \<open>xmax = xmin + |pixel_width * pixel_x_size|\<close>,
  \<open>ymax = ymin + |pixel_height * pixel_y_size|\<close>. Its lower left corner is on the pixel
  grid (a whole multiple of the pixel size in each direction), and the box depends on the
  lower left corner of the geometry's bounds only: a geometry that reaches beyond one tile
  gives this one tile.
\<close>

theorem tile_bbox_formula:
  assumes "bounds g = Some gb" and "image_pixel_x_size a \<noteq> 0" and "image_pixel_y_size a \<noteq> 0"
  shows "\<exists>b. tile_bbox (image_pixel_x_size a) (image_pixel_y_size a)
                (image_srs_width a) (image_srs_height a) (Some g) = Inr b
           \<and> xmin b = xmin gb - float_mod (xmin gb) (image_pixel_x_size a)
           \<and> ymin b = ymin gb - float_mod (ymin gb) (image_pixel_y_size a)
           \<and> xmax b = xmin b + \<bar>of_int (image_pixel_width a) * image_pixel_x_size a\<bar>
           \<and> ymax b = ymin b + \<bar>of_int (image_pixel_height a) * image_pixel_y_size a\<bar>
           \<and> xmin b = of_int \<lfloor>xmin gb / image_pixel_x_size a\<rfloor> * image_pixel_x_size a
           \<and> ymin b = of_int \<lfloor>ymin gb / image_pixel_y_size a\<rfloor> * image_pixel_y_size a
           \<and> (\<forall>g' gb'. bounds g' = Some gb' \<and> xmin gb' = xmin gb \<and> ymin gb' = ymin gb \<longrightarrow>
                tile_bbox (image_pixel_x_size a) (image_pixel_y_size a)
                  (image_srs_width a) (image_srs_height a) (Some g') = Inr b)"
  using assms
  by (simp add: tile_bbox_def py_mod_def Let_def image_srs_width_def image_srs_height_def
      float_mod_multiple)

theorem tile_bbox_formula_witness:
  "bounds (box 3 5 1000 1000) = Some \<lparr>xmin = 3, ymin = 5, xmax = 1000, ymax = 1000\<rparr>
   \<and> image_pixel_x_size default_args \<noteq> 0 \<and> image_pixel_y_size default_args \<noteq> 0
   \<and> tile_bbox (image_pixel_x_size default_args) (image_pixel_y_size default_args)
        (image_srs_width default_args) (image_srs_height default_args)
        (Some (box 3 5 1000 1000))
      = Inr \<lparr>xmin = 3, ymin = 5, xmax = 131, ymax = 133\<rparr>
   \<and> tile_bbox (image_pixel_x_size default_args) (image_pixel_y_size default_args)
        (image_srs_width default_args) (image_srs_height default_args)
        (Some (box 3 5 4 6))
      = Inr \<lparr>xmin = 3, ymin = 5, xmax = 131, ymax = 133\<rparr>"
proof -
  have b: "bounds (box 3 5 1000 1000) = Some \<lparr>xmin = 3, ymin = 5, xmax = 1000, ymax = 1000\<rparr>"
    by (simp add: box_def)
  have b': "bounds (box 3 5 4 6) = Some \<lparr>xmin = 3, ymin = 5, xmax = 4, ymax = 6\<rparr>"
    by (simp add: box_def)
  have px: "image_pixel_x_size default_args \<noteq> 0" and py: "image_pixel_y_size default_args \<noteq> 0"
    by (simp_all add: default_args_def)
  from tile_bbox_formula [OF b px py] obtain t where
    t: "tile_bbox (image_pixel_x_size default_args) (image_pixel_y_size default_args)
          (image_srs_width default_args) (image_srs_height default_args)
          (Some (box 3 5 1000 1000)) = Inr t"
    and "xmin t = of_int \<lfloor>3 / image_pixel_x_size default_args\<rfloor> * image_pixel_x_size default_args"
    and "ymin t = of_int \<lfloor>5 / image_pixel_y_size default_args\<rfloor> * image_pixel_y_size default_args"
    and "xmax t = xmin t + \<bar>of_int (image_pixel_width default_args) * image_pixel_x_size default_args\<bar>"
    and "ymax t = ymin t + \<bar>of_int (image_pixel_height default_args) * image_pixel_y_size default_args\<bar>"
    and other: "\<forall>g' gb'. bounds g' = Some gb' \<and> xmin gb' = 3 \<and> ymin gb' = 5 \<longrightarrow>
                tile_bbox (image_pixel_x_size default_args) (image_pixel_y_size default_args)
                  (image_srs_width default_args) (image_srs_height default_args) (Some g') = Inr t"
    by auto
  then have v: "t = \<lparr>xmin = 3, ymin = 5, xmax = 131, ymax = 133\<rparr>"
    by (simp add: default_args_def)
  from other b' have "tile_bbox (image_pixel_x_size default_args) (image_pixel_y_size default_args)
        (image_srs_width default_args) (image_srs_height default_args) (Some (box 3 5 4 6)) = Inr t"
    by simp
  with t v b px py show ?thesis by simp
qed

section \<open>Reading back what was written\<close>

lemma fs_set_lookup_same:
  "fs_set fs p (Some m) = Some fs' \<Longrightarrow> fs_lookup fs' p = Some m"
proof (induction fs p "Some m" arbitrary: fs' rule: fs_set.induct)
  case (3 es p)
  then show ?case by (auto simp: update_conv')
next
  case (4 es p q ps)
  then show ?case by (auto simp: update_conv' split: option.splits)
qed simp_all

lemma fs_set_lookup_other:
  assumes "fs_set fs q new = Some fs'" and "fs_lookup fs p = Some (File d)" and "p \<noteq> q"
    and "\<And>es. fs_lookup fs q \<noteq> Some (Dir es)"
  shows "fs_lookup fs' p = Some (File d)"
  using assms
proof (induction fs q new arbitrary: fs' p rule: fs_set.induct)
  case (3 es q0 new)
  show ?case
  proof (cases p)
    case Nil
    with 3 show ?thesis by simp
  next
    case (Cons p0 ps)
    show ?thesis
    proof (cases "p0 = q0")
      case True
      with 3 Cons obtain n where n: "map_of es q0 = Some n" "fs_lookup n ps = Some (File d)"
        by (auto split: option.splits)
      from True Cons 3(3) have "ps \<noteq> []" by simp
      with n obtain es' where "n = Dir es'" by (cases n; cases ps) auto
      with n 3(4) [of es'] show ?thesis by simp
    next
      case False
      with 3 Cons show ?thesis
        by (auto simp: update_conv' delete_conv' split: option.splits)
    qed
  qed
next
  case (4 es q0 q1 qs new)
  from 4(2) obtain n n' where n: "map_of es q0 = Some n" "fs_set n (q1 # qs) new = Some n'"
    and fs': "fs' = Dir (AList.update q0 n' es)"
    by (auto split: option.splits)
  show ?case
  proof (cases p)
    case Nil
    with 4 show ?thesis by simp
  next
    case (Cons p0 ps)
    show ?thesis
    proof (cases "p0 = q0")
      case True
      with 4(3) Cons n have l: "fs_lookup n ps = Some (File d)" by simp
      from True Cons 4(4) have ne: "ps \<noteq> q1 # qs" by simp
      from 4(5) n have nd: "\<And>es. fs_lookup n (q1 # qs) \<noteq> Some (Dir es)" by simp
      from 4(1) [OF n(1) n(2) l ne nd] True Cons fs' show ?thesis by (simp add: update_conv')
    next
      case False
      with 4(3) Cons fs' show ?thesis by (simp add: update_conv')
    qed
  qed
qed simp_all

lemma write_file_read:
  "write_file fs p c = Some fs' \<Longrightarrow> read_content fs' p = Some c"
  by (auto simp: write_file_def read_content_def dest: fs_set_lookup_same split: option.splits node.splits)

lemma write_file_read_other:
  assumes "write_file fs q c = Some fs'" and "read_content fs p = Some d" and "p \<noteq> q"
  shows "read_content fs' p = Some d"
proof -
  from assms(2) have l: "fs_lookup fs p = Some (File d)"
    by (auto simp: read_content_def split: option.splits node.splits)
  from assms(1) have s: "fs_set fs q (Some (File c)) = Some fs'"
    and nd: "\<And>es. fs_lookup fs q \<noteq> Some (Dir es)"
    by (auto simp: write_file_def split: option.splits node.splits)
  from fs_set_lookup_other [OF s l assms(3) nd] show ?thesis by (simp add: read_content_def)
qed


section \<open>The mask rasterizer\<close>

text \<open>The array of the rasterizer is a rectangle with at least one pixel.\<close>

lemma rasterize_shape:
  assumes "rasterize x shapes fill v t (w, h) = Inr burned"
  shows "0 < w \<and> 0 < h \<and> length burned = nat w \<and> (\<forall>r \<in> set burned. length r = nat h)"
  using assms by (auto simp: rasterize_def split: if_splits)

lemma length_concat_rect:
  "\<forall>r \<in> set rs. length r = n \<Longrightarrow> length (concat rs) = length rs * n"
  by (induction rs) auto

lemma nb_pixels_rect:
  assumes "\<forall>r \<in> set burned. length r = n" and "burned \<noteq> []"
  shows "nb_pixels burned = length (concat burned)"
  using assms length_concat_rect [of burned n] by (cases burned) (auto simp: nb_pixels_def)

lemma count_nonzero: "length (filter (\<lambda>v. v \<noteq> 0) xs) + length (filter (\<lambda>v. v = (0::nat)) xs) = length xs"
  by (induction xs) auto

lemma rasterize_fraction:
  assumes "rasterize x shapes fill v t (w, h) = Inr burned"
  shows "real_of_int (nb_pixels_data burned) / real (nb_pixels burned) = fraction_labeled burned"
proof -
  from rasterize_shape [OF assms] have r: "\<forall>r \<in> set burned. length r = nat h" "burned \<noteq> []"
    by auto
  have nb: "nb_pixels burned = length (concat burned)" by (rule nb_pixels_rect [OF r])
  have "nb_pixels_data burned = int (length (filter (\<lambda>v. v \<noteq> 0) (concat burned)))"
    using count_nonzero [of "concat burned"] by (simp add: nb_pixels_data_def nb)
  then show ?thesis by (simp add: fraction_labeled_def nb)
qed

lemma mask_profile_other_key:
  assumes "k \<notin> {''nodata'', ''compress'', ''count'', ''dtype'', ''sharing'', ''tiled'',
                ''interleave'', ''photometric''}"
  shows "map_of (mask_profile prof e) k = map_of prof k"
  unfolding mask_profile_def
  apply (simp only: Let_def)
  apply (simp only: if_distrib [of "\<lambda>al. map_of al k"])
  using assms apply (simp add: update_conv' delete_conv')
  done

lemma mask_profile_keeps_grid:
  "map_of (mask_profile prof e) ''width'' = map_of prof ''width''"
  "map_of (mask_profile prof e) ''height'' = map_of prof ''height''"
  "map_of (mask_profile prof e) ''transform'' = map_of prof ''transform''"
  "map_of (mask_profile prof e) ''crs'' = map_of prof ''crs''"
  by (simp_all add: mask_profile_other_key)

lemma mask_profile_band:
  "map_of (mask_profile prof e) ''dtype'' = Some (PStr ''uint8'')"
  "map_of (mask_profile prof e) ''count'' = Some (PInt 1)"
  "map_of (mask_profile prof e) ''nodata'' = Some (PInt 0)"
  unfolding mask_profile_def
    apply (simp_all only: Let_def)
    apply (simp_all only: if_distrib [of "\<lambda>al. map_of al k" for k])
    apply (simp_all add: update_conv' delete_conv')
  done



text \<open>
  Claim C7. In \<open>_create_mask\<close>, once the function is past its first test (\<open>force\<close> is
  set or the mask does not exist yet) and has rasterized the labels on the image it
  read: when the fraction of the pixels that are not zero is below
  \<open>minimum_pct_labeled\<close>, no file is written and the result is \<open>False\<close>; when the
  fraction is greater than or equal to \<open>minimum_pct_labeled\<close> and the writes go through,
  the mask is written at the output path, the image is copied to the companion path
  when one is given, and the result is \<open>True\<close>.
\<close>

theorem create_mask_minimum_fraction_gate:
  assumes reach: "frc \<or> \<not> os_path_exists fs out"
    and img: "read_content fs img_path = Some (Raster prof band)"
    and w: "profile_int (mask_profile prof (path_ext_lower out)) ''width'' = Inr w"
    and h: "profile_int (mask_profile prof (path_ext_lower out)) ''height'' = Inr h"
    and ras: "rasterize x shapes 0 burn (profile_transform prof) (w, h) = Inr burned"
  shows "(fraction_labeled burned < minimum_pct_labeled \<longrightarrow>
            create_mask x shapes img_path out copy burn minimum_pct_labeled frc fs
              = (Inr (Some False), fs))
       \<and> (minimum_pct_labeled \<le> fraction_labeled burned
            \<and> write_file fs out (Raster (mask_profile prof (path_ext_lower out)) (dataset_write (nat h) (nat w) burned)) = Some fs1
            \<and> (\<forall>cp. copy = Some cp \<longrightarrow> write_file fs1 cp (Raster prof band) \<noteq> None) \<longrightarrow>
            (\<exists>fs'. create_mask x shapes img_path out copy burn minimum_pct_labeled frc fs
                     = (Inr (Some True), fs')
                 \<and> (copy = None \<longrightarrow>
                      read_content fs' out
                        = Some (Raster (mask_profile prof (path_ext_lower out)) (dataset_write (nat h) (nat w) burned)))
                 \<and> (\<forall>cp. copy = Some cp \<longrightarrow>
                      read_content fs' cp = Some (Raster prof band)
                      \<and> (cp \<noteq> out \<longrightarrow> read_content fs' out
                            = Some (Raster (mask_profile prof (path_ext_lower out)) (dataset_write (nat h) (nat w) burned))))))"
proof -
  note frac = rasterize_fraction [OF ras]
  have low: "fraction_labeled burned < minimum_pct_labeled \<Longrightarrow>
      create_mask x shapes img_path out copy burn minimum_pct_labeled frc fs = (Inr (Some False), fs)"
    using reach img w h ras frac by (auto simp: create_mask_def Let_def)
  have high: "\<exists>fs'. create_mask x shapes img_path out copy burn minimum_pct_labeled frc fs
                     = (Inr (Some True), fs')
                 \<and> (copy = None \<longrightarrow>
                      read_content fs' out
                        = Some (Raster (mask_profile prof (path_ext_lower out)) (dataset_write (nat h) (nat w) burned)))
                 \<and> (\<forall>cp. copy = Some cp \<longrightarrow>
                      read_content fs' cp = Some (Raster prof band)
                      \<and> (cp \<noteq> out \<longrightarrow> read_content fs' out
                            = Some (Raster (mask_profile prof (path_ext_lower out)) (dataset_write (nat h) (nat w) burned))))"
    if ge: "minimum_pct_labeled \<le> fraction_labeled burned"
      and wr1: "write_file fs out (Raster (mask_profile prof (path_ext_lower out)) (dataset_write (nat h) (nat w) burned)) = Some fs1"
      and wr2: "\<forall>cp. copy = Some cp \<longrightarrow> write_file fs1 cp (Raster prof band) \<noteq> None"
  proof (cases copy)
    case None
    then have "create_mask x shapes img_path out copy burn minimum_pct_labeled frc fs
                 = (Inr (Some True), fs1)"
      using reach img w h ras frac ge wr1 by (auto simp: create_mask_def Let_def)
    with None write_file_read [OF wr1] show ?thesis by simp
  next
    case (Some cp)
    with wr2 obtain fs2 where fs2: "write_file fs1 cp (Raster prof band) = Some fs2" by auto
    with Some have "create_mask x shapes img_path out copy burn minimum_pct_labeled frc fs
                 = (Inr (Some True), fs2)"
      using reach img w h ras frac ge wr1 by (auto simp: create_mask_def Let_def)
    moreover have "read_content fs2 cp = Some (Raster prof band)" by (rule write_file_read [OF fs2])
    moreover have "cp \<noteq> out \<Longrightarrow> read_content fs2 out
                            = Some (Raster (mask_profile prof (path_ext_lower out)) (dataset_write (nat h) (nat w) burned))"
      using write_file_read_other [OF fs2 write_file_read [OF wr1]] by auto
    ultimately show ?thesis using Some by simp
  qed
  from low high show ?thesis by blast
qed

theorem create_mask_minimum_fraction_gate_witness:
  "create_mask ext_offline [Some (box 0 0 1 1)] [''img.jpg''] [''mask.jpg''] None 255 (1 / 2) False
      (Dir [(''img.jpg'', File small_image)])
     = (Inr (Some False), Dir [(''img.jpg'', File small_image)])
   \<and> (\<exists>fs'. create_mask ext_online [Some (box 0 0 1 1)] [''img.jpg''] [''mask.jpg''] None 255 (1 / 2)
              False (Dir [(''img.jpg'', File small_image)]) = (Inr (Some True), fs')
            \<and> (\<exists>prof burned. read_content fs' [''mask.jpg''] = Some (Raster prof burned)))"
proof -
  let ?fs = "Dir [(''img.jpg'', File small_image)]"
  let ?prof = "[(''width'', PInt 2), (''height'', PInt 1)]"
  let ?mprof = "mask_profile ?prof (path_ext_lower [''mask.jpg''])"
  have reach: "False \<or> \<not> os_path_exists ?fs [''mask.jpg'']"
    by (simp add: os_path_exists_def)
  have img: "read_content ?fs [''img.jpg''] = Some (Raster ?prof [[7, 7]])"
    by (simp add: read_content_def small_image_def)
  have w: "profile_int ?mprof ''width'' = Inr 2"
    by (simp add: profile_int_def mask_profile_keeps_grid)
  have h: "profile_int ?mprof ''height'' = Inr 1"
    by (simp add: profile_int_def mask_profile_keeps_grid)
  have off: "rasterize ext_offline [Some (box 0 0 1 1)] 0 255 (profile_transform ?prof) (2, 1)
               = Inr [[0], [0]]"
    by code_simp
  have on: "rasterize ext_online [Some (box 0 0 1 1)] 0 255 (profile_transform ?prof) (2, 1)
               = Inr [[255], [255]]"
    by code_simp
  have dw: "dataset_write (Suc 0) 2 [[255], [255]] = [[255, 255]]"
    by code_simp
  have wr: "write_file ?fs [''mask.jpg''] (Raster ?mprof [[255, 255]])
              = Some (Dir [(''img.jpg'', File small_image),
                           (''mask.jpg'', File (Raster ?mprof [[255, 255]]))])"
    by (simp add: write_file_def)
  have f0: "fraction_labeled [[0], [0]] < 1 / 2" and f1: "1 / 2 \<le> fraction_labeled [[255], [255]]"
    by (simp_all add: fraction_labeled_def)
  from create_mask_minimum_fraction_gate [OF reach img w h off, where minimum_pct_labeled = "1 / 2"
      and copy = None] f0
  have low: "create_mask ext_offline [Some (box 0 0 1 1)] [''img.jpg''] [''mask.jpg''] None 255 (1 / 2)
               False ?fs = (Inr (Some False), ?fs)"
    by simp
  from create_mask_minimum_fraction_gate [OF reach img w h on, where minimum_pct_labeled = "1 / 2"
      and copy = None
      and ?fs1.0 = "Dir [(''img.jpg'', File small_image),
                       (''mask.jpg'', File (Raster ?mprof [[255, 255]]))]"]
  have "\<exists>fs'. create_mask ext_online [Some (box 0 0 1 1)] [''img.jpg''] [''mask.jpg''] None 255
                (1 / 2) False ?fs = (Inr (Some True), fs')
            \<and> read_content fs' [''mask.jpg''] = Some (Raster ?mprof [[255, 255]])"
    using f1 wr by (simp add: dw)
  then have high: "\<exists>fs'. create_mask ext_online [Some (box 0 0 1 1)] [''img.jpg''] [''mask.jpg''] None 255
                (1 / 2) False ?fs = (Inr (Some True), fs')
            \<and> (\<exists>prof burned. read_content fs' [''mask.jpg''] = Some (Raster prof burned))"
    by blast
  from low high show ?thesis by blast
qed

text \<open>
  Claim C6. The mask takes its width, height, transform and CRS from the profile of the
  image (\<open>mask_profile_keeps_grid\<close>) and is one band of \<open>uint8\<close> with no-data 0
  (\<open>mask_profile_band\<close>), but line 457 gives \<open>(width, height)\<close> as the \<open>out_shape\<close>
  of the rasterizer, which reads it as rows and columns. For an image three pixels wide
  and two pixels high whose right column, the pixels of column 2, is covered by a label,
  the array that is burnt has three rows and two columns: no pixel of it is in column 2,
  it holds 0 everywhere, and so does the mask that is written, while the mask of the
  specification holds the burn value in its right column.
\<close>

theorem create_mask_transposes_non_square:
  "create_mask ext_right_column [Some (box 0 0 1 1)] [''img.jpg''] [''mask.jpg''] None 255 0 False
      (Dir [(''img.jpg'', File wide_image)])
   = (Inr (Some True),
      Dir [(''img.jpg'', File wide_image),
           (''mask.jpg'',
            File (Raster [(''width'', PInt 3), (''height'', PInt 2), (''dtype'', PStr ''uint8''),
                          (''count'', PInt 1), (''nodata'', PInt 0), (''sharing'', PNone)]
                         [[0, 0, 0], [0, 0, 0]]))])
   \<and> spec_mask ext_right_column [Some (box 0 0 1 1)] 255
         (profile_transform [(''width'', PInt 3), (''height'', PInt 2)]) 2 3
       = [[0, 0, 255], [0, 0, 255]]"
  by code_simp


section \<open>The next version\<close>

text \<open>
  Claim C4. With the version directories \<open>99\<close> and \<open>100\<close> in \<open>training_dir\<close> and changed
  input files, the most recent directory is taken to be \<open>99\<close>, the first of the names
  sorted in descending order as strings, and the next version is 100, not 1 + the
  maximum 100 of the numeric names; the build then fails when it renames its staging
  directory to the name \<open>100\<close>, which exists.
\<close>

theorem resolve_version_after_100:
  "resolve_version example_args quiet_files
      (Dir [(''99'', Dir [(''train'', Dir [])]), (''100'', Dir [(''train'', Dir [])])])
     = Inr (New_version 100)
   \<and> fst (prepare_traindatasets ext_offline example_args
           \<lparr>files = quiet_files,
            training = Dir [(''99'', Dir [(''train'', Dir [])]),
                            (''100'', Dir [(''train'', Dir [])])]\<rparr>)
     = Inl OSError"
  by code_simp

section \<open>The tiles of one split\<close>

lemma share_point_commute: "share_point a b = share_point b a"
  by (auto simp: share_point_def)

lemma intersects_commute: "intersects a b = intersects b a"
  by (auto simp: intersects_def share_point_commute)

lemma pairwise_disjoint_snoc:
  "pairwise_disjoint (bs @ [b]) = (pairwise_disjoint bs \<and> \<not> list_ex (\<lambda>c. intersects c b) bs)"
  by (induction bs) (auto simp: list_all_iff list_ex_iff)

lemma pairwise_disjoint_nth:
  "pairwise_disjoint bs \<Longrightarrow> i < j \<Longrightarrow> j < length bs \<Longrightarrow> \<not> intersects (bs ! i) (bs ! j)"
proof (induction bs arbitrary: i j)
  case Nil
  then show ?case by simp
next
  case (Cons b bs)
  show ?case
  proof (cases i)
    case 0
    with Cons.prems show ?thesis by (cases j) (auto simp: list_all_iff)
  next
    case (Suc i')
    with Cons.prems obtain j' where "j = Suc j'" by (cases j) auto
    with Suc Cons show ?thesis by auto
  qed
qed

text \<open>What one pass of the loop does to the boxes it keeps and to the calls it makes.\<close>

lemma tile_step_cases:
  assumes "tile_step x a srs burn imgdir maskdir fns r st = (res, st')"
  shows "(\<exists>e. tile_bbox (image_pixel_x_size a) (image_pixel_y_size a)
                (image_srs_width a) (image_srs_height a) (geometry r) = Inl e
             \<and> res = Some e \<and> st' = st)
       \<or> (\<exists>b. tile_bbox (image_pixel_x_size a) (image_pixel_y_size a)
                (image_srs_width a) (image_srs_height a) (geometry r) = Inr b
             \<and> list_ex (\<lambda>c. intersects c b) (created_images st) \<and> res = None \<and> st' = st)
       \<or> (\<exists>b. tile_bbox (image_pixel_x_size a) (image_pixel_y_size a)
                (image_srs_width a) (image_srs_height a) (geometry r) = Inr b
             \<and> \<not> list_ex (\<lambda>c. intersects c b) (created_images st)
             \<and> created_images st' = created_images st @ [b]
             \<and> ((res \<noteq> None \<and> fetch_calls st' = fetch_calls st \<and> mask_calls st' = mask_calls st)
                \<or> (fetch_calls st' = fetch_calls st @ [b]
                    \<and> (mask_calls st' = mask_calls st \<or> mask_calls st' = mask_calls st @ [b]))))"
  using assms
  by (auto simp: tile_step_def Let_def split: sum.splits option.splits if_splits prod.splits)


lemma candidate_boxes_Cons:
  "candidate_boxes a (r # rs) =
     (case tile_bbox (image_pixel_x_size a) (image_pixel_y_size a)
             (image_srs_width a) (image_srs_height a) (geometry r) of
        Inl e \<Rightarrow> candidate_boxes a rs
      | Inr b \<Rightarrow> b # candidate_boxes a rs)"
  by (simp add: candidate_boxes_def split: sum.splits)

lemma tile_loop_invariant:
  assumes "tile_loop x a srs burn imgdir maskdir fns rs st = (res, st')"
    and "pairwise_disjoint (created_images st)"
    and "fetch_calls st = created_images st"
    and "set (mask_calls st) \<subseteq> set (fetch_calls st)"
  shows "pairwise_disjoint (created_images st')
       \<and> (\<exists>rest. created_images st' = fetch_calls st' @ rest)
       \<and> set (mask_calls st') \<subseteq> set (fetch_calls st')
       \<and> (res = None \<longrightarrow>
            fetch_calls st' = created_images st'
            \<and> created_images st' = non_overlapping (created_images st) (candidate_boxes a rs))"
  using assms
proof (induction rs arbitrary: st)
  case Nil
  then show ?case by (simp add: candidate_boxes_def)
next
  case (Cons r rs)
  obtain res1 st1 where step: "tile_step x a srs burn imgdir maskdir fns r st = (res1, st1)"
    by (cases "tile_step x a srs burn imgdir maskdir fns r st")
  note cases = tile_step_cases [OF step]
  show ?case
  proof (cases res1)
    case (Some e)
    with step Cons.prems(1) have out: "res = Some e" "st' = st1" by simp_all
    from cases Some Cons.prems(2-4) out show ?thesis
      by (auto simp: pairwise_disjoint_snoc)
  next
    case None
    with step Cons.prems(1)
    have rest: "tile_loop x a srs burn imgdir maskdir fns rs st1 = (res, st')" by simp
    from cases None consider
      (skip) b where "tile_bbox (image_pixel_x_size a) (image_pixel_y_size a)
                (image_srs_width a) (image_srs_height a) (geometry r) = Inr b"
        "list_ex (\<lambda>c. intersects c b) (created_images st)" "st1 = st"
    | (keep) b where "tile_bbox (image_pixel_x_size a) (image_pixel_y_size a)
                (image_srs_width a) (image_srs_height a) (geometry r) = Inr b"
        "\<not> list_ex (\<lambda>c. intersects c b) (created_images st)"
        "created_images st1 = created_images st @ [b]"
        "fetch_calls st1 = fetch_calls st @ [b]"
        "mask_calls st1 = mask_calls st \<or> mask_calls st1 = mask_calls st @ [b]"
      by auto
    then show ?thesis
    proof cases
      case skip
      from Cons.IH [OF rest [unfolded skip(3)] Cons.prems(2-4)] skip show ?thesis
        by (simp add: candidate_boxes_Cons)
    next
      case keep
      have 1: "pairwise_disjoint (created_images st1)"
        using keep Cons.prems(2) by (simp add: pairwise_disjoint_snoc)
      have 2: "fetch_calls st1 = created_images st1"
        using keep Cons.prems(3) by simp
      have 3: "set (mask_calls st1) \<subseteq> set (fetch_calls st1)"
        using keep Cons.prems(4) by auto
      from Cons.IH [OF rest 1 2 3] keep show ?thesis
        by (simp add: candidate_boxes_Cons)
    qed
  qed
qed

text \<open>Every box of the loop has the width and the height of a tile.\<close>

lemma tile_bbox_size:
  "tile_bbox px py w h g = Inr b \<Longrightarrow> xmax b = xmin b + w \<and> ymax b = ymin b + h"
  by (auto simp: tile_bbox_def py_mod_def Let_def split: option.splits sum.splits if_splits)

lemma tile_loop_sizes:
  assumes "tile_loop x a srs burn imgdir maskdir fns rs st = (res, st')"
    and "\<forall>b \<in> set (created_images st).
           xmax b = xmin b + image_srs_width a \<and> ymax b = ymin b + image_srs_height a"
  shows "\<forall>b \<in> set (created_images st').
           xmax b = xmin b + image_srs_width a \<and> ymax b = ymin b + image_srs_height a"
  using assms
proof (induction rs arbitrary: st)
  case Nil
  then show ?case by simp
next
  case (Cons r rs)
  obtain res1 st1 where step: "tile_step x a srs burn imgdir maskdir fns r st = (res1, st1)"
    by (cases "tile_step x a srs burn imgdir maskdir fns r st")
  from tile_step_cases [OF step] Cons.prems(2)
  have 1: "\<forall>b \<in> set (created_images st1).
           xmax b = xmin b + image_srs_width a \<and> ymax b = ymin b + image_srs_height a"
    by (auto dest: tile_bbox_size)
  show ?case
  proof (cases res1)
    case (Some e)
    with step Cons.prems(1) 1 show ?thesis by simp
  next
    case None
    with step Cons.prems(1)
    have "tile_loop x a srs burn imgdir maskdir fns rs st1 = (res, st')" by simp
    from Cons.IH [OF this 1] show ?thesis .
  qed
qed

text \<open>
  Claim C5, as the spec states it, for every tile size. With \<open>image_pixel_width = 0\<close>
  the box of a tile has no width; such a box intersects nothing by the test of line 196,
  so two locations with the same geometry give the same box twice: both are accepted and
  both go to the fetcher, although the two boxes share every point they have.
\<close>

theorem zero_width_tile_accepted_twice_counterexample:
  "created_images (snd (split_tiles ext_online (example_args\<lparr>image_pixel_width := 0\<rparr>)
       ''epsg:31370'' twin_locations [Some (box 1 1 2 2)] [''01_BUSY''] ''train''
       (Dir [(''01_BUSY'', Dir [(''train'', Dir [(''image'', Dir []), (''mask'', Dir [])])])])))
     = [\<lparr>xmin = 0, ymin = 0, xmax = 0, ymax = 128\<rparr>,
        \<lparr>xmin = 0, ymin = 0, xmax = 0, ymax = 128\<rparr>]
   \<and> fetch_calls (snd (split_tiles ext_online (example_args\<lparr>image_pixel_width := 0\<rparr>)
       ''epsg:31370'' twin_locations [Some (box 1 1 2 2)] [''01_BUSY''] ''train''
       (Dir [(''01_BUSY'', Dir [(''train'', Dir [(''image'', Dir []), (''mask'', Dir [])])])])))
     = [\<lparr>xmin = 0, ymin = 0, xmax = 0, ymax = 128\<rparr>,
        \<lparr>xmin = 0, ymin = 0, xmax = 0, ymax = 128\<rparr>]
   \<and> share_point \<lparr>xmin = 0, ymin = 0, xmax = 0, ymax = 128\<rparr>
                   \<lparr>xmin = 0, ymin = 0, xmax = 0, ymax = 128\<rparr>"
  by code_simp

text \<open>
  Claim C5, amended. Within one split of one build whose tiles have a width and a height
  (\<open>image_pixel_width * image_pixel_x_size\<close> and \<open>image_pixel_height *
  image_pixel_y_size\<close> are not 0), no two of the boxes accepted by the loop share a
  point: a candidate box that intersects a box accepted before it in the same split is
  skipped. Every box sent to the fetcher is an accepted box, every image given to the
  mask rasterizer is one that was fetched, so a skipped box gives no fetch and no mask.
  The loop of a split starts from no accepted box, whatever the splits before it did.
  This holds for the state the loop reaches when it ends and when an exception leaves
  it.
\<close>

theorem split_tiles_non_overlap:
  assumes "split_tiles x a srs locs burn dir t fs = (res, st)"
    and "0 < image_srs_width a" and "0 < image_srs_height a"
  shows "(\<forall>i j. i < j \<and> j < length (created_images st) \<longrightarrow>
            \<not> share_point (created_images st ! i) (created_images st ! j)
            \<and> \<not> share_point (created_images st ! j) (created_images st ! i)
            \<and> \<not> intersects (created_images st ! i) (created_images st ! j)
            \<and> \<not> intersects (created_images st ! j) (created_images st ! i))
       \<and> pairwise_disjoint (created_images st)
       \<and> (\<exists>rest. created_images st = fetch_calls st @ rest)
       \<and> set (mask_calls st) \<subseteq> set (fetch_calls st)"
proof (cases "select_eq locs ''traindata_type'' (VStr t)")
  case (Inl e)
  with assms show ?thesis by (auto simp: split_tiles_def)
next
  case (Inr sel)
  with assms have loop: "tile_loop x a srs burn (dir @ [t, ''image'']) (dir @ [t, ''mask''])
       (columns sel) (rows sel)
       \<lparr>tree = fs, created_images = [], wms_servers = [], fetch_calls = [], mask_calls = []\<rparr>
     = (res, st)"
    by (simp add: split_tiles_def)
  from tile_loop_invariant [OF loop]
  have inv: "pairwise_disjoint (created_images st)"
    "\<exists>rest. created_images st = fetch_calls st @ rest"
    "set (mask_calls st) \<subseteq> set (fetch_calls st)"
    by simp_all
  from tile_loop_sizes [OF loop] assms(2,3)
  have area: "\<forall>b \<in> set (created_images st). has_area b"
    by (simp add: has_area_def)
  have "\<not> share_point (created_images st ! i) (created_images st ! j)
        \<and> \<not> intersects (created_images st ! i) (created_images st ! j)"
    if "i < j" "j < length (created_images st)" for i j
  proof -
    from that area have "has_area (created_images st ! i)" "has_area (created_images st ! j)"
      by simp_all
    with pairwise_disjoint_nth [OF inv(1) that] show ?thesis by (simp add: intersects_def)
  qed
  with inv show ?thesis
    by (simp add: intersects_commute share_point_commute)
qed


theorem split_tiles_non_overlap_witness:
  "created_images (snd (split_tiles ext_online example_args ''epsg:31370'' example_locations
       [Some (box 1 1 2 2)] [''01_BUSY''] ''train''
       (Dir [(''01_BUSY'', Dir [(''train'', Dir [(''image'', Dir []), (''mask'', Dir [])])])])))
     = [\<lparr>xmin = 0, ymin = 0, xmax = 128, ymax = 128\<rparr>,
        \<lparr>xmin = 1000, ymin = 0, xmax = 1128, ymax = 128\<rparr>]
   \<and> 0 < image_srs_width example_args \<and> 0 < image_srs_height example_args
   \<and> \<not> share_point \<lparr>xmin = 0, ymin = 0, xmax = 128, ymax = 128\<rparr>
                     \<lparr>xmin = 1000, ymin = 0, xmax = 1128, ymax = 128\<rparr>"
proof -
  let ?run = "split_tiles ext_online example_args ''epsg:31370'' example_locations
       [Some (box 1 1 2 2)] [''01_BUSY''] ''train''
       (Dir [(''01_BUSY'', Dir [(''train'', Dir [(''image'', Dir []), (''mask'', Dir [])])])])"
  have c: "created_images (snd ?run)
     = [\<lparr>xmin = 0, ymin = 0, xmax = 128, ymax = 128\<rparr>,
        \<lparr>xmin = 1000, ymin = 0, xmax = 1128, ymax = 128\<rparr>]"
    by code_simp
  have w: "0 < image_srs_width example_args" and h: "0 < image_srs_height example_args"
    by (simp_all add: image_srs_width_def image_srs_height_def example_args_def default_args_def)
  have "?run = (fst ?run, snd ?run)" by simp
  from split_tiles_non_overlap [OF this w h]
  have "0 < (1::nat) \<and> 1 < length (created_images (snd ?run)) \<longrightarrow>
            \<not> share_point (created_images (snd ?run) ! 0) (created_images (snd ?run) ! 1)"
    by blast
  then have "\<not> share_point (created_images (snd ?run) ! 0) (created_images (snd ?run) ! 1)"
    unfolding c by simp
  with c w h show ?thesis by simp
qed

section \<open>The parameter \<open>max_samples\<close>\<close>

text \<open>No function reads \<open>max_samples\<close>.\<close>

lemma label_image_layer_max_samples:
  "label_image_layer (a\<lparr>max_samples := m\<rparr>) = label_image_layer a"
  by (intro ext) (simp add: label_image_layer_def cong: val.case_cong if_cong)

lemma image_srs_max_samples:
  "image_srs_width (a\<lparr>max_samples := m\<rparr>) = image_srs_width a"
  "image_srs_height (a\<lparr>max_samples := m\<rparr>) = image_srs_height a"
  by (simp_all add: image_srs_width_def image_srs_height_def)

lemma tile_step_max_samples:
  "tile_step x (a\<lparr>max_samples := m\<rparr>) = tile_step x a"
  by (intro ext)
    (simp add: tile_step_def image_srs_max_samples label_image_layer_max_samples Let_def
      cong: sum.case_cong option.case_cong prod.case_cong if_cong)

lemma tile_loop_max_samples:
  "tile_loop x (a\<lparr>max_samples := m\<rparr>) srs burn imgdir maskdir fns rs st
     = tile_loop x a srs burn imgdir maskdir fns rs st"
  by (induction rs arbitrary: st)
    (simp_all add: tile_step_max_samples cong: option.case_cong prod.case_cong)

lemma split_tiles_max_samples:
  "split_tiles x (a\<lparr>max_samples := m\<rparr>) = split_tiles x a"
  by (intro ext) (simp add: split_tiles_def tile_loop_max_samples Let_def cong: sum.case_cong)

lemma process_split_max_samples:
  "process_split x (a\<lparr>max_samples := m\<rparr>) = process_split x a"
  by (intro ext)
    (simp add: process_split_def split_tiles_max_samples Let_def cong: option.case_cong)

lemma process_splits_max_samples:
  "process_splits x (a\<lparr>max_samples := m\<rparr>) srs locs burn dir ts fs
     = process_splits x a srs locs burn dir ts fs"
  by (induction ts arbitrary: fs)
    (simp_all add: process_split_max_samples cong: option.case_cong prod.case_cong)

lemma build_version_max_samples:
  "build_version x (a\<lparr>max_samples := m\<rparr>) = build_version x a"
  by (intro ext)
    (simp add: build_version_def process_splits_max_samples process_split_max_samples Let_def
      cong: sum.case_cong option.case_cong prod.case_cong)

lemma inputs_unchanged_max_samples:
  "inputs_unchanged (a\<lparr>max_samples := m\<rparr>) = inputs_unchanged a"
  by (intro ext) (simp add: inputs_unchanged_def)

lemma resolve_version_max_samples:
  "resolve_version (a\<lparr>max_samples := m\<rparr>) = resolve_version a"
  by (intro ext)
    (simp add: resolve_version_def inputs_unchanged_max_samples
      cong: option.case_cong list.case_cong)

lemma ensure_inputs_max_samples:
  "ensure_inputs (a\<lparr>max_samples := m\<rparr>) = ensure_inputs a"
  by (intro ext) (simp add: ensure_inputs_def image_srs_max_samples cong: if_cong)

lemma candidate_boxes_max_samples:
  "candidate_boxes (a\<lparr>max_samples := m\<rparr>) = candidate_boxes a"
  by (intro ext) (simp add: candidate_boxes_def image_srs_max_samples)

text \<open>
  Claim C10. The parameter \<open>max_samples\<close> has no effect: \<open>prepare_traindatasets\<close>
  gives the same result and the same world for every value of it, and in a split whose
  loop ends without an exception the boxes accepted, which are the boxes fetched, are
  the non-overlapping label locations of the split, however many they are.
\<close>

theorem max_samples_has_no_effect:
  "prepare_traindatasets x (a\<lparr>max_samples := m\<rparr>) w = prepare_traindatasets x a w
   \<and> (split_tiles x (a\<lparr>max_samples := m\<rparr>) srs locs burn dir t fs = (None, st)
        \<and> select_eq locs ''traindata_type'' (VStr t) = Inr sel \<longrightarrow>
        created_images st = non_overlapping [] (candidate_boxes a (rows sel))
        \<and> fetch_calls st = created_images st)"
proof -
  have 1: "prepare_traindatasets x (a\<lparr>max_samples := m\<rparr>) w = prepare_traindatasets x a w"
    by (simp add: prepare_traindatasets_def ensure_inputs_max_samples
        resolve_version_max_samples build_version_max_samples
        cong: sum.case_cong option.case_cong prod.case_cong resolution.case_cong)
  have 2: "created_images st = non_overlapping [] (candidate_boxes a (rows sel))
        \<and> fetch_calls st = created_images st"
    if run: "split_tiles x (a\<lparr>max_samples := m\<rparr>) srs locs burn dir t fs = (None, st)"
      and sel: "select_eq locs ''traindata_type'' (VStr t) = Inr sel"
  proof -
    from run sel have loop: "tile_loop x a srs burn (dir @ [t, ''image'']) (dir @ [t, ''mask''])
       (columns sel) (rows sel)
       \<lparr>tree = fs, created_images = [], wms_servers = [], fetch_calls = [], mask_calls = []\<rparr>
     = (None, st)"
      by (simp add: split_tiles_max_samples split_tiles_def)
    from tile_loop_invariant [OF loop] show ?thesis by simp
  qed
  from 1 2 show ?thesis by blast
qed

theorem max_samples_has_no_effect_witness:
  "split_tiles ext_online (example_args\<lparr>max_samples := 1\<rparr>) ''epsg:31370'' example_locations
       [Some (box 1 1 2 2)] [''01_BUSY''] ''train''
       (Dir [(''01_BUSY'', Dir [(''train'', Dir [(''image'', Dir []), (''mask'', Dir [])])])])
     = (None, snd (split_tiles ext_online (example_args\<lparr>max_samples := 1\<rparr>) ''epsg:31370''
       example_locations [Some (box 1 1 2 2)] [''01_BUSY''] ''train''
       (Dir [(''01_BUSY'', Dir [(''train'', Dir [(''image'', Dir []), (''mask'', Dir [])])])])))
   \<and> select_eq example_locations ''traindata_type'' (VStr ''train'') = Inr example_locations
   \<and> length (fetch_calls (snd (split_tiles ext_online (example_args\<lparr>max_samples := 1\<rparr>)
       ''epsg:31370'' example_locations [Some (box 1 1 2 2)] [''01_BUSY''] ''train''
       (Dir [(''01_BUSY'', Dir [(''train'', Dir [(''image'', Dir []), (''mask'', Dir [])])])]))))
     = 2"
proof -
  let ?run = "split_tiles ext_online (example_args\<lparr>max_samples := 1\<rparr>) ''epsg:31370''
       example_locations [Some (box 1 1 2 2)] [''01_BUSY''] ''train''
       (Dir [(''01_BUSY'', Dir [(''train'', Dir [(''image'', Dir []), (''mask'', Dir [])])])])"
  have ok: "fst ?run = None" by code_simp
  then have run: "?run = (None, snd ?run)" by (cases ?run) simp
  have sel: "select_eq example_locations ''traindata_type'' (VStr ''train'') = Inr example_locations"
    by code_simp
  have n: "length (non_overlapping [] (candidate_boxes example_args (rows example_locations))) = 2"
    by code_simp
  from max_samples_has_no_effect [where x = ext_online and a = example_args and m = 1
      and srs = "''epsg:31370''" and locs = example_locations and burn = "[Some (box 1 1 2 2)]"
      and dir = "[''01_BUSY'']" and t = "''train''" and st = "snd ?run"
      and sel = example_locations
      and fs = "Dir [(''01_BUSY'', Dir [(''train'', Dir [(''image'', Dir []), (''mask'', Dir [])])])]"]
    run sel
  have "fetch_calls (snd ?run)
          = non_overlapping [] (candidate_boxes example_args (rows example_locations))"
    by simp
  with n run sel show ?thesis by simp
qed

section \<open>The staging directory\<close>

lemma same_outside_refl: "same_outside tmp fs fs"
  by (simp add: same_outside_def)

lemma same_outside_trans:
  "same_outside tmp fs fs1 \<Longrightarrow> same_outside tmp fs1 fs2 \<Longrightarrow> same_outside tmp fs fs2"
  by (simp add: same_outside_def)

lemma staged_refl: "staged tmp fs fs"
  by (simp add: staged_def same_outside_refl)

lemma staged_trans: "staged tmp fs fs1 \<Longrightarrow> staged tmp fs1 fs2 \<Longrightarrow> staged tmp fs fs2"
  unfolding staged_def using same_outside_trans by blast

lemma update_not_Nil: "AList.update k v al \<noteq> []"
  by (cases al) auto

lemma fs_set_result_filled:
  "fs_set n (q # ps) (Some m) = Some n' \<Longrightarrow> \<exists>e es. n' = Dir (e # es)"
proof (cases n)
  case (File c)
  then show "fs_set n (q # ps) (Some m) = Some n' \<Longrightarrow> ?thesis" by simp
next
  case (Dir es)
  assume "fs_set n (q # ps) (Some m) = Some n'"
  with Dir obtain v where "n' = Dir (AList.update q v es)"
    by (cases ps) (auto split: option.splits)
  then show ?thesis using update_not_Nil [of q v es] by (cases "AList.update q v es") auto
qed

lemma mkdir_p_result_filled:
  "mkdir_p n (q # ps) = Some n' \<Longrightarrow> \<exists>e es. n' = Dir (e # es)"
proof (cases n)
  case (File c)
  then show "mkdir_p n (q # ps) = Some n' \<Longrightarrow> ?thesis" by simp
next
  case (Dir es)
  assume "mkdir_p n (q # ps) = Some n'"
  with Dir obtain v where "n' = Dir (AList.update q v es)"
    by (auto split: option.splits)
  then show ?thesis using update_not_Nil [of q v es] by (cases "AList.update q v es") auto
qed

lemma fs_set_same_outside:
  "fs_set fs (tmp # ps) new = Some fs' \<Longrightarrow> same_outside tmp fs fs'"
  by (cases fs; cases ps)
     (auto simp: same_outside_def update_conv' delete_conv' split: option.splits)

lemma mkdir_p_same_outside:
  "mkdir_p fs (tmp # ps) = Some fs' \<Longrightarrow> same_outside tmp fs fs'"
  by (cases fs) (auto simp: same_outside_def update_conv' split: option.splits)

lemma fs_set_keeps_files:
  assumes "fs_set n (s # r # ps) new = Some n'" and "fs_lookup n [k] = Some (File c)"
  shows "fs_lookup n' [k] = Some (File c)"
  using assms by (cases n) (auto simp: update_conv' split: option.splits if_splits)

lemma mkdir_p_File: "mkdir_p (File c) ps = None"
  by simp

lemma mkdir_p_keeps_files:
  assumes "mkdir_p n (s # ps) = Some n'" and "fs_lookup n [k] = Some (File c)"
  shows "fs_lookup n' [k] = Some (File c)"
  using assms by (cases n) (auto simp: update_conv' split: option.splits if_splits)

lemma fs_lookup_Cons:
  "fs_lookup fs (p # ps) = (case fs_lookup fs [p] of None \<Rightarrow> None | Some n \<Rightarrow> fs_lookup n ps)"
  by (cases fs) (auto split: option.splits)

lemma fs_set_staged:
  assumes "fs_set fs (tmp # s # r # ps) (Some m) = Some fs'"
  shows "staged tmp fs fs'"
proof -
  from assms obtain es n n' where fs: "fs = Dir es" and n: "map_of es tmp = Some n"
    and n': "fs_set n (s # r # ps) (Some m) = Some n'" and fs': "fs' = Dir (AList.update tmp n' es)"
    by (cases fs) (auto split: option.splits)
  from fs_set_result_filled [OF n'] fs' have "filled_dir fs' [tmp]"
    by (auto simp: filled_dir_def update_conv')
  moreover have "fs_lookup fs' [tmp, k] = Some (File c)" if "fs_lookup fs [tmp, k] = Some (File c)" for k c
  proof -
    from that fs n have "fs_lookup n [k] = Some (File c)" by simp
    from fs_set_keeps_files [OF n' this] fs' show ?thesis by (simp add: update_conv')
  qed
  ultimately show ?thesis using fs_set_same_outside [OF assms] by (simp add: staged_def)
qed

lemma mkdir_p_staged:
  assumes "mkdir_p fs (tmp # s # ps) = Some fs'"
  shows "staged tmp fs fs'"
proof -
  from assms obtain es n' where fs: "fs = Dir es"
    and n': "mkdir_p (case map_of es tmp of None \<Rightarrow> Dir [] | Some n \<Rightarrow> n) (s # ps) = Some n'"
    and fs': "fs' = Dir (AList.update tmp n' es)"
    by (cases fs) (auto split: option.splits)
  from mkdir_p_result_filled [OF n'] fs' have "filled_dir fs' [tmp]"
    by (auto simp: filled_dir_def update_conv')
  moreover have "fs_lookup fs' [tmp, k] = Some (File c)" if "fs_lookup fs [tmp, k] = Some (File c)" for k c
  proof -
    from that fs obtain n where "map_of es tmp = Some n" "fs_lookup n [k] = Some (File c)"
      by (auto split: option.splits)
    with mkdir_p_keeps_files [OF n' [unfolded \<open>map_of es tmp = Some n\<close>, simplified]] fs'
    show ?thesis by (simp add: update_conv')
  qed
  ultimately show ?thesis using mkdir_p_same_outside [OF assms] by (simp add: staged_def)
qed

lemma write_file_staged:
  "write_file fs (tmp # s # r # ps) c = Some fs' \<Longrightarrow> staged tmp fs fs'"
  by (auto simp: write_file_def dest: fs_set_staged split: option.splits node.splits)

lemma os_makedirs_staged:
  "os_makedirs fs (tmp # s # ps) = Some fs' \<Longrightarrow> staged tmp fs fs'"
  by (auto simp: os_makedirs_def dest: mkdir_p_staged split: if_splits)


lemma ensure_dirs_staged:
  assumes "ensure_dirs ds fs = Some fs'" and "\<forall>d \<in> set ds. \<exists>s ps. d = tmp # s # ps"
  shows "staged tmp fs fs'"
  using assms
proof (induction ds arbitrary: fs)
  case Nil
  then show ?case by (simp add: staged_refl)
next
  case (Cons d ds)
  from Cons.prems(2) obtain s ps where d: "d = tmp # s # ps" by auto
  show ?case
  proof (cases "d \<noteq> [] \<and> \<not> os_path_exists fs d")
    case True
    with Cons.prems(1) obtain fs1 where mk: "os_makedirs fs d = Some fs1"
      and rest: "ensure_dirs ds fs1 = Some fs'"
      by (auto split: option.splits)
    from os_makedirs_staged [OF mk [unfolded d]] Cons.IH [OF rest] Cons.prems(2)
    show ?thesis by (auto intro: staged_trans)
  next
    case False
    with Cons.prems(1) have "ensure_dirs ds fs = Some fs'" by auto
    from Cons.IH [OF this] Cons.prems(2) show ?thesis by auto
  qed
qed

lemma getmap_to_file_staged:
  assumes "ows_util_getmap_to_file x wms layers styles (tmp # s # r # ps) srs bb sz border fs
             = (res, fs')"
  shows "staged tmp fs fs'"
  using assms
  by (auto simp: ows_util_getmap_to_file_def Let_def staged_refl
      dest: write_file_staged split: if_splits option.splits)

lemma create_mask_staged:
  assumes "create_mask x shapes img (tmp # s # r # ps) None burn minp frc fs = (res, fs')"
  shows "staged tmp fs fs'"
  using assms
  by (auto simp: create_mask_def Let_def staged_refl
      dest: write_file_staged split: if_splits option.splits content.splits sum.splits)

lemma tile_step_tree:
  assumes "tile_step x a srs burn imgdir maskdir fns r st = (res, st')"
  shows "tree st' = tree st
       \<or> (\<exists>wms layers styles bb sz border r1 fs1.
            ows_util_getmap_to_file x wms layers styles imgdir srs bb sz border (tree st) = (r1, fs1)
            \<and> (tree st' = fs1
               \<or> (\<exists>p r2. create_mask x burn p (maskdir @ [last p]) None (burn_value a) 0 (force a) fs1
                            = (r2, tree st'))))"
  using assms
  apply (simp add: tile_step_def Let_def split: sum.splits if_splits option.splits prod.splits)
  apply (auto split: if_splits)
         apply blast+
  done

lemma tile_step_staged:
  assumes "tile_step x a srs burn (tmp # s # r # ps) (tmp # s' # r' # ps') fns row st = (res, st')"
  shows "staged tmp (tree st) (tree st')"
proof -
  from tile_step_tree [OF assms] consider "tree st' = tree st"
    | wms layers styles bb sz border r1 fs1 where
      "ows_util_getmap_to_file x wms layers styles (tmp # s # r # ps) srs bb sz border (tree st)
         = (r1, fs1)" "tree st' = fs1"
    | wms layers styles bb sz border r1 fs1 p r2 where
      "ows_util_getmap_to_file x wms layers styles (tmp # s # r # ps) srs bb sz border (tree st)
         = (r1, fs1)"
      "create_mask x burn p ((tmp # s' # r' # ps') @ [last p]) None (burn_value a) 0 (force a) fs1
         = (r2, tree st')"
    by blast
  then show ?thesis
  proof cases
    case 1
    then show ?thesis by (simp add: staged_refl)
  next
    case 2
    with getmap_to_file_staged show ?thesis by blast
  next
    case 3
    from getmap_to_file_staged [OF 3(1)] create_mask_staged [OF 3(2) [simplified]]
    show ?thesis by (rule staged_trans)
  qed
qed

lemma tile_loop_staged:
  assumes "tile_loop x a srs burn (tmp # s # r # ps) (tmp # s' # r' # ps') fns rs st = (res, st')"
  shows "staged tmp (tree st) (tree st')"
  using assms
proof (induction rs arbitrary: st)
  case Nil
  then show ?case by (simp add: staged_refl)
next
  case (Cons row rs)
  obtain res1 st1 where
    step: "tile_step x a srs burn (tmp # s # r # ps) (tmp # s' # r' # ps') fns row st = (res1, st1)"
    by (cases "tile_step x a srs burn (tmp # s # r # ps) (tmp # s' # r' # ps') fns row st")
  note s1 = tile_step_staged [OF step]
  show ?case
  proof (cases res1)
    case None
    with step Cons.prems
    have "tile_loop x a srs burn (tmp # s # r # ps) (tmp # s' # r' # ps') fns rs st1 = (res, st')"
      by simp
    from staged_trans [OF s1 Cons.IH [OF this]] show ?thesis .
  next
    case (Some e)
    with step Cons.prems s1 show ?thesis by simp
  qed
qed

lemma split_tiles_staged:
  assumes "split_tiles x a srs locs burn [tmp] t fs = (res, st)"
  shows "staged tmp fs (tree st)"
proof (cases "select_eq locs ''traindata_type'' (VStr t)")
  case (Inl e)
  with assms show ?thesis by (auto simp: split_tiles_def staged_refl)
next
  case (Inr sel)
  with assms have "tile_loop x a srs burn (tmp # t # ''image'' # []) (tmp # t # ''mask'' # [])
       (columns sel) (rows sel)
       \<lparr>tree = fs, created_images = [], wms_servers = [], fetch_calls = [], mask_calls = []\<rparr>
     = (res, st)"
    by (simp add: split_tiles_def)
  from tile_loop_staged [OF this] show ?thesis by simp
qed

lemma process_split_staged:
  assumes "process_split x a srs locs burn [tmp] t fs = (res, fs')"
  shows "staged tmp fs fs'"
proof (cases "ensure_dirs [[tmp, t], [tmp, t, ''mask''], [tmp, t, ''image'']] fs")
  case None
  with assms show ?thesis by (simp add: process_split_def staged_refl)
next
  case (Some fs1)
  from ensure_dirs_staged [OF Some] have 1: "staged tmp fs fs1" by simp
  obtain r st where sp: "split_tiles x a srs locs burn [tmp] t fs1 = (r, st)"
    by (cases "split_tiles x a srs locs burn [tmp] t fs1")
  with assms Some have "fs' = tree st" by (auto simp: process_split_def split: option.splits)
  with staged_trans [OF 1 split_tiles_staged [OF sp]] show ?thesis by simp
qed

lemma process_splits_staged:
  assumes "process_splits x a srs locs burn [tmp] ts fs = (res, fs')"
  shows "staged tmp fs fs'"
  using assms
proof (induction ts arbitrary: fs)
  case Nil
  then show ?case by (simp add: staged_refl)
next
  case (Cons t ts)
  obtain r1 fs1 where sp: "process_split x a srs locs burn [tmp] t fs = (r1, fs1)"
    by (cases "process_split x a srs locs burn [tmp] t fs")
  note s1 = process_split_staged [OF sp]
  show ?case
  proof (cases r1)
    case None
    with sp Cons.prems have "process_splits x a srs locs burn [tmp] ts fs1 = (res, fs')" by simp
    from staged_trans [OF s1 Cons.IH [OF this]] show ?thesis .
  next
    case (Some e)
    with sp Cons.prems s1 show ?thesis by simp
  qed
qed


lemma filled_dir_is_dir: "filled_dir fs p \<Longrightarrow> is_dir fs p"
  by (auto simp: filled_dir_def is_dir_def split: option.splits node.splits list.splits)

lemma prepare_output_basedir_result:
  assumes "prepare_output_basedir tmp fs = Inr fs1"
  shows "same_outside tmp fs fs1 \<and> is_dir fs1 [tmp]"
proof -
  have mk: "same_outside tmp g g' \<and> is_dir g' [tmp]" if "os_makedirs g [tmp] = Some g'" for g g'
    using that mkdir_p_same_outside [of g tmp "[]" g']
    by (cases g)
       (auto simp: os_makedirs_def os_path_exists_def is_dir_def update_conv'
         split: if_splits option.splits)
  show ?thesis
  proof (cases "os_path_exists fs [tmp]")
    case False
    with assms have "os_makedirs fs [tmp] = Some fs1"
      by (auto simp: prepare_output_basedir_def split: option.splits if_splits)
    from mk [OF this] show ?thesis .
  next
    case True
    with assms obtain fsa where rm: "shutil_rmtree fs [tmp] = Some fsa"
      by (auto simp: prepare_output_basedir_def split: option.splits)
    then have set: "fs_set fs [tmp] None = Some fsa"
      by (auto simp: shutil_rmtree_def split: option.splits node.splits)
    then have gone: "\<not> os_path_exists fsa [tmp]"
      by (cases fs) (auto simp: os_path_exists_def delete_conv')
    with assms True rm have "os_makedirs fsa [tmp] = Some fs1"
      by (auto simp: prepare_output_basedir_def split: option.splits if_splits)
    from mk [OF this] fs_set_same_outside [OF set] show ?thesis
      by (auto intro: same_outside_trans)
  qed
qed

lemma prepare_output_basedir_error:
  "prepare_output_basedir tmp fs = Inl e \<Longrightarrow> e = OSError"
  by (auto simp: prepare_output_basedir_def split: option.splits if_splits)

lemma geofile_util_copy_error:
  "geofile_util_copy fls src dir fs = Inl e \<Longrightarrow> e = OSError"
  by (auto simp: geofile_util_copy_def split: option.splits)

lemma geofile_util_copy_result:
  assumes "geofile_util_copy fls src [tmp] fs = Inr fs'"
  shows "same_outside tmp fs fs' \<and> filled_dir fs' [tmp]
       \<and> (\<exists>c. map_of fls src = Some c
              \<and> write_file fs [tmp, os_path_basename src] c = Some fs'
              \<and> read_content fs' [tmp, os_path_basename src] = Some c)"
proof -
  from assms obtain c where c: "map_of fls src = Some c"
    and w: "write_file fs [tmp, os_path_basename src] c = Some fs'"
    by (auto simp: geofile_util_copy_def split: option.splits)
  from w have s: "fs_set fs [tmp, os_path_basename src] (Some (File c)) = Some fs'"
    by (auto simp: write_file_def split: option.splits node.splits)
  then obtain es n where "fs = Dir es" "map_of es tmp = Some n"
    "fs' = Dir (AList.update tmp (the (fs_set n [os_path_basename src] (Some (File c)))) es)"
    "fs_set n [os_path_basename src] (Some (File c)) \<noteq> None"
    by (cases fs) (auto split: option.splits)
  with fs_set_result_filled [of n "os_path_basename src" "[]" "File c"]
  have "filled_dir fs' [tmp]"
    by (auto simp: filled_dir_def update_conv')
  with fs_set_same_outside [OF s] c w write_file_read [OF w] show ?thesis by blast
qed

lemma os_rename_top:
  assumes "os_rename fs [src] [dst] = Some fs'" and "src \<noteq> dst"
  shows "\<exists>d. fs_lookup fs [src] = Some (Dir d) \<and> fs_lookup fs' [dst] = Some (Dir d)
           \<and> fs_lookup fs' [src] = None
           \<and> (fs_lookup fs [dst] = None \<or> fs_lookup fs [dst] = Some (Dir []))
           \<and> (\<forall>name. name \<noteq> src \<and> name \<noteq> dst \<longrightarrow> fs_lookup fs' [name] = fs_lookup fs [name])"
  using assms
  by (cases fs)
     (auto simp: os_rename_def update_conv' delete_conv'
       split: option.splits node.splits list.splits if_splits)

lemma tmp_not_final: "output_tmp_basedir v \<noteq> format_02d v"
  by (simp add: output_tmp_basedir_def)

text \<open>The stages of a build, and where it can stop.\<close>

lemma build_version_cases:
  assumes "build_version x a fls v fs = (r, fs')"
  shows "(\<exists>e. prepare_output_basedir (output_tmp_basedir v) fs = Inl e \<and> r = Inl e \<and> fs' = fs)
       \<or> (\<exists>fs1. prepare_output_basedir (output_tmp_basedir v) fs = Inr fs1 \<and>
            ((\<exists>e. geofile_util_copy fls (labellocations_path a) [output_tmp_basedir v] fs1 = Inl e
                  \<and> r = Inl e \<and> fs' = fs1)
           \<or> (\<exists>fs2. geofile_util_copy fls (labellocations_path a) [output_tmp_basedir v] fs1 = Inr fs2 \<and>
                ((\<exists>e. geofile_util_copy fls (labeldata_path a) [output_tmp_basedir v] fs2 = Inl e
                      \<and> r = Inl e \<and> fs' = fs2)
               \<or> (\<exists>fs3. geofile_util_copy fls (labeldata_path a) [output_tmp_basedir v] fs2 = Inr fs3 \<and>
                    ((\<exists>e. r = Inl e \<and> fs' = fs3 \<and> (e = Read_error \<or> (\<exists>k. e = KeyError k)))
                   \<or> (\<exists>srs locs burn r4 fs4.
                         process_splits x a srs locs burn [output_tmp_basedir v]
                           [''train'', ''validation'', ''test''] fs3 = (r4, fs4) \<and>
                         ((\<exists>e. r4 = Some e \<and> r = Inl e \<and> fs' = fs4)
                        \<or> (r4 = None \<and> os_rename fs4 [output_tmp_basedir v] [format_02d v] = None
                             \<and> r = Inl OSError \<and> fs' = fs4)
                        \<or> (r4 = None \<and> os_rename fs4 [output_tmp_basedir v] [format_02d v] = Some fs'
                             \<and> r = Inr (format_02d v, v))))))))))"
proof -
  let ?tmp = "output_tmp_basedir v"
  show ?thesis
  proof (cases "prepare_output_basedir ?tmp fs")
    case (Inl e)
    with assms show ?thesis by (simp add: build_version_def)
  next
    case p: (Inr fs1)
    show ?thesis
    proof (cases "geofile_util_copy fls (labellocations_path a) [?tmp] fs1")
      case (Inl e)
      with assms p show ?thesis by (simp add: build_version_def)
    next
      case c1: (Inr fs2)
      show ?thesis
      proof (cases "geofile_util_copy fls (labeldata_path a) [?tmp] fs2")
        case (Inl e)
        with assms p c1 show ?thesis by (simp add: build_version_def)
      next
        case c2: (Inr fs3)
        have "(\<exists>e. r = Inl e \<and> fs' = fs3 \<and> (e = Read_error \<or> (\<exists>k. e = KeyError k)))
                   \<or> (\<exists>srs locs burn r4 fs4.
                         process_splits x a srs locs burn [?tmp]
                           [''train'', ''validation'', ''test''] fs3 = (r4, fs4) \<and>
                         ((\<exists>e. r4 = Some e \<and> r = Inl e \<and> fs' = fs4)
                        \<or> (r4 = None \<and> os_rename fs4 [?tmp] [format_02d v] = None
                             \<and> r = Inl OSError \<and> fs' = fs4)
                        \<or> (r4 = None \<and> os_rename fs4 [?tmp] [format_02d v] = Some fs'
                             \<and> r = Inr (format_02d v, v))))"
        proof (cases "geofile_util_read_file fls (labellocations_path a)")
          case (Inl e)
          then have "e = Read_error"
            by (auto simp: geofile_util_read_file_def split: option.splits content.splits)
          with Inl assms p c1 c2 show ?thesis by (auto simp: build_version_def simp del: process_splits.simps)
        next
          case r1: (Inr locs)
          show ?thesis
          proof (cases "geofile_util_read_file fls (labeldata_path a)")
            case (Inl e)
            then have "e = Read_error"
              by (auto simp: geofile_util_read_file_def split: option.splits content.splits)
            with Inl assms p c1 c2 r1 show ?thesis by (auto simp: build_version_def simp del: process_splits.simps)
          next
            case r2: (Inr dat)
            show ?thesis
            proof (cases "map_of (crs locs) ''init''")
              case None
              with assms p c1 c2 r1 r2 show ?thesis by (auto simp: build_version_def simp del: process_splits.simps)
            next
              case srs: (Some img_srs)
              show ?thesis
              proof (cases "select_isin dat ''label_name'' (label_names_to_burn a)")
                case (Inl e)
                then have "\<exists>k. e = KeyError k" by (auto simp: select_isin_def split: if_splits)
                with Inl assms p c1 c2 r1 r2 srs show ?thesis by (auto simp: build_version_def simp del: process_splits.simps)
              next
                case sel: (Inr burn_gdf)
                obtain r4 fs4 where ps: "process_splits x a img_srs locs
                    (map geometry (rows burn_gdf)) [?tmp] [''train'', ''validation'', ''test''] fs3
                    = (r4, fs4)"
                  by (cases "process_splits x a img_srs locs
                    (map geometry (rows burn_gdf)) [?tmp] [''train'', ''validation'', ''test''] fs3")
                have "(\<exists>e. r4 = Some e \<and> r = Inl e \<and> fs' = fs4)
                        \<or> (r4 = None \<and> os_rename fs4 [?tmp] [format_02d v] = None
                             \<and> r = Inl OSError \<and> fs' = fs4)
                        \<or> (r4 = None \<and> os_rename fs4 [?tmp] [format_02d v] = Some fs'
                             \<and> r = Inr (format_02d v, v))"
                  using assms p c1 c2 r1 r2 srs sel ps
                  by (cases r4; cases "os_rename fs4 [?tmp] [format_02d v]")
                     (simp_all add: build_version_def Let_def del: process_splits.simps)
                with ps show ?thesis by blast
              qed
            qed
          qed
        qed
        with p c1 c2 show ?thesis by blast
      qed
    qed
  qed
qed


lemma staged_same_outside: "staged tmp fs fs' \<Longrightarrow> same_outside tmp fs fs'"
  by (simp add: staged_def)

lemma staged_filled: "staged tmp fs fs' \<Longrightarrow> filled_dir fs [tmp] \<Longrightarrow> filled_dir fs' [tmp]"
  by (auto simp: staged_def)

lemma staged_read:
  "staged tmp fs fs' \<Longrightarrow> read_content fs [tmp, n] = Some c \<Longrightarrow> read_content fs' [tmp, n] = Some c"
  unfolding staged_def read_content_def
  by (cases "fs_lookup fs [tmp, n]") (auto split: node.splits)

lemma process_split_error:
  "process_split x a srs locs burn dir t fs = (Some e, fs') \<Longrightarrow>
     e = OSError \<or> (\<exists>e'. e = Error_preparing_dataset e')"
  by (auto simp: process_split_def Let_def split: option.splits prod.splits)

lemma build_version_error:
  assumes "build_version x a fls v fs = (Inl e, fs')"
  shows "same_outside (output_tmp_basedir v) fs fs'
       \<and> (\<forall>e'. e = Error_preparing_dataset e' \<longrightarrow> is_dir fs' [output_tmp_basedir v])"
proof -
  let ?tmp = "output_tmp_basedir v"
  from build_version_cases [OF assms] show ?thesis
  proof (elim disjE exE conjE)
    fix e0 assume "prepare_output_basedir ?tmp fs = Inl e0" "Inl e = Inl e0" "fs' = fs"
    with prepare_output_basedir_error [of ?tmp fs e0] show ?thesis
      by (auto simp: same_outside_refl)
  next
    fix fs1 e0 assume p: "prepare_output_basedir ?tmp fs = Inr fs1"
      and c1: "geofile_util_copy fls (labellocations_path a) [?tmp] fs1 = Inl e0"
      and r: "Inl e = Inl e0" "fs' = fs1"
    from prepare_output_basedir_result [OF p] geofile_util_copy_error [OF c1] r
    show ?thesis by auto
  next
    fix fs1 fs2 e0 assume p: "prepare_output_basedir ?tmp fs = Inr fs1"
      and c1: "geofile_util_copy fls (labellocations_path a) [?tmp] fs1 = Inr fs2"
      and c2: "geofile_util_copy fls (labeldata_path a) [?tmp] fs2 = Inl e0"
      and r: "Inl e = Inl e0" "fs' = fs2"
    from prepare_output_basedir_result [OF p] geofile_util_copy_result [OF c1]
    have "same_outside ?tmp fs fs2" by (auto intro: same_outside_trans)
    with geofile_util_copy_error [OF c2] r show ?thesis by auto
  next
    fix fs1 fs2 fs3 e0 assume p: "prepare_output_basedir ?tmp fs = Inr fs1"
      and c1: "geofile_util_copy fls (labellocations_path a) [?tmp] fs1 = Inr fs2"
      and c2: "geofile_util_copy fls (labeldata_path a) [?tmp] fs2 = Inr fs3"
      and r: "Inl e = Inl e0" "fs' = fs3" "e0 = Read_error"
    from prepare_output_basedir_result [OF p] geofile_util_copy_result [OF c1]
      geofile_util_copy_result [OF c2]
    have "same_outside ?tmp fs fs3" by (auto intro: same_outside_trans)
    with r show ?thesis by auto
  next
    fix fs1 fs2 fs3 e0 k assume p: "prepare_output_basedir ?tmp fs = Inr fs1"
      and c1: "geofile_util_copy fls (labellocations_path a) [?tmp] fs1 = Inr fs2"
      and c2: "geofile_util_copy fls (labeldata_path a) [?tmp] fs2 = Inr fs3"
      and r: "Inl e = Inl e0" "fs' = fs3" "e0 = KeyError k"
    from prepare_output_basedir_result [OF p] geofile_util_copy_result [OF c1]
      geofile_util_copy_result [OF c2]
    have "same_outside ?tmp fs fs3" by (auto intro: same_outside_trans)
    with r show ?thesis by auto
  next
    fix fs1 fs2 fs3 srs locs burn r4 fs4 e0 assume p: "prepare_output_basedir ?tmp fs = Inr fs1"
      and c1: "geofile_util_copy fls (labellocations_path a) [?tmp] fs1 = Inr fs2"
      and c2: "geofile_util_copy fls (labeldata_path a) [?tmp] fs2 = Inr fs3"
      and ps: "process_splits x a srs locs burn [?tmp] [''train'', ''validation'', ''test''] fs3
                 = (r4, fs4)"
      and r: "Inl e = Inl e0" "fs' = fs4"
    from prepare_output_basedir_result [OF p] geofile_util_copy_result [OF c1]
      geofile_util_copy_result [OF c2]
    have o3: "same_outside ?tmp fs fs3" and f3: "filled_dir fs3 [?tmp]"
      by (auto intro: same_outside_trans)
    note st = process_splits_staged [OF ps]
    from same_outside_trans [OF o3 staged_same_outside [OF st]]
      filled_dir_is_dir [OF staged_filled [OF st f3]] r
    show ?thesis by simp
  next
    fix fs1 fs2 fs3 srs locs burn r4 fs4 assume p: "prepare_output_basedir ?tmp fs = Inr fs1"
      and c1: "geofile_util_copy fls (labellocations_path a) [?tmp] fs1 = Inr fs2"
      and c2: "geofile_util_copy fls (labeldata_path a) [?tmp] fs2 = Inr fs3"
      and ps: "process_splits x a srs locs burn [?tmp] [''train'', ''validation'', ''test''] fs3
                 = (r4, fs4)"
      and r: "Inl e = Inl OSError" "fs' = fs4"
    from prepare_output_basedir_result [OF p] geofile_util_copy_result [OF c1]
      geofile_util_copy_result [OF c2]
    have o3: "same_outside ?tmp fs fs3" by (auto intro: same_outside_trans)
    note st = process_splits_staged [OF ps]
    from same_outside_trans [OF o3 staged_same_outside [OF st]] r
    show ?thesis by simp
  next
    assume "Inl e = Inr (format_02d v, v)"
    then show ?thesis by simp
  qed
qed

lemma build_version_success:
  assumes "build_version x a fls v fs = (Inr res, fs')"
  shows "res = (format_02d v, v)
       \<and> filled_dir fs' [format_02d v]
       \<and> (fs_lookup fs [format_02d v] = None \<or> fs_lookup fs [format_02d v] = Some (Dir []))
       \<and> fs_lookup fs' [output_tmp_basedir v] = None
       \<and> (\<forall>name. name \<noteq> output_tmp_basedir v \<and> name \<noteq> format_02d v \<longrightarrow>
             fs_lookup fs' [name] = fs_lookup fs [name])
       \<and> (\<exists>c. map_of fls (labeldata_path a) = Some c
              \<and> read_content fs' [format_02d v, os_path_basename (labeldata_path a)] = Some c)
       \<and> (os_path_basename (labellocations_path a) \<noteq> os_path_basename (labeldata_path a) \<longrightarrow>
            (\<exists>c. map_of fls (labellocations_path a) = Some c
              \<and> read_content fs' [format_02d v, os_path_basename (labellocations_path a)] = Some c))"
proof -
  let ?tmp = "output_tmp_basedir v" and ?final = "format_02d v"
  let ?b1 = "os_path_basename (labellocations_path a)"
  let ?b2 = "os_path_basename (labeldata_path a)"
  from build_version_cases [OF assms] obtain fs1 fs2 fs3 srs locs burn fs4 where
    p: "prepare_output_basedir ?tmp fs = Inr fs1"
    and c1: "geofile_util_copy fls (labellocations_path a) [?tmp] fs1 = Inr fs2"
    and c2: "geofile_util_copy fls (labeldata_path a) [?tmp] fs2 = Inr fs3"
    and ps: "process_splits x a srs locs burn [?tmp] [''train'', ''validation'', ''test''] fs3
               = (None, fs4)"
    and rn: "os_rename fs4 [?tmp] [?final] = Some fs'"
    and res: "res = (?final, v)"
    by auto
  note p1 = prepare_output_basedir_result [OF p]
  from geofile_util_copy_result [OF c1] obtain d1 where
    o2: "same_outside ?tmp fs1 fs2" and d1: "map_of fls (labellocations_path a) = Some d1"
    "read_content fs2 [?tmp, ?b1] = Some d1"
    by blast
  from geofile_util_copy_result [OF c2] obtain d2 where
    o3: "same_outside ?tmp fs2 fs3" and f3: "filled_dir fs3 [?tmp]"
    and d2: "map_of fls (labeldata_path a) = Some d2"
    "write_file fs2 [?tmp, ?b2] d2 = Some fs3" "read_content fs3 [?tmp, ?b2] = Some d2"
    by blast
  note st = process_splits_staged [OF ps]
  have o4: "same_outside ?tmp fs fs4"
    using p1 o2 o3 staged_same_outside [OF st] by (blast intro: same_outside_trans)
  from os_rename_top [OF rn tmp_not_final] obtain d where
    d: "fs_lookup fs4 [?tmp] = Some (Dir d)" "fs_lookup fs' [?final] = Some (Dir d)"
    "fs_lookup fs' [?tmp] = None"
    "fs_lookup fs4 [?final] = None \<or> fs_lookup fs4 [?final] = Some (Dir [])"
    "\<forall>name. name \<noteq> ?tmp \<and> name \<noteq> ?final \<longrightarrow> fs_lookup fs' [name] = fs_lookup fs4 [name]"
    by blast
  from staged_filled [OF st f3] d(1,2) have filled: "filled_dir fs' [?final]"
    by (simp add: filled_dir_def)
  from o4 tmp_not_final [of v] have same_final: "fs_lookup fs4 [?final] = fs_lookup fs [?final]"
    by (simp add: same_outside_def)
  have others: "\<forall>name. name \<noteq> ?tmp \<and> name \<noteq> ?final \<longrightarrow> fs_lookup fs' [name] = fs_lookup fs [name]"
    using d(5) o4 by (simp add: same_outside_def)
  have moved: "read_content fs' [?final, n] = read_content fs4 [?tmp, n]" for n
    using d(1,2) by (simp add: read_content_def fs_lookup_Cons [of _ _ "[n]"])
  have r2: "read_content fs' [?final, ?b2] = Some d2"
    using staged_read [OF st d2(3)] by (simp add: moved)
  have r1: "read_content fs' [?final, ?b1] = Some d1" if "?b1 \<noteq> ?b2"
  proof -
    from that have "[?tmp, ?b1] \<noteq> [?tmp, ?b2]" by simp
    from write_file_read_other [OF d2(2) d1(2) this] staged_read [OF st] show ?thesis
      by (simp add: moved)
  qed
  from res filled d(3,4) same_final others d1(1) d2(1) r1 r2 show ?thesis by auto
qed

subsection \<open>Names of version directories\<close>

lemma sorted_desc_first_Max:
  "sorted_desc_first xs = (if xs = [] then None else Some (Max (set xs)))"
proof (cases "xs = []")
  case True
  then show ?thesis by (simp add: sorted_desc_first_def)
next
  case False
  then have ne: "rev (sort xs) \<noteq> []" by (metis length_0_conv length_rev length_sort)
  then obtain y ys where y: "rev (sort xs) = y # ys" by (cases "rev (sort xs)") auto
  have "sorted (rev (y # ys))" using y [symmetric] by simp
  then have "\<forall>z \<in> set (y # ys). z \<le> y"
    by (auto simp: sorted_append)
  moreover have "set (y # ys) = set xs" using y [symmetric] by simp
  ultimately have "Max (set xs) = y"
    by (intro Max_eqI) auto
  with y False show ?thesis by (simp add: sorted_desc_first_def)
qed

lemma digit_cases:
  assumes "d < (10::nat)"
  shows "d = 0 \<or> d = 1 \<or> d = 2 \<or> d = 3 \<or> d = 4 \<or> d = 5 \<or> d = 6 \<or> d = 7 \<or> d = 8 \<or> d = 9"
  using assms by arith

lemma digit_char_digit:
  assumes "d < 10"
  shows "is_digit (digit_char d) \<and> digit_value (digit_char d) = d \<and> \<not> is_space (digit_char d)
         \<and> digit_char d \<noteq> CHR ''-'' \<and> digit_char d \<noteq> CHR ''+'' \<and> digit_char d \<noteq> CHR ''Y''"
  using digit_cases [OF assms]
  by (elim disjE) (simp_all add: digit_char_def is_digit_def digit_value_def is_space_def)

lemma digits_value_all_digits:
  "list_all is_digit s \<Longrightarrow>
     digits_value acc s = Some (foldl (\<lambda>m c. 10 * m + digit_value c) acc s)"
  by (induction s arbitrary: acc) auto

lemma nat_digits_props:
  "list_all is_digit (nat_digits n) \<and> nat_digits n \<noteq> []
   \<and> foldl (\<lambda>m c. 10 * m + digit_value c) 0 (nat_digits n) = n
   \<and> \<not> is_space (hd (nat_digits n)) \<and> \<not> is_space (last (nat_digits n))
   \<and> last (nat_digits n) \<noteq> CHR ''Y''
   \<and> hd (nat_digits n) \<noteq> CHR ''-'' \<and> hd (nat_digits n) \<noteq> CHR ''+''"
proof (induction n rule: nat_digits.induct)
  case (1 n)
  show ?case
  proof (cases "n < 10")
    case True
    with digit_char_digit [of n] show ?thesis by (simp add: nat_digits.simps [of n])
  next
    case False
    with 1 digit_char_digit [of "n mod 10"] show ?thesis
      by (simp add: nat_digits.simps [of n] hd_append)
  qed
qed

lemma strip_id:
  assumes "s \<noteq> []" and "\<not> is_space (hd s)" and "\<not> is_space (last s)"
  shows "strip s = s"
proof -
  from assms have 1: "dropWhile is_space s = s" by (cases s) auto
  from assms have "rev s \<noteq> []" "\<not> is_space (hd (rev s))" by (simp_all add: hd_rev)
  then have "dropWhile is_space (rev s) = rev s" by (cases "rev s") auto
  with 1 show ?thesis by (simp add: strip_def)
qed

lemma unsigned_value_digits:
  assumes "list_all is_digit s" and "s \<noteq> []"
  shows "unsigned_value s = Some (foldl (\<lambda>m c. 10 * m + digit_value c) 0 s)"
  using assms by (cases s) (auto simp: unsigned_value_def digits_value_all_digits digit_value_def)

lemma py_int_format_02d:
  assumes "0 \<le> v"
  shows "py_int (format_02d v) = Some v"
proof -
  let ?s = "format_02d v" and ?d = "nat_digits (nat v)"
  note d = nat_digits_props [of "nat v"]
  have zero: "is_digit CHR ''0''" "\<not> is_space CHR ''0''" "digit_value CHR ''0'' = 0"
    by (simp_all add: is_digit_def is_space_def digit_value_def)
  have s: "?s = ?d \<or> ?s = CHR ''0'' # ?d" using assms by (simp add: format_02d_def)
  then have props: "list_all is_digit ?s" "?s \<noteq> []" "\<not> is_space (hd ?s)" "\<not> is_space (last ?s)"
    "hd ?s \<noteq> CHR ''-''" "hd ?s \<noteq> CHR ''+''"
    "foldl (\<lambda>m c. 10 * m + digit_value c) 0 ?s = nat v"
    using d zero by auto
  from strip_id [OF props(2-4)] have st: "strip ?s = ?s" .
  obtain c cs where c: "?s = c # cs" using props(2) by (cases ?s) auto
  with props have "c \<noteq> CHR ''-''" "c \<noteq> CHR ''+''" by auto
  with c st have "py_int ?s = map_option int (unsigned_value ?s)"
    by (simp add: py_int_def)
  with unsigned_value_digits [OF props(1,2)] props(7) assms show ?thesis by simp
qed

lemma format_02d_names:
  "\<not> endswith (format_02d v) ''_BUSY''"
  "endswith (output_tmp_basedir v) ''_BUSY''"
  "0 \<le> v \<Longrightarrow> matches_version (format_02d v)"
proof -
  note d = nat_digits_props [of "nat v"] nat_digits_props [of "nat (- v)"]
  have l: "last (format_02d v) \<noteq> CHR ''Y''" "format_02d v \<noteq> []"
    using d by (auto simp: format_02d_def)
  show "\<not> endswith (format_02d v) ''_BUSY''"
  proof
    assume "endswith (format_02d v) ''_BUSY''"
    then have dr: "drop (length (format_02d v) - length ''_BUSY'') (format_02d v) = ''_BUSY''"
      by (simp add: endswith_def)
    from l have "length (format_02d v) - length ''_BUSY'' < length (format_02d v)" by simp
    from last_drop [OF this]
    have "last (format_02d v)
            = last (drop (length (format_02d v) - length ''_BUSY'') (format_02d v))"
      by (rule sym)
    also from dr have "\<dots> = last ''_BUSY''" by (rule arg_cong)
    finally show False using l by simp
  qed
  show "endswith (output_tmp_basedir v) ''_BUSY''"
    by (simp add: endswith_def output_tmp_basedir_def)
  assume "0 \<le> v"
  then have "format_02d v = nat_digits (nat v) \<or> format_02d v = CHR ''0'' # nat_digits (nat v)"
    by (simp add: format_02d_def)
  with d show "matches_version (format_02d v)"
    by (cases "nat_digits (nat v)") (auto simp: matches_version_def is_digit_def)
qed


lemma strip_keeps_head:
  assumes "\<not> is_space c"
  shows "\<exists>cs'. strip (c # cs) = c # cs'"
proof -
  from assms have 1: "dropWhile is_space (c # cs) = c # cs" by simp
  have "dropWhile is_space (rev cs @ [c]) \<noteq> [] \<and> last (dropWhile is_space (rev cs @ [c])) = c"
    using assms by (induction "rev cs" arbitrary: cs rule: list.induct)
      (auto simp: dropWhile_append split: if_splits)
  then obtain ys where "dropWhile is_space (rev cs @ [c]) = ys @ [c]"
    by (metis append_butlast_last_id)
  with 1 show ?thesis by (simp add: strip_def)
qed

lemma digit_not_space: "is_digit c \<Longrightarrow> \<not> is_space c \<and> c \<noteq> CHR ''-'' \<and> c \<noteq> CHR ''+'' \<and> c \<noteq> CHR ''_''"
  by (auto simp: is_digit_def is_space_def)

lemma py_int_nonneg:
  assumes "matches_version s" and "py_int s = Some k"
  shows "0 \<le> k"
proof -
  from assms(1) obtain c cs where s: "s = c # cs" and c: "is_digit c"
    by (cases s) (auto simp: matches_version_def)
  from strip_keeps_head [of c cs] digit_not_space [OF c] obtain cs' where "strip s = c # cs'"
    using s by auto
  with assms(2) digit_not_space [OF c] show ?thesis
    by (auto simp: py_int_def)
qed

lemma split_on_not_Nil: "split_on sep s \<noteq> []"
  by (induction s) (auto split: list.splits)

lemma split_on_head:
  assumes "c \<noteq> sep"
  shows "\<exists>w ws. split_on sep (c # cs) = (c # w) # ws"
  using assms split_on_not_Nil [of sep cs] by (cases "split_on sep cs") auto

lemma legacy_version_part:
  assumes "matches_legacy name" and "split_on CHR ''_'' name = w0 # w1 # ws"
  shows "matches_version w1"
proof -
  let ?rest = "drop (length ''train_'') name"
  from assms(1) have "take (length ''train_'') name = ''train_''" and m: "matches_version ?rest"
    by (simp_all add: matches_legacy_def startswith_def)
  then have name: "name = ''train_'' @ ?rest" by (metis append_take_drop_id)
  from m obtain c cs where d: "?rest = c # cs" and c: "is_digit c"
    by (cases ?rest) (auto simp: matches_version_def)
  from split_on_head [of c "CHR ''_''" cs] digit_not_space [OF c]
  obtain w ws' where "split_on CHR ''_'' (c # cs) = (c # w) # ws'" by auto
  then have "split_on CHR ''_'' (''train_'' @ (c # cs)) = ''train'' # (c # w) # ws'"
    by simp
  with name d assms(2) have "w1 = c # w" by simp
  with c show ?thesis by (simp add: matches_version_def)
qed

lemma glob_dirs_iff:
  "d \<in> set (glob_dirs m fs) \<longleftrightarrow> m d \<and> is_dir fs [d]"
proof (cases fs)
  case (File c)
  then show ?thesis by (simp add: glob_dirs_def is_dir_def)
next
  case (Dir es)
  have "map_of es d = Some n \<Longrightarrow> d \<in> fst ` set es" for n
    by (metis map_of_SomeD image_eqI fst_conv)
  with Dir show ?thesis
    by (auto simp: glob_dirs_def is_dir_def split: option.splits node.splits)
qed

lemma output_dirs_iff:
  "d \<in> set (output_dirs fs) \<longleftrightarrow> matches_version d \<and> \<not> endswith d ''_BUSY'' \<and> is_dir fs [d]"
  by (auto simp: output_dirs_def glob_dirs_iff)

lemma output_legacy_train_dirs_iff:
  "d \<in> set (output_legacy_train_dirs fs)
     \<longleftrightarrow> matches_legacy d \<and> \<not> endswith d ''_BUSY'' \<and> is_dir fs [d]"
  by (auto simp: output_legacy_train_dirs_def glob_dirs_iff)

text \<open>The version of a new build: at least 1, and one more than the number of the most recent directory.\<close>

lemma resolve_version_new:
  assumes "resolve_version a fls fs = Inr (New_version v)"
  shows "1 \<le> v \<and> (output_dirs fs \<noteq> [] \<longrightarrow> py_int (Max (set (output_dirs fs))) = Some (v - 1))"
proof (cases "output_dirs fs = []")
  case True
  show ?thesis
  proof (cases "output_legacy_train_dirs fs = []")
    case l: True
    with True assms show ?thesis by (simp add: resolve_version_def sorted_desc_first_Max)
  next
    case False
    let ?m = "Max (set (output_legacy_train_dirs fs))"
    from False have "?m \<in> set (output_legacy_train_dirs fs)" by (intro Max_in) auto
    then have leg: "matches_legacy ?m" by (simp add: output_legacy_train_dirs_iff)
    from True False assms obtain w0 w1 ws k where sp: "split_on CHR ''_'' ?m = w0 # w1 # ws"
      and k: "py_int w1 = Some k" and v: "v = k + 1"
      by (auto simp: resolve_version_def sorted_desc_first_Max split: list.splits option.splits)
    from py_int_nonneg [OF legacy_version_part [OF leg sp] k] v True show ?thesis by simp
  qed
next
  case False
  let ?m = "Max (set (output_dirs fs))"
  from False have "?m \<in> set (output_dirs fs)" by (intro Max_in) auto
  then have mv: "matches_version ?m" by (simp add: output_dirs_iff)
  from False assms obtain k where k: "py_int ?m = Some k" and v: "v = k + 1"
    by (auto simp: resolve_version_def sorted_desc_first_Max split: option.splits if_splits)
  from py_int_nonneg [OF mv k] k v False show ?thesis by simp
qed


lemma non_busy_unchanged_refl: "non_busy_unchanged fs fs"
  by (simp add: non_busy_unchanged_def)

lemma non_busy_unchanged_trans:
  "non_busy_unchanged fs fs1 \<Longrightarrow> non_busy_unchanged fs1 fs2 \<Longrightarrow> non_busy_unchanged fs fs2"
  by (simp add: non_busy_unchanged_def)

lemma same_outside_busy:
  "same_outside tmp fs fs' \<Longrightarrow> endswith tmp ''_BUSY'' \<Longrightarrow> non_busy_unchanged fs fs'"
  by (auto simp: same_outside_def non_busy_unchanged_def)

lemma non_busy_lookup:
  assumes "non_busy_unchanged fs fs'" and "\<not> endswith d ''_BUSY''"
  shows "fs_lookup fs' (d # ps) = fs_lookup fs (d # ps)"
  using assms fs_lookup_Cons [of fs d ps] fs_lookup_Cons [of fs' d ps]
  by (simp add: non_busy_unchanged_def)

lemma resolve_version_frame:
  assumes "non_busy_unchanged fs fs'"
  shows "resolve_version a fls fs' = resolve_version a fls fs"
proof -
  have dir: "is_dir fs' [d] = is_dir fs [d]" if "\<not> endswith d ''_BUSY''" for d
    using non_busy_lookup [OF assms that, of "[]"] by (simp add: is_dir_def)
  have "set (output_dirs fs') = set (output_dirs fs)"
    using dir by (auto simp: output_dirs_iff)
  then have o: "sorted_desc_first (output_dirs fs') = sorted_desc_first (output_dirs fs)"
    by (auto simp: sorted_desc_first_Max simp flip: set_empty)
  have "set (output_legacy_train_dirs fs') = set (output_legacy_train_dirs fs)"
    using dir by (auto simp: output_legacy_train_dirs_iff)
  then have l: "sorted_desc_first (output_legacy_train_dirs fs')
                  = sorted_desc_first (output_legacy_train_dirs fs)"
    by (auto simp: sorted_desc_first_Max simp flip: set_empty)
  show ?thesis
  proof (cases "sorted_desc_first (output_dirs fs)")
    case None
    with o l show ?thesis by (simp add: resolve_version_def)
  next
    case (Some m)
    then have "m \<in> set (output_dirs fs)"
      by (auto simp: sorted_desc_first_Max split: if_splits intro: Max_in)
    then have nb: "\<not> endswith m ''_BUSY''" by (simp add: output_dirs_iff)
    have rc: "read_content fs' (m # ps) = read_content fs (m # ps)" for ps
      by (simp add: read_content_def non_busy_lookup [OF assms nb])
    have "inputs_unchanged a fls fs' m = inputs_unchanged a fls fs m"
      by (simp add: inputs_unchanged_def Let_def os_path_exists_def geofile_util_cmp_def rc
          non_busy_lookup [OF assms nb] cong: option.case_cong)
    with o Some show ?thesis by (simp add: resolve_version_def cong: option.case_cong)
  qed
qed

lemma get_bbox_translated_error:
  "get_bbox_translated px py w h g = Inl e \<Longrightarrow> early_error e"
  by (auto simp: get_bbox_translated_def py_mod_def early_error_def Let_def
      split: option.splits sum.splits if_splits)

lemma apply_bbox_translated_error:
  "apply_bbox_translated px py w h rs = Inl e \<Longrightarrow> early_error e"
  by (induction rs arbitrary: e)
     (auto dest: get_bbox_translated_error split: sum.splits)

lemma read_legacy_error: "read_legacy fls p t = Inl e \<Longrightarrow> early_error e"
  by (auto simp: read_legacy_def geofile_util_read_file_def early_error_def Let_def
      split: option.splits content.splits sum.splits)

lemma select_eq_error: "select_eq g c v = Inl e \<Longrightarrow> early_error e"
  by (auto simp: select_eq_def early_error_def split: if_splits)

lemma drop_columns_error: "drop_columns cs g = Inl e \<Longrightarrow> early_error e"
  by (auto simp: drop_columns_def early_error_def split: list.splits)

lemma convert_traindata_v1tov2_error:
  assumes "convert_traindata_v1tov2 lp dp px py w h fls = (Inl e, fls')"
  shows "early_error e"
  using assms
  by (auto simp: convert_traindata_v1tov2_def Let_def
      dest: read_legacy_error select_eq_error drop_columns_error apply_bbox_translated_error
      split: if_splits sum.splits)

lemma ensure_inputs_error: "ensure_inputs a fls = (Some e, fls') \<Longrightarrow> early_error e"
  by (auto simp: ensure_inputs_def early_error_def
      dest: convert_traindata_v1tov2_error [unfolded early_error_def]
      split: if_splits prod.splits sum.splits)

lemma resolve_version_error: "resolve_version a fls fs = Inl e \<Longrightarrow> early_error e"
  by (auto simp: resolve_version_def early_error_def
      split: option.splits list.splits if_splits)

text \<open>The three ways a call can end.\<close>

lemma prepare_traindatasets_cases:
  assumes "prepare_traindatasets x a w = (r, w')"
  shows "(\<exists>e. r = Inl e \<and> training w' = training w \<and> early_error e)
       \<or> (\<exists>fls d v. ensure_inputs a (files w) = (None, fls)
              \<and> resolve_version a fls (training w) = Inr (Reuse d v)
              \<and> r = Inr (d, v) \<and> w' = w\<lparr>files := fls\<rparr>)
       \<or> (\<exists>fls v. ensure_inputs a (files w) = (None, fls)
              \<and> resolve_version a fls (training w) = Inr (New_version v)
              \<and> build_version x a fls v (training w) = (r, training w') \<and> files w' = fls)"
proof -
  obtain e0 fls where ei: "ensure_inputs a (files w) = (e0, fls)"
    by (cases "ensure_inputs a (files w)")
  show ?thesis
  proof (cases e0)
    case (Some e)
    with ei assms ensure_inputs_error [of a "files w" e fls] show ?thesis
      by (auto simp: prepare_traindatasets_def)
  next
    case None
    show ?thesis
    proof (cases "resolve_version a fls (training w)")
      case (Inl e)
      with None ei assms resolve_version_error [OF Inl] show ?thesis
        by (auto simp: prepare_traindatasets_def)
    next
      case (Inr res)
      show ?thesis
      proof (cases res)
        case (Reuse d v)
        with Inr None ei assms show ?thesis by (auto simp: prepare_traindatasets_def)
      next
        case (New_version v)
        with Inr None ei assms show ?thesis
          by (auto simp: prepare_traindatasets_def split: prod.splits)
      qed
    qed
  qed
qed

section \<open>A build that fails\<close>

text \<open>The build is its first steps, the loop over the splits and the rename.\<close>

lemma build_version_stages:
  "build_version x a fls v fs =
     (case stage_inputs a fls (output_tmp_basedir v) fs of
        (Inl e, fs') \<Rightarrow> (Inl e, fs')
      | (Inr (srs, locs, burn), fs3) \<Rightarrow>
          (case process_splits x a srs locs burn [output_tmp_basedir v]
                  [''train'', ''validation'', ''test''] fs3 of
             (Some e, fs4) \<Rightarrow> (Inl e, fs4)
           | (None, fs4) \<Rightarrow>
               (case os_rename fs4 [output_tmp_basedir v] [format_02d v] of
                  None \<Rightarrow> (Inl OSError, fs4)
                | Some fs5 \<Rightarrow> (Inr (format_02d v, v), fs5))))"
  by (simp add: build_version_def stage_inputs_def Let_def del: process_splits.simps
      split: sum.splits option.splits prod.splits)

lemma tile_loop_append:
  "tile_loop x a srs burn imgdir maskdir fns pre st0 = (None, st) \<Longrightarrow>
     tile_loop x a srs burn imgdir maskdir fns (pre @ rs) st0
       = tile_loop x a srs burn imgdir maskdir fns rs st"
  by (induction pre arbitrary: st0) (auto split: prod.splits option.splits)

lemma process_splits_append:
  "process_splits x a srs locs burn dir before fs = (None, fsb) \<Longrightarrow>
     process_splits x a srs locs burn dir (before @ ts) fs
       = process_splits x a srs locs burn dir ts fsb"
  by (induction before arbitrary: fs) (auto split: prod.splits option.splits)

lemma tile_step_raises:
  assumes "tile_bbox (image_pixel_x_size a) (image_pixel_y_size a)
             (image_srs_width a) (image_srs_height a) (geometry r) = Inr b"
    and "\<not> list_ex (\<lambda>c. intersects c b) (created_images st)"
    and "label_image_layer a fns r = Inr layer"
    and "map_of (image_layers a) layer = Some cfg"
    and "map_of (wms_servers st) layer = None
           \<longrightarrow> wms_connect x (wms_server_url cfg) (wms_version cfg)"
    and "ows_util_getmap_to_file x
             (case map_of (wms_servers st) layer of
                None \<Rightarrow> (wms_server_url cfg, wms_version cfg) | Some s \<Rightarrow> s)
             (wms_layernames cfg) (wms_layerstyles cfg) imgdir srs b
             (image_pixel_width a, image_pixel_height a) (image_pixels_ignore_border cfg)
             (tree st) = (fetched, fs1)"
    and "fetched = Inl e \<and> fs2 = fs1
         \<or> (\<exists>p. fetched = Inr (Some p)
                \<and> create_mask x burn p (maskdir @ [last p]) None (burn_value a) 0 (force a) fs1
                    = (Inl e, fs2))"
  shows "\<exists>st'. tile_step x a srs burn imgdir maskdir fns r st = (Some e, st') \<and> tree st' = fs2"
  using assms
  by (cases "map_of (wms_servers st) layer")
     (auto simp: tile_step_def Let_def update_conv')

lemma process_splits_three:
  "process_splits x a srs locs burn dir [''train'', ''validation'', ''test''] fs3 = (None, fs4)
   \<longleftrightarrow> (\<exists>fsa fsb. process_split x a srs locs burn dir ''train'' fs3 = (None, fsa)
          \<and> process_split x a srs locs burn dir ''validation'' fsa = (None, fsb)
          \<and> process_split x a srs locs burn dir ''test'' fsb = (None, fs4))"
  by (auto split: prod.splits option.splits)

text \<open>
  Claim C1, in four parts.

  An exception that the fetcher or the mask rasterizer raises for a tile leaves the loop
  of the split: whatever the tiles before it were, \<open>split_tiles\<close> ends with this
  exception, on the tree that the raising call left.

  When the loop of a split ends with an exception, the splits before it having
  completed, \<open>prepare_traindatasets\<close> raises this exception wrapped as
  \<open>Error preparing dataset!\<close>. The tree is the one the loop had reached: there was
  no rename, the staging directory of the version that was being built is still there,
  and every entry of \<open>training_dir\<close> whose name does not end in \<open>_BUSY\<close> is as it
  was before the call.

  When \<open>prepare_traindatasets\<close> returns from a build, the three splits have
  completed without an exception, one after the other, and the rename of the staging
  directory to the final version directory came after the last of them.

  Whatever the exception that ends \<open>prepare_traindatasets\<close>, every entry of
  \<open>training_dir\<close> whose name does not end in \<open>_BUSY\<close> is as it was before the
  call; when the exception is the wrapped one, the staging directory of the version
  that the resolver gave is there.
\<close>

theorem failed_build_keeps_versions:
  "(select_eq locs ''traindata_type'' (VStr t) = Inr sel
      \<and> rows sel = pre @ r # post
      \<and> tile_loop x a srs burn (dir @ [t, ''image'']) (dir @ [t, ''mask'']) (columns sel) pre
            \<lparr>tree = fsd, created_images = [], wms_servers = [], fetch_calls = [],
             mask_calls = []\<rparr> = (None, st)
      \<and> tile_bbox (image_pixel_x_size a) (image_pixel_y_size a)
            (image_srs_width a) (image_srs_height a) (geometry r) = Inr b
      \<and> \<not> list_ex (\<lambda>c. intersects c b) (created_images st)
      \<and> label_image_layer a (columns sel) r = Inr layer
      \<and> map_of (image_layers a) layer = Some cfg
      \<and> (map_of (wms_servers st) layer = None
            \<longrightarrow> wms_connect x (wms_server_url cfg) (wms_version cfg))
      \<and> ows_util_getmap_to_file x
            (case map_of (wms_servers st) layer of
               None \<Rightarrow> (wms_server_url cfg, wms_version cfg) | Some s \<Rightarrow> s)
            (wms_layernames cfg) (wms_layerstyles cfg) (dir @ [t, ''image'']) srs b
            (image_pixel_width a, image_pixel_height a) (image_pixels_ignore_border cfg)
            (tree st) = (fetched, fs1)
      \<and> (fetched = Inl e \<and> fs2 = fs1
           \<or> (\<exists>p. fetched = Inr (Some p)
                  \<and> create_mask x burn p ((dir @ [t, ''mask'']) @ [last p]) None (burn_value a) 0
                        (force a) fs1 = (Inl e, fs2)))
    \<longrightarrow> (\<exists>st'. split_tiles x a srs locs burn dir t fsd = (Some e, st') \<and> tree st' = fs2))
   \<and> (ensure_inputs a (files w) = (None, fls)
      \<and> resolve_version a fls (training w) = Inr (New_version v)
      \<and> stage_inputs a fls (output_tmp_basedir v) (training w) = (Inr (srs, locs, burn), fs3)
      \<and> before @ t # rest = [''train'', ''validation'', ''test'']
      \<and> process_splits x a srs locs burn [output_tmp_basedir v] before fs3 = (None, fsb)
      \<and> ensure_dirs [[output_tmp_basedir v] @ [t], [output_tmp_basedir v] @ [t, ''mask''],
                      [output_tmp_basedir v] @ [t, ''image'']] fsb = Some fsd
      \<and> split_tiles x a srs locs burn [output_tmp_basedir v] t fsd = (Some e, st')
    \<longrightarrow> prepare_traindatasets x a w
          = (Inl (Error_preparing_dataset e), \<lparr>files = fls, training = tree st'\<rparr>)
        \<and> is_dir (tree st') [output_tmp_basedir v]
        \<and> non_busy_unchanged (training w) (tree st'))
   \<and> (prepare_traindatasets x a w = (Inr (d, v), w') \<and> training w' \<noteq> training w
    \<longrightarrow> d = format_02d v
        \<and> (\<exists>srs locs burn fs3 fsa fsb fs4.
              stage_inputs a (files w') (output_tmp_basedir v) (training w)
                = (Inr (srs, locs, burn), fs3)
              \<and> process_split x a srs locs burn [output_tmp_basedir v] ''train'' fs3 = (None, fsa)
              \<and> process_split x a srs locs burn [output_tmp_basedir v] ''validation'' fsa
                  = (None, fsb)
              \<and> process_split x a srs locs burn [output_tmp_basedir v] ''test'' fsb = (None, fs4)
              \<and> os_rename fs4 [output_tmp_basedir v] [d] = Some (training w')))
   \<and> (prepare_traindatasets x a w = (Inl err, w')
    \<longrightarrow> non_busy_unchanged (training w) (training w')
        \<and> (\<forall>e'. err = Error_preparing_dataset e' \<longrightarrow>
              (\<exists>v'. resolve_version a (files w') (training w) = Inr (New_version v')
                    \<and> is_dir (training w') [output_tmp_basedir v'])))"
proof -
  have A: "\<exists>st'. split_tiles x a srs locs burn dir t fsd = (Some e, st') \<and> tree st' = fs2"
    if sel: "select_eq locs ''traindata_type'' (VStr t) = Inr sel"
      and rows: "rows sel = pre @ r # post"
      and pre: "tile_loop x a srs burn (dir @ [t, ''image'']) (dir @ [t, ''mask'']) (columns sel) pre
            \<lparr>tree = fsd, created_images = [], wms_servers = [], fetch_calls = [],
             mask_calls = []\<rparr> = (None, st)"
      and step: "tile_bbox (image_pixel_x_size a) (image_pixel_y_size a)
            (image_srs_width a) (image_srs_height a) (geometry r) = Inr b"
        "\<not> list_ex (\<lambda>c. intersects c b) (created_images st)"
        "label_image_layer a (columns sel) r = Inr layer"
        "map_of (image_layers a) layer = Some cfg"
        "map_of (wms_servers st) layer = None
            \<longrightarrow> wms_connect x (wms_server_url cfg) (wms_version cfg)"
        "ows_util_getmap_to_file x
            (case map_of (wms_servers st) layer of
               None \<Rightarrow> (wms_server_url cfg, wms_version cfg) | Some s \<Rightarrow> s)
            (wms_layernames cfg) (wms_layerstyles cfg) (dir @ [t, ''image'']) srs b
            (image_pixel_width a, image_pixel_height a) (image_pixels_ignore_border cfg)
            (tree st) = (fetched, fs1)"
        "fetched = Inl e \<and> fs2 = fs1
           \<or> (\<exists>p. fetched = Inr (Some p)
                  \<and> create_mask x burn p ((dir @ [t, ''mask'']) @ [last p]) None (burn_value a) 0
                        (force a) fs1 = (Inl e, fs2))"
  proof -
    from tile_step_raises [OF step] obtain st' where
      s: "tile_step x a srs burn (dir @ [t, ''image'']) (dir @ [t, ''mask'']) (columns sel) r st
            = (Some e, st')" and t: "tree st' = fs2"
      by blast
    from s have "tile_loop x a srs burn (dir @ [t, ''image'']) (dir @ [t, ''mask'']) (columns sel)
                   (r # post) st = (Some e, st')"
      by simp
    with tile_loop_append [OF pre, of "r # post"] rows sel
    have "split_tiles x a srs locs burn dir t fsd = (Some e, st')"
      by (simp add: split_tiles_def)
    with t show ?thesis by blast
  qed
  have B: "prepare_traindatasets x a w
          = (Inl (Error_preparing_dataset e), \<lparr>files = fls, training = tree st'\<rparr>)
        \<and> is_dir (tree st') [output_tmp_basedir v]
        \<and> non_busy_unchanged (training w) (tree st')"
    if ei: "ensure_inputs a (files w) = (None, fls)"
      and rv: "resolve_version a fls (training w) = Inr (New_version v)"
      and si: "stage_inputs a fls (output_tmp_basedir v) (training w)
                 = (Inr (srs, locs, burn), fs3)"
      and ts: "before @ t # rest = [''train'', ''validation'', ''test'']"
      and bf: "process_splits x a srs locs burn [output_tmp_basedir v] before fs3 = (None, fsb)"
      and dirs: "ensure_dirs [[output_tmp_basedir v] @ [t], [output_tmp_basedir v] @ [t, ''mask''],
                      [output_tmp_basedir v] @ [t, ''image'']] fsb = Some fsd"
      and loop: "split_tiles x a srs locs burn [output_tmp_basedir v] t fsd = (Some e, st')"
  proof -
    from dirs loop
    have "process_split x a srs locs burn [output_tmp_basedir v] t fsb
            = (Some (Error_preparing_dataset e), tree st')"
      by (simp add: process_split_def Let_def del: ensure_dirs.simps)
    then have "process_splits x a srs locs burn [output_tmp_basedir v] (t # rest) fsb
            = (Some (Error_preparing_dataset e), tree st')"
      by simp
    with process_splits_append [OF bf, of "t # rest"] ts
    have "process_splits x a srs locs burn [output_tmp_basedir v]
            [''train'', ''validation'', ''test''] fs3
            = (Some (Error_preparing_dataset e), tree st')"
      by simp
    with si have bv: "build_version x a fls v (training w)
                    = (Inl (Error_preparing_dataset e), tree st')"
      by (simp add: build_version_stages del: process_splits.simps)
    with ei rv have run: "prepare_traindatasets x a w
          = (Inl (Error_preparing_dataset e), \<lparr>files = fls, training = tree st'\<rparr>)"
      by (simp add: prepare_traindatasets_def)
    from build_version_error [OF bv]
    have "same_outside (output_tmp_basedir v) (training w) (tree st')"
      and "is_dir (tree st') [output_tmp_basedir v]"
      by simp_all
    with same_outside_busy [OF _ format_02d_names(2)] run show ?thesis by blast
  qed
  have C: "d = format_02d v
        \<and> (\<exists>srs locs burn fs3 fsa fsb fs4.
              stage_inputs a (files w') (output_tmp_basedir v) (training w)
                = (Inr (srs, locs, burn), fs3)
              \<and> process_split x a srs locs burn [output_tmp_basedir v] ''train'' fs3 = (None, fsa)
              \<and> process_split x a srs locs burn [output_tmp_basedir v] ''validation'' fsa
                  = (None, fsb)
              \<and> process_split x a srs locs burn [output_tmp_basedir v] ''test'' fsb = (None, fs4)
              \<and> os_rename fs4 [output_tmp_basedir v] [d] = Some (training w'))"
    if run: "prepare_traindatasets x a w = (Inr (d, v), w')" and ch: "training w' \<noteq> training w"
  proof -
    from prepare_traindatasets_cases [OF run] ch obtain fls0 v0 where
      bv: "build_version x a fls0 v0 (training w) = (Inr (d, v), training w')"
      and f: "files w' = fls0"
      by auto
    obtain r0 fs0 where si: "stage_inputs a fls0 (output_tmp_basedir v0) (training w) = (r0, fs0)"
      by (cases "stage_inputs a fls0 (output_tmp_basedir v0) (training w)")
    from bv si obtain srs locs burn where r0: "r0 = Inr (srs, locs, burn)"
      by (cases r0) (auto simp: build_version_stages)
    obtain r4 fs4 where ps: "process_splits x a srs locs burn [output_tmp_basedir v0]
                  [''train'', ''validation'', ''test''] fs0 = (r4, fs4)"
      by (cases "process_splits x a srs locs burn [output_tmp_basedir v0]
                  [''train'', ''validation'', ''test''] fs0")
    from bv si r0 ps have r4: "r4 = None"
      and rn: "os_rename fs4 [output_tmp_basedir v0] [format_02d v0] = Some (training w')"
      and dv: "d = format_02d v0" "v = v0"
      by (auto simp: build_version_stages simp del: process_splits.simps
          split: option.splits)
    from ps r4 have "process_splits x a srs locs burn [output_tmp_basedir v0]
                  [''train'', ''validation'', ''test''] fs0 = (None, fs4)"
      by (simp del: process_splits.simps)
    from process_splits_three [THEN iffD1, OF this] obtain fsa fsb where
      "process_split x a srs locs burn [output_tmp_basedir v0] ''train'' fs0 = (None, fsa)"
      "process_split x a srs locs burn [output_tmp_basedir v0] ''validation'' fsa = (None, fsb)"
      "process_split x a srs locs burn [output_tmp_basedir v0] ''test'' fsb = (None, fs4)"
      by blast
    with si r0 rn dv f show ?thesis by blast
  qed
  have D: "non_busy_unchanged (training w) (training w')
        \<and> (\<forall>e'. err = Error_preparing_dataset e' \<longrightarrow>
              (\<exists>v'. resolve_version a (files w') (training w) = Inr (New_version v')
                    \<and> is_dir (training w') [output_tmp_basedir v']))"
    if run: "prepare_traindatasets x a w = (Inl err, w')"
  proof -
    from prepare_traindatasets_cases [OF run] consider
      (early) "training w' = training w" "early_error err"
      | (build) fls0 v0 where "resolve_version a fls0 (training w) = Inr (New_version v0)"
          "build_version x a fls0 v0 (training w) = (Inl err, training w')" "files w' = fls0"
      by auto
    then show ?thesis
    proof cases
      case early
      then show ?thesis by (auto simp: non_busy_unchanged_refl early_error_def)
    next
      case build
      from build_version_error [OF build(2)]
      have "same_outside (output_tmp_basedir v0) (training w) (training w')"
        and "\<forall>e'. err = Error_preparing_dataset e' \<longrightarrow> is_dir (training w') [output_tmp_basedir v0]"
        by simp_all
      with same_outside_busy [OF _ format_02d_names(2)] build(1,3) show ?thesis by blast
    qed
  qed
  show ?thesis
    apply (intro conjI)
    subgoal by (intro impI, elim conjE, rule A; assumption)
    subgoal by (intro impI, elim conjE, rule B; assumption)
    subgoal by (intro impI, elim conjE, rule C; assumption)
    subgoal by (intro impI, rule D)
    done
qed


theorem failed_build_keeps_versions_witness:
  "prepare_traindatasets ext_online example_args
       \<lparr>files = unlabeled_files, training = Dir [(''01'', Dir [(''old'', Dir [])])]\<rparr>
     = (Inl (Error_preparing_dataset ValueError),
        \<lparr>files = unlabeled_files,
         training =
           Dir [(''01'', Dir [(''old'', Dir [])]),
                (''02_BUSY'',
                 Dir [(''b_locations.gpkg'', File (Vector example_locations)),
                      (''b_data.gpkg'', File (Vector other_labeldata)),
                      (''train'', Dir [(''mask'', Dir []),
                                       (''image'', Dir [(''tile_0.jpg'', File small_image)])])])]\<rparr>)
   \<and> is_dir (training (snd (prepare_traindatasets ext_online example_args
          \<lparr>files = unlabeled_files, training = Dir [(''01'', Dir [(''old'', Dir [])])]\<rparr>)))
        [''02_BUSY'']
   \<and> fs_lookup (training (snd (prepare_traindatasets ext_online example_args
          \<lparr>files = unlabeled_files, training = Dir [(''01'', Dir [(''old'', Dir [])])]\<rparr>)))
        [''02''] = None
   \<and> fs_lookup (training (snd (prepare_traindatasets ext_online example_args
          \<lparr>files = unlabeled_files, training = Dir [(''01'', Dir [(''old'', Dir [])])]\<rparr>)))
        [''01''] = Some (Dir [(''old'', Dir [])])
   \<and> (\<exists>v'. resolve_version example_args unlabeled_files (Dir [(''01'', Dir [(''old'', Dir [])])])
               = Inr (New_version v')
            \<and> is_dir (training (snd (prepare_traindatasets ext_online example_args
                 \<lparr>files = unlabeled_files, training = Dir [(''01'', Dir [(''old'', Dir [])])]\<rparr>)))
                 [output_tmp_basedir v'])
   \<and> fst (split_tiles ext_no_image example_args ''epsg:31370'' example_locations []
            [''02_BUSY''] ''train''
            (Dir [(''02_BUSY'', Dir [(''train'', Dir [(''mask'', Dir []), (''image'', Dir [])])])]))
       = Some Fetch_error
   \<and> ''01'' = format_02d 1
   \<and> (\<exists>srs locs burn fs3 fsa fsb fs4.
         stage_inputs example_args example_files (output_tmp_basedir 1) (Dir [])
           = (Inr (srs, locs, burn), fs3)
         \<and> process_split ext_online example_args srs locs burn [output_tmp_basedir 1] ''train'' fs3
             = (None, fsa)
         \<and> process_split ext_online example_args srs locs burn [output_tmp_basedir 1]
               ''validation'' fsa = (None, fsb)
         \<and> process_split ext_online example_args srs locs burn [output_tmp_basedir 1] ''test'' fsb
             = (None, fs4)
         \<and> os_rename fs4 [output_tmp_basedir 1] [''01'']
             = Some (training (snd (prepare_traindatasets ext_online example_args
                   \<lparr>files = example_files, training = Dir []\<rparr>))))"
proof -
  let ?T0 = "Dir [(''01'', Dir [(''old'', Dir [])])]"
  let ?w = "\<lparr>files = unlabeled_files, training = ?T0\<rparr>"
  let ?run = "prepare_traindatasets ext_online example_args ?w"
  let ?fs3 = "Dir [(''01'', Dir [(''old'', Dir [])]),
                (''02_BUSY'',
                 Dir [(''b_locations.gpkg'', File (Vector example_locations)),
                      (''b_data.gpkg'', File (Vector other_labeldata))])]"
  let ?fsd = "Dir [(''01'', Dir [(''old'', Dir [])]),
                (''02_BUSY'',
                 Dir [(''b_locations.gpkg'', File (Vector example_locations)),
                      (''b_data.gpkg'', File (Vector other_labeldata)),
                      (''train'', Dir [(''mask'', Dir []), (''image'', Dir [])])])]"
  let ?fs1 = "Dir [(''01'', Dir [(''old'', Dir [])]),
                (''02_BUSY'',
                 Dir [(''b_locations.gpkg'', File (Vector example_locations)),
                      (''b_data.gpkg'', File (Vector other_labeldata)),
                      (''train'', Dir [(''mask'', Dir []),
                                       (''image'', Dir [(''tile_0.jpg'', File small_image)])])])]"
  let ?r1 = "\<lparr>geometry = Some (box 0 0 100 100), cells = [(''traindata_type'', VStr ''train'')]\<rparr>"
  let ?post = "[\<lparr>geometry = Some (box 10 10 20 20), cells = [(''traindata_type'', VStr ''train'')]\<rparr>,
              \<lparr>geometry = Some (box 1000 0 1100 100),
               cells = [(''traindata_type'', VStr ''train'')]\<rparr>]"
  let ?b = "\<lparr>xmin = 0, ymin = 0, xmax = 128, ymax = 128\<rparr>"
  let ?cfg = "\<lparr>wms_server_url = ''https://wms'', wms_version = ''1.3.0'',
               wms_layernames = [''ortho''], wms_layerstyles = [''default''],
               image_pixels_ignore_border = 0\<rparr>"
  let ?p = "[''02_BUSY'', ''train'', ''image'', ''tile_0.jpg'']"
  let ?st0 = "\<lambda>fs. \<lparr>tree = fs, created_images = [], wms_servers = [], fetch_calls = [],
                     mask_calls = []\<rparr>"
  have tmp: "output_tmp_basedir 2 = ''02_BUSY''" by code_simp
  have ei: "ensure_inputs example_args (files ?w) = (None, unlabeled_files)" by code_simp
  have rv: "resolve_version example_args unlabeled_files (training ?w) = Inr (New_version 2)"
    by code_simp
  have si: "stage_inputs example_args unlabeled_files ''02_BUSY'' (training ?w)
              = (Inr (''epsg:31370'', example_locations, []), ?fs3)"
    by code_simp
  have ts: "[] @ ''train'' # [''validation'', ''test''] = [''train'', ''validation'', ''test'']"
    by simp
  have bf: "process_splits ext_online example_args ''epsg:31370'' example_locations []
              [''02_BUSY''] [] ?fs3 = (None, ?fs3)"
    by simp
  have dirs: "ensure_dirs [[''02_BUSY''] @ [''train''], [''02_BUSY''] @ [''train'', ''mask''],
                           [''02_BUSY''] @ [''train'', ''image'']] ?fs3 = Some ?fsd"
    by code_simp
  have sel: "select_eq example_locations ''traindata_type'' (VStr ''train'') = Inr example_locations"
    by code_simp
  have rows: "rows example_locations = [] @ ?r1 # ?post"
    by (simp add: example_locations_def)
  have pre: "tile_loop x example_args ''epsg:31370'' [] ([''02_BUSY''] @ [''train'', ''image''])
               ([''02_BUSY''] @ [''train'', ''mask'']) (columns example_locations) [] (?st0 fs)
             = (None, ?st0 fs)" for x fs
    by simp
  have bb: "tile_bbox (image_pixel_x_size example_args) (image_pixel_y_size example_args)
              (image_srs_width example_args) (image_srs_height example_args) (geometry ?r1)
            = Inr ?b"
    by code_simp
  have ni: "\<not> list_ex (\<lambda>c. intersects c ?b) (created_images (?st0 fs))" for fs
    by simp
  have layer: "label_image_layer example_args (columns example_locations) ?r1 = Inr ''ortho''"
    by code_simp
  have cfg: "map_of (image_layers example_args) ''ortho'' = Some ?cfg"
    by code_simp
  have conn: "map_of (wms_servers (?st0 fs)) ''ortho'' = None
                \<longrightarrow> wms_connect x (wms_server_url ?cfg) (wms_version ?cfg)"
    if "x = ext_online \<or> x = ext_no_image" for x fs
    using that by (auto simp: ext_online_def ext_no_image_def)
  have fetch: "ows_util_getmap_to_file ext_online
            (case map_of (wms_servers (?st0 ?fsd)) ''ortho'' of
               None \<Rightarrow> (wms_server_url ?cfg, wms_version ?cfg) | Some s \<Rightarrow> s)
            (wms_layernames ?cfg) (wms_layerstyles ?cfg) ([''02_BUSY''] @ [''train'', ''image''])
            ''epsg:31370'' ?b
            (image_pixel_width example_args, image_pixel_height example_args)
            (image_pixels_ignore_border ?cfg) (tree (?st0 ?fsd)) = (Inr (Some ?p), ?fs1)"
    by code_simp
  have mask: "create_mask ext_online [] ?p (([''02_BUSY''] @ [''train'', ''mask'']) @ [last ?p]) None
                (burn_value example_args) 0 (force example_args) ?fs1 = (Inl ValueError, ?fs1)"
    by code_simp
  have raise: "Inr (Some ?p) = Inl ValueError \<and> ?fs1 = ?fs1
           \<or> (\<exists>p. Inr (Some ?p) = Inr (Some p)
                  \<and> create_mask ext_online [] p (([''02_BUSY''] @ [''train'', ''mask'']) @ [last p])
                        None (burn_value example_args) 0 (force example_args) ?fs1
                      = (Inl ValueError, ?fs1))"
    using mask by blast
  note A = failed_build_keeps_versions [THEN conjunct1, rule_format]
  have "\<exists>st'. split_tiles ext_online example_args ''epsg:31370'' example_locations [] [''02_BUSY'']
                ''train'' ?fsd = (Some ValueError, st') \<and> tree st' = ?fs1"
    by (rule A [where sel = example_locations and pre = "[]" and r = ?r1 and post = ?post
          and st = "?st0 ?fsd" and b = ?b and layer = "''ortho''" and cfg = ?cfg
          and fetched = "Inr (Some ?p)" and ?fs1.0 = ?fs1])
       (intro conjI sel rows pre bb ni layer cfg conn fetch raise disjI1 refl)
  then obtain st' where
    loop: "split_tiles ext_online example_args ''epsg:31370'' example_locations [] [''02_BUSY'']
             ''train'' ?fsd = (Some ValueError, st')"
    and tr: "tree st' = ?fs1"
    by blast
  note B = failed_build_keeps_versions [THEN conjunct2, THEN conjunct1, rule_format,
      where v = 2, unfolded tmp]
  have b: "prepare_traindatasets ext_online example_args ?w
          = (Inl (Error_preparing_dataset ValueError),
             \<lparr>files = unlabeled_files, training = tree st'\<rparr>)
        \<and> is_dir (tree st') [''02_BUSY'']
        \<and> non_busy_unchanged (training ?w) (tree st')"
    by (rule B [where before = "[]" and rest = "[''validation'', ''test'']" and ?fs3.0 = ?fs3
          and fsb = ?fs3 and fsd = ?fsd and srs = "''epsg:31370''" and locs = example_locations
          and burn = "[]" and t = "''train''"])
       (intro conjI ei rv si ts bf dirs loop)
  then have run: "?run = (Inl (Error_preparing_dataset ValueError),
                           \<lparr>files = unlabeled_files, training = ?fs1\<rparr>)"
    and isd: "is_dir (training (snd ?run)) [''02_BUSY'']"
    and nb: "non_busy_unchanged ?T0 (training (snd ?run))"
    using tr by simp_all
  have "\<not> endswith ''01'' ''_BUSY''" "\<not> endswith ''02'' ''_BUSY''"
    by (simp_all add: endswith_def)
  with nb have keep: "fs_lookup (training (snd ?run)) [''01''] = Some (Dir [(''old'', Dir [])])"
    and none: "fs_lookup (training (snd ?run)) [''02''] = None"
    unfolding non_busy_unchanged_def by simp_all
  note D = failed_build_keeps_versions [THEN conjunct2, THEN conjunct2, THEN conjunct2,
      rule_format]
  from D [of ext_online example_args ?w "Error_preparing_dataset ValueError" "snd ?run"] run
  have d: "\<exists>v'. resolve_version example_args unlabeled_files ?T0 = Inr (New_version v')
            \<and> is_dir (training (snd ?run)) [output_tmp_basedir v']"
    by simp
  let ?fse = "Dir [(''02_BUSY'', Dir [(''train'', Dir [(''mask'', Dir []), (''image'', Dir [])])])]"
  have fetch2: "ows_util_getmap_to_file ext_no_image
            (case map_of (wms_servers (?st0 ?fse)) ''ortho'' of
               None \<Rightarrow> (wms_server_url ?cfg, wms_version ?cfg) | Some s \<Rightarrow> s)
            (wms_layernames ?cfg) (wms_layerstyles ?cfg) ([''02_BUSY''] @ [''train'', ''image''])
            ''epsg:31370'' ?b
            (image_pixel_width example_args, image_pixel_height example_args)
            (image_pixels_ignore_border ?cfg) (tree (?st0 ?fse)) = (Inl Fetch_error, ?fse)"
    by code_simp
  have raise2: "Inl Fetch_error = Inl Fetch_error \<and> ?fse = ?fse
           \<or> (\<exists>p. Inl Fetch_error = Inr (Some p)
                  \<and> create_mask ext_no_image [] p (([''02_BUSY''] @ [''train'', ''mask'']) @ [last p])
                        None (burn_value example_args) 0 (force example_args) ?fse
                      = (Inl Fetch_error, ?fse))"
    by simp
  have "\<exists>st'. split_tiles ext_no_image example_args ''epsg:31370'' example_locations []
                [''02_BUSY''] ''train'' ?fse = (Some Fetch_error, st') \<and> tree st' = ?fse"
    by (rule A [where sel = example_locations and pre = "[]" and r = ?r1 and post = ?post
          and st = "?st0 ?fse" and b = ?b and layer = "''ortho''" and cfg = ?cfg
          and fetched = "Inl Fetch_error" and ?fs1.0 = ?fse])
       (intro conjI sel rows pre bb ni layer cfg conn fetch2 raise2 disjI2 refl)
  then have f: "fst (split_tiles ext_no_image example_args ''epsg:31370'' example_locations []
                [''02_BUSY''] ''train'' ?fse) = Some Fetch_error"
    by auto
  let ?w2 = "\<lparr>files = example_files, training = Dir []\<rparr>"
  let ?run2 = "prepare_traindatasets ext_online example_args ?w2"
  have r2: "fst ?run2 = Inr (''01'', 1)" by code_simp
  then have run2: "?run2 = (Inr (''01'', 1), snd ?run2)" by (cases ?run2) simp
  have ch: "training (snd ?run2) \<noteq> training ?w2" by code_simp
  have fl: "files (snd ?run2) = example_files" by code_simp
  note C = failed_build_keeps_versions [THEN conjunct2, THEN conjunct2, THEN conjunct1,
      rule_format]
  note c = C [of ext_online example_args ?w2 "''01''" 1 "snd ?run2", OF conjI [OF run2 ch],
      unfolded fl world.select_convs]
  from run isd none keep d f c [THEN conjunct1] c [THEN conjunct2] show ?thesis
    by - (intro conjI; assumption)
qed

section \<open>Version numbers\<close>

lemma filled_dir_frame:
  assumes "non_busy_unchanged fs fs'" and "filled_dir fs [format_02d v]"
  shows "filled_dir fs' [format_02d v]"
  using assms non_busy_lookup [OF assms(1) format_02d_names(1), of v "[]"]
  by (simp add: filled_dir_def)

text \<open>What a successful build leaves.\<close>

lemma after_build:
  assumes res: "resolve_version a fls fs = Inr (New_version v)"
    and b: "build_version x a fls v fs = (Inr r, fs')"
  shows "r = (format_02d v, v)" and "1 \<le> v" and "filled_dir fs' [format_02d v]"
    and "\<not> filled_dir fs [format_02d v]" and "fs' \<noteq> fs"
    and "set (output_dirs fs') = insert (format_02d v) (set (output_dirs fs))"
    and "\<And>a' fls' v'. resolve_version a' fls' fs' = Inr (New_version v') \<Longrightarrow> v \<le> v'"
proof -
  let ?final = "format_02d v" and ?tmp = "output_tmp_basedir v"
  note s = build_version_success [OF b]
  from s show r: "r = (?final, v)" by simp
  from resolve_version_new [OF res] show v1: "1 \<le> v" by simp
  from s show filled: "filled_dir fs' [?final]" by simp
  from s show empty: "\<not> filled_dir fs [?final]" by (auto simp: filled_dir_def)
  from filled empty show "fs' \<noteq> fs" by auto
  from v1 have v0: "0 \<le> v" by simp
  have others: "fs_lookup fs' [d] = fs_lookup fs [d]" if "d \<noteq> ?tmp" "d \<noteq> ?final" for d
    using s that by simp
  show out: "set (output_dirs fs') = insert ?final (set (output_dirs fs))"
  proof (intro set_eqI iffI)
    fix d assume d: "d \<in> set (output_dirs fs')"
    then have "d \<noteq> ?tmp" using format_02d_names(2) [of v] by (auto simp: output_dirs_iff)
    with d others [of d] show "d \<in> insert ?final (set (output_dirs fs))"
      by (cases "d = ?final") (auto simp: output_dirs_iff is_dir_def)
  next
    fix d assume d: "d \<in> insert ?final (set (output_dirs fs))"
    show "d \<in> set (output_dirs fs')"
    proof (cases "d = ?final")
      case True
      with filled_dir_is_dir [OF filled] format_02d_names(1) [of v] format_02d_names(3) [OF v0]
      show ?thesis by (simp add: output_dirs_iff)
    next
      case False
      with d have d': "d \<in> set (output_dirs fs)" by simp
      then have "d \<noteq> ?tmp" using format_02d_names(2) [of v] by (auto simp: output_dirs_iff)
      with d' False others [of d] show ?thesis by (simp add: output_dirs_iff is_dir_def)
    qed
  qed
  fix a' fls' v'
  assume res': "resolve_version a' fls' fs' = Inr (New_version v')"
  from out have ne: "output_dirs fs' \<noteq> []" by auto
  with resolve_version_new [OF res']
  have p': "py_int (Max (set (output_dirs fs'))) = Some (v' - 1)" by simp
  show "v \<le> v'"
  proof (cases "Max (set (output_dirs fs')) = ?final")
    case True
    with p' py_int_format_02d [OF v0] show ?thesis by simp
  next
    case False
    have "Max (set (output_dirs fs')) \<in> set (output_dirs fs')" using ne by (intro Max_in) auto
    with False out have S: "set (output_dirs fs) \<noteq> {}" by auto
    then have "Max (insert ?final (set (output_dirs fs))) = max ?final (Max (set (output_dirs fs)))"
      by (intro Max_insert) auto
    with False out have "Max (set (output_dirs fs')) = Max (set (output_dirs fs))"
      by (simp add: max_def split: if_splits)
    moreover from S resolve_version_new [OF res]
    have "py_int (Max (set (output_dirs fs))) = Some (v - 1)" by auto
    ultimately show ?thesis using p' by simp
  qed
qed

text \<open>One call of a sequence: it leaves the version directories alone, or it builds one.\<close>

lemma built_versions_Cons:
  "(\<exists>fs'. built_versions fs (c # cs) = built_versions fs' cs
          \<and> tree_after fs (c # cs) = tree_after fs' cs
          \<and> non_busy_unchanged fs fs')
   \<or> (\<exists>fs' u x a fls r. built_versions fs (c # cs) = u # built_versions fs' cs
          \<and> tree_after fs (c # cs) = tree_after fs' cs
          \<and> resolve_version a fls fs = Inr (New_version u)
          \<and> build_version x a fls u fs = (Inr r, fs'))"
proof -
  let ?w = "\<lparr>files = c_files c, training = fs\<rparr>"
  obtain r w' where run: "prepare_traindatasets (c_ext c) (c_args c) ?w = (r, w')"
    by (cases "prepare_traindatasets (c_ext c) (c_args c) ?w")
  from prepare_traindatasets_cases [OF run] consider
    (same) "training w' = fs"
    | (build) fls v where "resolve_version (c_args c) fls fs = Inr (New_version v)"
      "build_version (c_ext c) (c_args c) fls v fs = (r, training w')"
    by auto
  then show ?thesis
  proof cases
    case same
    with run have "built_versions fs (c # cs) = built_versions fs cs"
      "tree_after fs (c # cs) = tree_after fs cs"
      by (auto split: sum.splits)
    then show ?thesis using non_busy_unchanged_refl by blast
  next
    case build
    show ?thesis
    proof (cases r)
      case (Inl e)
      from build_version_error [OF build(2) [unfolded Inl]]
      have "non_busy_unchanged fs (training w')"
        using same_outside_busy [OF _ format_02d_names(2)] by blast
      moreover from run Inl have "built_versions fs (c # cs) = built_versions (training w') cs"
        "tree_after fs (c # cs) = tree_after (training w') cs"
        by simp_all
      ultimately show ?thesis by blast
    next
      case (Inr res)
      note ab = after_build [OF build(1) build(2) [unfolded Inr]]
      from run Inr ab(1,5)
      have "built_versions fs (c # cs) = v # built_versions (training w') cs"
        "tree_after fs (c # cs) = tree_after (training w') cs"
        by simp_all
      with build Inr show ?thesis by blast
    qed
  qed
qed

lemma built_versions_above:
  assumes "filled_dir fs [format_02d v]"
    and "\<And>a fls v'. resolve_version a fls fs = Inr (New_version v') \<Longrightarrow> v \<le> v'"
  shows "\<forall>u \<in> set (built_versions fs cs). v < u"
  using assms
proof (induction cs arbitrary: fs v)
  case Nil
  then show ?case by simp
next
  case (Cons c cs)
  from built_versions_Cons [of fs c cs] consider
    (quiet) fs' where "built_versions fs (c # cs) = built_versions fs' cs"
      "non_busy_unchanged fs fs'"
    | (build) fs' u x a fls r where "built_versions fs (c # cs) = u # built_versions fs' cs"
      "resolve_version a fls fs = Inr (New_version u)"
      "build_version x a fls u fs = (Inr r, fs')"
    by blast
  then show ?case
  proof cases
    case quiet
    have "\<forall>u \<in> set (built_versions fs' cs). v < u"
    proof (rule Cons.IH)
      show "filled_dir fs' [format_02d v]" by (rule filled_dir_frame [OF quiet(2) Cons.prems(1)])
      fix a fls v' assume "resolve_version a fls fs' = Inr (New_version v')"
      then show "v \<le> v'" using resolve_version_frame [OF quiet(2)] Cons.prems(2) by simp
    qed
    with quiet show ?thesis by simp
  next
    case build
    note ab = after_build [OF build(2,3)]
    from Cons.prems(2) [OF build(2)] have "v \<le> u" .
    moreover from ab(4) Cons.prems(1) have "u \<noteq> v" by auto
    ultimately have vu: "v < u" by simp
    have "\<forall>u' \<in> set (built_versions fs' cs). u < u'"
      by (rule Cons.IH [OF ab(3) ab(7)])
    with vu build(1) show ?thesis by auto
  qed
qed

lemma built_versions_sorted:
  "sorted_wrt (<) (built_versions fs cs) \<and> (\<forall>v \<in> set (built_versions fs cs). 1 \<le> v)"
proof (induction cs arbitrary: fs)
  case Nil
  then show ?case by simp
next
  case (Cons c cs)
  from built_versions_Cons [of fs c cs] consider
    (quiet) fs' where "built_versions fs (c # cs) = built_versions fs' cs"
    | (build) fs' u x a fls r where "built_versions fs (c # cs) = u # built_versions fs' cs"
      "resolve_version a fls fs = Inr (New_version u)"
      "build_version x a fls u fs = (Inr r, fs')"
    by blast
  then show ?case
  proof cases
    case quiet
    with Cons.IH [of fs'] show ?thesis by simp
  next
    case build
    note ab = after_build [OF build(2,3)]
    from built_versions_above [OF ab(3) ab(7), where cs = cs] Cons.IH [of fs'] ab(2) build(1)
    show ?thesis by auto
  qed
qed

text \<open>From an empty \<open>training_dir\<close>, every version directory is named by its number.\<close>

lemma tree_after_names:
  assumes "\<forall>d \<in> set (output_dirs fs). \<exists>v. 0 \<le> v \<and> d = format_02d v"
  shows "\<forall>d \<in> set (output_dirs (tree_after fs cs)). \<exists>v. 0 \<le> v \<and> d = format_02d v"
  using assms
proof (induction cs arbitrary: fs)
  case Nil
  then show ?case by simp
next
  case (Cons c cs)
  from built_versions_Cons [of fs c cs] consider
    (quiet) fs' where "tree_after fs (c # cs) = tree_after fs' cs" "non_busy_unchanged fs fs'"
    | (build) fs' u x a fls r where "tree_after fs (c # cs) = tree_after fs' cs"
      "resolve_version a fls fs = Inr (New_version u)"
      "build_version x a fls u fs = (Inr r, fs')"
    by blast
  then show ?case
  proof cases
    case quiet
    have "set (output_dirs fs') = set (output_dirs fs)"
      using non_busy_lookup [OF quiet(2), of _ "[]"] by (auto simp: output_dirs_iff is_dir_def)
    with Cons.IH [of fs'] Cons.prems quiet(1) show ?thesis by simp
  next
    case build
    note ab = after_build [OF build(2,3)]
    from ab(2,6) Cons.prems
    have "\<forall>d \<in> set (output_dirs fs'). \<exists>v. 0 \<le> v \<and> d = format_02d v"
      by (auto intro: exI [of _ u])
    with Cons.IH [of fs'] build(1) show ?thesis by simp
  qed
qed

text \<open>
  Claim C2. For any sequence of calls of \<open>prepare_traindatasets\<close> against the same
  \<open>training_dir\<close>, whatever it holds at the start and whatever the calls between them do
  (fail, or reuse the most recent version), the version numbers returned by the
  successful builds are strictly increasing natural numbers from 1 on, so that none is
  given twice; and from an empty \<open>training_dir\<close> no two version directories without
  the BUSY suffix have names that read as the same number.
\<close>

theorem version_numbers_strictly_increase:
  "sorted_wrt (<) (built_versions fs cs)
   \<and> distinct (built_versions fs cs)
   \<and> (\<forall>v \<in> set (built_versions fs cs). 1 \<le> v)
   \<and> (\<forall>d1 \<in> set (output_dirs (tree_after (Dir []) cs)).
        \<forall>d2 \<in> set (output_dirs (tree_after (Dir []) cs)).
          py_int d1 = py_int d2 \<longrightarrow> d1 = d2)"
proof -
  note s = built_versions_sorted [of fs cs]
  from s have "distinct (built_versions fs cs)"
    by (simp add: strict_sorted_iff)
  moreover have "\<forall>d \<in> set (output_dirs (Dir [])). \<exists>v. 0 \<le> v \<and> d = format_02d v"
    by (simp add: output_dirs_def glob_dirs_def)
  from tree_after_names [OF this, of cs]
  have "\<forall>d1 \<in> set (output_dirs (tree_after (Dir []) cs)).
        \<forall>d2 \<in> set (output_dirs (tree_after (Dir []) cs)).
          py_int d1 = py_int d2 \<longrightarrow> d1 = d2"
    using py_int_format_02d by (metis option.inject)
  ultimately show ?thesis using s by simp
qed


theorem version_numbers_strictly_increase_witness:
  "built_versions (Dir [])
     [\<lparr>c_ext = ext_online, c_args = example_args, c_files = quiet_files\<rparr>,
      \<lparr>c_ext = ext_online, c_args = example_args, c_files = example_files\<rparr>,
      \<lparr>c_ext = ext_online, c_args = example_args, c_files = example_files\<rparr>] = [1, 2]
   \<and> sorted_wrt (<) (built_versions (Dir [])
     [\<lparr>c_ext = ext_online, c_args = example_args, c_files = quiet_files\<rparr>,
      \<lparr>c_ext = ext_online, c_args = example_args, c_files = example_files\<rparr>,
      \<lparr>c_ext = ext_online, c_args = example_args, c_files = example_files\<rparr>])
   \<and> output_dirs (tree_after (Dir [])
     [\<lparr>c_ext = ext_online, c_args = example_args, c_files = quiet_files\<rparr>,
      \<lparr>c_ext = ext_online, c_args = example_args, c_files = example_files\<rparr>,
      \<lparr>c_ext = ext_online, c_args = example_args, c_files = example_files\<rparr>]) = [''01'', ''02'']
   \<and> py_int ''01'' \<noteq> py_int ''02''"
proof -
  let ?cs = "[\<lparr>c_ext = ext_online, c_args = example_args, c_files = quiet_files\<rparr>,
      \<lparr>c_ext = ext_online, c_args = example_args, c_files = example_files\<rparr>,
      \<lparr>c_ext = ext_online, c_args = example_args, c_files = example_files\<rparr>]"
  have b: "built_versions (Dir []) ?cs = [1, 2]" by code_simp
  have o: "output_dirs (tree_after (Dir []) ?cs) = [''01'', ''02'']" by code_simp
  note t = version_numbers_strictly_increase [of "Dir []" ?cs]
  from t have s: "sorted_wrt (<) (built_versions (Dir []) ?cs)" by blast
  from t have "\<forall>d1 \<in> set (output_dirs (tree_after (Dir []) ?cs)).
        \<forall>d2 \<in> set (output_dirs (tree_after (Dir []) ?cs)). py_int d1 = py_int d2 \<longrightarrow> d1 = d2"
    by blast
  then have "py_int ''01'' = py_int ''02'' \<longrightarrow> ''01'' = ''02''"
    unfolding o by simp
  then have "py_int ''01'' \<noteq> py_int ''02''" by auto
  moreover from t have "\<forall>v \<in> set (built_versions (Dir []) ?cs). 1 \<le> v" by blast
  then have "(1::int) \<le> 1 \<and> (1::int) \<le> 2" unfolding b by simp
  ultimately show ?thesis using b o s by blast
qed

section \<open>Reusing the most recent version\<close>












end
